theory Spec2Isabelle
  imports Complex_Main "HOL-Library.Char_ord" "HOL-Library.Code_Target_Nat"
begin

section \<open>The expression language parser of the REPL\<close>

text \<open>
  A shallow embedding of \<^verbatim>\<open>src/assets/scripts/components/expression-language-parser.js\<close>,
  the class \<^verbatim>\<open>ExpressionLanguageParser\<close>. The JavaScript works on the text of the
  expression directly (substring tests, regular expressions, \<^verbatim>\<open>split\<close>), so the model
  does too: there is no token list and no syntax tree in the source, and none here.

  Conventions of the model:
  \<^item> a JavaScript string is a \<open>string\<close>; the characters are the 256 code units below
    \<^verbatim>\<open>U+0100\<close>, texts with other code units are outside the model;
  \<^item> a JavaScript number is a double whose value is a rational, or one of \<^verbatim>\<open>NaN\<close>,
    \<^verbatim>\<open>Infinity\<close>, \<^verbatim>\<open>-Infinity\<close>; the model computes where the doubles are exact (on the
    integers up to \<open>2 ^ 53\<close> in magnitude, and on what is computed from them without
    rounding), and where JavaScript rounds, or gives the negative zero, the evaluation ends
    with \<open>Inl (Unmodelled what)\<close> instead of a value;
  \<^item> an \<^verbatim>\<open>Error\<close> thrown by the source is the value \<open>Inl (Thrown message)\<close>;
  \<^item> \<^verbatim>\<open>this.environment\<close> is a map from names to values, threaded through every
    function together with a counter that gives each new array its identity;
  \<^item> the recursion of \<^verbatim>\<open>_evaluateExpression\<close> is on ever shorter texts; the model
    counts it down with a fuel that starts above the length of the text.
\<close>

subsection \<open>Strings of the JavaScript runtime\<close>

text \<open>The characters that \<^verbatim>\<open>String.prototype.trim\<close> strips and that \<^verbatim>\<open>\s\<close> matches
  in a regular expression, among the 256 characters of the model: tab, line feed, vertical
  tab, form feed, carriage return, space and the no-break space.\<close>

definition isWhiteSpace :: "char \<Rightarrow> bool" where
  "isWhiteSpace c = (c \<in> set [CHR 0x09, CHR 0x0A, CHR 0x0B, CHR 0x0C, CHR 0x0D, CHR 0x20, CHR 0xA0])"

text \<open>The line terminators, which \<^verbatim>\<open>.\<close> does not match in a regular expression.\<close>

definition isLineTerminator :: "char \<Rightarrow> bool" where
  "isLineTerminator c = (c = CHR 0x0A \<or> c = CHR 0x0D)"

definition isDigit :: "char \<Rightarrow> bool" where
  "isDigit c = (CHR ''0'' \<le> c \<and> c \<le> CHR ''9'')"

definition isIdentStart :: "char \<Rightarrow> bool" where
  "isIdentStart c = ((CHR ''a'' \<le> c \<and> c \<le> CHR ''z'') \<or> (CHR ''A'' \<le> c \<and> c \<le> CHR ''Z'') \<or> c = CHR ''_'')"

definition isIdentChar :: "char \<Rightarrow> bool" where
  "isIdentChar c = (isIdentStart c \<or> isDigit c)"

definition trim :: "string \<Rightarrow> string" where
  "trim s = rev (dropWhile isWhiteSpace (rev (dropWhile isWhiteSpace s)))"

fun startsWith :: "string \<Rightarrow> string \<Rightarrow> bool" where
  "startsWith s [] = True"
| "startsWith [] (p # ps) = False"
| "startsWith (c # cs) (p # ps) = (c = p \<and> startsWith cs ps)"

definition endsWith :: "string \<Rightarrow> string \<Rightarrow> bool" where
  "endsWith s p = startsWith (rev s) (rev p)"

text \<open>\<^verbatim>\<open>s.indexOf(p)\<close>: the first position where \<open>p\<close> occurs, or \<open>-1\<close>.
  \<open>indexOfAux p s k\<close> searches \<open>s\<close>, whose first character has position \<open>k\<close>.\<close>

fun indexOfAux :: "string \<Rightarrow> string \<Rightarrow> int \<Rightarrow> int" where
  "indexOfAux p [] k = (if p = [] then k else - 1)"
| "indexOfAux p (c # cs) k = (if startsWith (c # cs) p then k else indexOfAux p cs (k + 1))"

definition indexOf :: "string \<Rightarrow> string \<Rightarrow> int" where
  "indexOf s p = indexOfAux p s 0"

text \<open>\<^verbatim>\<open>s.indexOf(p, start)\<close>: the start is clamped between \<open>0\<close> and the length.\<close>

definition indexOfFrom :: "string \<Rightarrow> string \<Rightarrow> int \<Rightarrow> int" where
  "indexOfFrom s p start =
     (let k = min (max start 0) (int (length s)) in indexOfAux p (drop (nat k) s) k)"

text \<open>\<^verbatim>\<open>s.lastIndexOf(p)\<close>: the last position where \<open>p\<close> occurs, or \<open>-1\<close>.
  \<open>lastIndexOfAux p s k found\<close> carries the last position found so far.\<close>

fun lastIndexOfAux :: "string \<Rightarrow> string \<Rightarrow> int \<Rightarrow> int \<Rightarrow> int" where
  "lastIndexOfAux p [] k found = (if p = [] then k else found)"
| "lastIndexOfAux p (c # cs) k found =
     lastIndexOfAux p cs (k + 1) (if startsWith (c # cs) p then k else found)"

definition lastIndexOf :: "string \<Rightarrow> string \<Rightarrow> int" where
  "lastIndexOf s p = lastIndexOfAux p s 0 (- 1)"

definition includesStr :: "string \<Rightarrow> string \<Rightarrow> bool" where
  "includesStr s p = (indexOf s p \<noteq> - 1)"

text \<open>\<^verbatim>\<open>s.substring(a, b)\<close>: both indices are clamped between \<open>0\<close> and the length of
  \<open>s\<close>, and swapped when the first is the larger.\<close>

definition substring :: "string \<Rightarrow> int \<Rightarrow> int \<Rightarrow> string" where
  "substring s a b =
     (let a' = min (max a 0) (int (length s)); b' = min (max b 0) (int (length s));
          lo = min a' b'; hi = max a' b'
      in take (nat (hi - lo)) (drop (nat lo) s))"

text \<open>\<^verbatim>\<open>s.substring(a)\<close>.\<close>

definition substringFrom :: "string \<Rightarrow> int \<Rightarrow> string" where
  "substringFrom s a = drop (nat a) s"

text \<open>\<^verbatim>\<open>s[i]\<close> as a string: the character at position \<open>i\<close>, nothing out of range.\<close>

definition charAt :: "string \<Rightarrow> int \<Rightarrow> string" where
  "charAt s i = (if i < 0 then [] else take 1 (drop (nat i) s))"

text \<open>\<^verbatim>\<open>s.split(sep)\<close>: the pieces between the occurrences of the separator, found
  from left to right (the source splits at \<^verbatim>\<open>';'\<close>, \<^verbatim>\<open>','\<close>, \<^verbatim>\<open>'='\<close>, \<^verbatim>\<open>'=='\<close>,
  \<^verbatim>\<open>'&&'\<close> and \<^verbatim>\<open>'||'\<close>). \<open>splitAux sep skip cur s\<close> reads \<open>s\<close> with the piece \<open>cur\<close>
  collected so far (reversed) and \<open>skip\<close> characters of a separator still to pass.\<close>

fun splitAux :: "string \<Rightarrow> nat \<Rightarrow> string \<Rightarrow> string \<Rightarrow> string list" where
  "splitAux sep skip cur [] = [rev cur]"
| "splitAux sep (Suc k) cur (c # cs) = splitAux sep k cur cs"
| "splitAux sep 0 cur (c # cs) =
     (if startsWith (c # cs) sep then rev cur # splitAux sep (length sep - 1) [] cs
      else splitAux sep 0 (c # cur) cs)"

definition split :: "string \<Rightarrow> string \<Rightarrow> string list" where
  "split s sep = (if sep = [] then map (\<lambda>c. [c]) s else splitAux sep 0 [] s)"

text \<open>\<^verbatim>\<open>items.join(sep)\<close>.\<close>

fun join :: "string \<Rightarrow> string list \<Rightarrow> string" where
  "join sep [] = []"
| "join sep [x] = x"
| "join sep (x # y # ys) = x @ sep @ join sep (y # ys)"

subsection \<open>Numbers of the JavaScript runtime\<close>

text \<open>A JavaScript number is an IEEE double. \<open>Fin q\<close> is the double whose value is the
  rational \<open>q\<close>. The model computes with the finite doubles \<open>n / 2 ^ j\<close> where neither
  \<open>\<bar>n\<bar>\<close> nor \<open>2 ^ j\<close> exceeds \<open>2 ^ 53\<close> (each of them is a double, and among them are the
  integers up to \<open>2 ^ 53\<close>), with \<^verbatim>\<open>NaN\<close> and with the two infinities. It does not round and it
  has no negative zero: a function of this subsection whose result in JavaScript is a double
  outside this range, a rounded double or the negative zero, returns \<open>None\<close>.\<close>

datatype number = Fin rat | NaN | PosInfinity | NegInfinity

fun oddPart :: "nat \<Rightarrow> nat" where
  "oddPart n = (if n = 0 \<or> odd n then n else oddPart (n div 2))"

definition exactDouble :: "rat \<Rightarrow> bool" where
  "exactDouble q =
     (case quotient_of q of
        (n, d) \<Rightarrow> \<bar>n\<bar> \<le> 9007199254740992 \<and> d \<le> 9007199254740992 \<and> oddPart (nat d) = 1)"

text \<open>The double of the value \<open>q\<close>, where the model has it.\<close>

definition double :: "rat \<Rightarrow> number option" where
  "double q = (if exactDouble q then Some (Fin q) else None)"

definition digitValue :: "char \<Rightarrow> nat" where
  "digitValue c = of_char c - of_char (CHR ''0'')"

definition natOfDigits :: "string \<Rightarrow> nat" where
  "natOfDigits ds = foldl (\<lambda>a c. 10 * a + digitValue c) 0 ds"

text \<open>The exponent part of a decimal literal, \<^verbatim>\<open>e\<close> or \<^verbatim>\<open>E\<close>, a sign and digits: the
  factor it stands for and the text after it. Without digits there is no exponent part.\<close>

definition parseExponent :: "string \<Rightarrow> rat \<times> string" where
  "parseExponent s =
     (case s of
        [] \<Rightarrow> (1, s)
      | c # r \<Rightarrow>
          if c = CHR ''e'' \<or> c = CHR ''E'' then
            (let r' = (if startsWith r ''-'' \<or> startsWith r ''+'' then drop 1 r else r);
                 ds = takeWhile isDigit r'
             in if ds = [] then (1, s)
                else (if startsWith r ''-'' then 1 / 10 ^ natOfDigits ds else 10 ^ natOfDigits ds,
                      dropWhile isDigit r'))
          else (1, s))"

text \<open>The longest prefix that is a decimal literal without sign (digits, a fraction, an
  exponent): the rational that the literal writes and the text after it.\<close>

definition parseUnsignedDecimal :: "string \<Rightarrow> (rat \<times> string) option" where
  "parseUnsignedDecimal s =
     (let ip = takeWhile isDigit s; r1 = dropWhile isDigit s;
          hasDot = startsWith r1 ''.'';
          fp = (if hasDot then takeWhile isDigit (drop 1 r1) else []);
          r2 = (if hasDot then dropWhile isDigit (drop 1 r1) else r1)
      in if ip = [] \<and> fp = [] then None
         else (let mant = of_nat (natOfDigits ip) + of_nat (natOfDigits fp) / 10 ^ length fp;
                   ex = parseExponent r2
               in Some (mant * fst ex, snd ex)))"

text \<open>The double that a literal denotes which writes the rational \<open>r\<close> after a sign: \<open>r\<close>
  itself, with the sign, when that is a double of the model. A literal for another rational
  denotes the double next to it, and \<^verbatim>\<open>-0\<close> denotes the negative zero.\<close>

definition literal :: "bool \<Rightarrow> rat \<Rightarrow> number option" where
  "literal neg r = (if neg \<and> r = 0 then None else double (if neg then - r else r))"

text \<open>The longest prefix that is a signed decimal literal or a signed \<^verbatim>\<open>Infinity\<close>: the
  number it denotes (\<open>None\<close> where the model does not have it) and the text after it.\<close>

definition parseSignedDecimal :: "string \<Rightarrow> (number option \<times> string) option" where
  "parseSignedDecimal s =
     (let neg = startsWith s ''-'';
          body = (if startsWith s ''-'' \<or> startsWith s ''+'' then drop 1 s else s)
      in if startsWith body ''Infinity''
         then Some (Some (if neg then NegInfinity else PosInfinity), drop 8 body)
         else case parseUnsignedDecimal body of
                None \<Rightarrow> None
              | Some (r, rest) \<Rightarrow> Some (literal neg r, rest))"

text \<open>\<^verbatim>\<open>parseFloat(s)\<close>: the number that the longest prefix of \<open>s\<close> denotes, after leading
  white space; whatever follows that prefix is ignored. \<^verbatim>\<open>NaN\<close> when no prefix is a number.\<close>

definition parseFloat :: "string \<Rightarrow> number option" where
  "parseFloat s =
     (case parseSignedDecimal (dropWhile isWhiteSpace s) of
        None \<Rightarrow> Some NaN
      | Some (n, rest) \<Rightarrow> n)"

text \<open>\<^verbatim>\<open>parseInt(ds)\<close> on a text that the regular expression \<^verbatim>\<open>\d+\<close> has matched: the
  integer that the digits write. It is the result of \<^verbatim>\<open>parseInt\<close> up to \<open>2 ^ 53\<close>; above, the
  result is a rounded double.\<close>

definition parseInt :: "string \<Rightarrow> nat" where
  "parseInt ds = natOfDigits ds"

definition hexDigitValue :: "char \<Rightarrow> nat option" where
  "hexDigitValue c =
     (if isDigit c then Some (digitValue c)
      else if CHR ''a'' \<le> c \<and> c \<le> CHR ''f'' then Some (of_char c - 87)
      else if CHR ''A'' \<le> c \<and> c \<le> CHR ''F'' then Some (of_char c - 55)
      else None)"

text \<open>The digits of a literal in base 2, 8 or 16, all of them below the base.\<close>

definition radixLiteral :: "nat \<Rightarrow> string \<Rightarrow> number option" where
  "radixLiteral b ds =
     (if ds \<noteq> [] \<and> (\<forall>c \<in> set ds. case hexDigitValue c of None \<Rightarrow> False | Some d \<Rightarrow> d < b)
      then double (of_nat (foldl (\<lambda>a c. b * a + (case hexDigitValue c of None \<Rightarrow> 0 | Some d \<Rightarrow> d)) 0 ds))
      else Some NaN)"

text \<open>The conversion of a string to a number (\<^verbatim>\<open>Number(s)\<close>), which the arithmetic and
  the comparisons of JavaScript apply to a string operand: the whole text, white space at
  both ends apart, must be a numeric literal; the empty text is \<open>0\<close>.\<close>

definition stringToNumber :: "string \<Rightarrow> number option" where
  "stringToNumber s =
     (let t = trim s
      in if t = [] then Some (Fin 0)
         else if startsWith t ''0x'' \<or> startsWith t ''0X'' then radixLiteral 16 (drop 2 t)
         else if startsWith t ''0o'' \<or> startsWith t ''0O'' then radixLiteral 8 (drop 2 t)
         else if startsWith t ''0b'' \<or> startsWith t ''0B'' then radixLiteral 2 (drop 2 t)
         else case parseSignedDecimal t of
                Some (n, []) \<Rightarrow> n
              | _ \<Rightarrow> Some NaN)"

fun digitsOfNat :: "nat \<Rightarrow> string" where
  "digitsOfNat n =
     (if n < 10 then [char_of (48 + n)] else digitsOfNat (n div 10) @ [char_of (48 + n mod 10)])"

text \<open>The digits after the decimal point of \<open>r / d\<close>, by long division, at most \<open>k\<close> of them.\<close>

fun fractionDigits :: "nat \<Rightarrow> nat \<Rightarrow> nat \<Rightarrow> string" where
  "fractionDigits 0 r d = []"
| "fractionDigits (Suc k) r d =
     (if r = 0 then [] else char_of (48 + (10 * r) div d) # fractionDigits k ((10 * r) mod d) d)"

text \<open>\<^verbatim>\<open>String(x)\<close> for a number. JavaScript prints the shortest decimal that reads back as
  the same double, without an exponent from \<open>10 ^ -6\<close> up to \<open>10 ^ 21\<close>. For an integer up to
  \<open>2 ^ 53\<close> that is its decimal digits, because every integer up to \<open>2 ^ 53\<close> is a double
  and reads back as itself. For
  a double of the model whose decimal expansion (it ends, after 53 places at most) has no
  more than 15 significant digits it is that expansion, because two decimals of no more
  than 15 significant digits never read back as the same double. The model prints these
  numbers, and has no text for the others.\<close>

definition numberToString :: "number \<Rightarrow> string option" where
  "numberToString x =
     (case x of
        NaN \<Rightarrow> Some ''NaN''
      | PosInfinity \<Rightarrow> Some ''Infinity''
      | NegInfinity \<Rightarrow> Some ''-Infinity''
      | Fin r \<Rightarrow>
          (let p = fst (quotient_of r); a = nat \<bar>p\<bar>; d = nat (snd (quotient_of r));
               whole = digitsOfNat (a div d);
               fraction = fractionDigits 53 (a mod d) d
           in if exactDouble r \<and>
                 (d = 1 \<or>
                  (length (dropWhile (\<lambda>c. c = CHR ''0'') (whole @ fraction)) \<le> 15 \<and>
                   1 / 1000000 \<le> \<bar>r\<bar>))
              then Some ((if p < 0 then ''-'' else []) @ whole @
                         (if fraction = [] then [] else ''.'' @ fraction))
              else None))"

text \<open>The arithmetic of doubles. The result of an operation on two finite doubles is the
  double next to the exact result: the exact result itself when that is a double. A
  product or a quotient that is zero has the sign of its operands, so that it is the
  negative zero when one of them is negative.\<close>

definition numNeg :: "number \<Rightarrow> number" where
  "numNeg x = (case x of Fin r \<Rightarrow> Fin (- r) | NaN \<Rightarrow> NaN
               | PosInfinity \<Rightarrow> NegInfinity | NegInfinity \<Rightarrow> PosInfinity)"

fun numAdd :: "number \<Rightarrow> number \<Rightarrow> number option" where
  "numAdd NaN y = Some NaN"
| "numAdd x NaN = Some NaN"
| "numAdd (Fin a) (Fin b) = (if exactDouble a \<and> exactDouble b then double (a + b) else None)"
| "numAdd PosInfinity NegInfinity = Some NaN"
| "numAdd NegInfinity PosInfinity = Some NaN"
| "numAdd PosInfinity y = Some PosInfinity"
| "numAdd NegInfinity y = Some NegInfinity"
| "numAdd (Fin a) y = Some y"

text \<open>\<open>x - y\<close> is \<open>x + (- y)\<close>; the zero that \<open>x - x\<close> and \<open>0 - 0\<close> give is the positive one.\<close>

definition numSub :: "number \<Rightarrow> number \<Rightarrow> number option" where
  "numSub x y = numAdd x (numNeg y)"

text \<open>The sign of a number that is not \<^verbatim>\<open>NaN\<close>: \<open>-1\<close>, \<open>0\<close> or \<open>1\<close>.\<close>

definition numSign :: "number \<Rightarrow> int" where
  "numSign x = (case x of Fin r \<Rightarrow> (if r < 0 then - 1 else if r = 0 then 0 else 1)
                | NaN \<Rightarrow> 0 | PosInfinity \<Rightarrow> 1 | NegInfinity \<Rightarrow> - 1)"

fun numMul :: "number \<Rightarrow> number \<Rightarrow> number option" where
  "numMul NaN y = Some NaN"
| "numMul x NaN = Some NaN"
| "numMul (Fin a) (Fin b) =
     (if exactDouble a \<and> exactDouble b \<and> \<not> (a * b = 0 \<and> (a < 0 \<or> b < 0))
      then double (a * b) else None)"
| "numMul x y =
     Some (if numSign x * numSign y = 0 then NaN
           else if numSign x * numSign y < 0 then NegInfinity else PosInfinity)"

text \<open>Division of doubles: a finite number that is not zero, divided by zero, is an
  infinity (the zero of the model is the positive one), and \<open>0 / 0\<close> is \<^verbatim>\<open>NaN\<close>; a finite
  number divided by an infinity is a zero.\<close>

fun numDiv :: "number \<Rightarrow> number \<Rightarrow> number option" where
  "numDiv NaN y = Some NaN"
| "numDiv x NaN = Some NaN"
| "numDiv (Fin a) (Fin b) =
     (if \<not> exactDouble a \<or> \<not> exactDouble b then None
      else if b = 0 then Some (if a = 0 then NaN else if a < 0 then NegInfinity else PosInfinity)
      else if a = 0 \<and> b < 0 then None
      else double (a / b))"
| "numDiv (Fin a) PosInfinity = (if a < 0 then None else Some (Fin 0))"
| "numDiv (Fin a) NegInfinity = (if a < 0 then Some (Fin 0) else None)"
| "numDiv x (Fin b) =
     Some (if numSign x * (if b < 0 then - 1 else 1) < 0 then NegInfinity else PosInfinity)"
| "numDiv x y = Some NaN"

text \<open>\<open>x < y\<close> on numbers; \<open>None\<close> is the \<^verbatim>\<open>undefined\<close> that a comparison with
  \<^verbatim>\<open>NaN\<close> gives.\<close>

fun numLess :: "number \<Rightarrow> number \<Rightarrow> bool option" where
  "numLess NaN y = None"
| "numLess x NaN = None"
| "numLess (Fin a) (Fin b) = Some (a < b)"
| "numLess x PosInfinity = Some (x \<noteq> PosInfinity)"
| "numLess NegInfinity y = Some (y \<noteq> NegInfinity)"
| "numLess x y = Some False"

definition numEq :: "number \<Rightarrow> number \<Rightarrow> bool" where
  "numEq x y = (x \<noteq> NaN \<and> x = y)"

subsection \<open>Values and the operators of JavaScript on them\<close>

text \<open>The values that the evaluator computes with. An array carries its identity, a
  number that it gets when it is created: \<^verbatim>\<open>===\<close> and \<^verbatim>\<open>Array.prototype.includes\<close>
  compare arrays by identity, not by content. \<open>Obj p\<close> is the object
  \<^verbatim>\<open>{ '@predicate': p }\<close> that \<^verbatim>\<open>_parseArguments\<close> builds. The operators that convert a
  number to a text or a text to a number, or that compute a number, return \<open>None\<close> where
  the functions on numbers do.\<close>

datatype val = Num number | Str string | Bool bool | Arr nat "val list" | Obj string

text \<open>\<^verbatim>\<open>String(v)\<close>: an array is the texts of its elements joined by commas.\<close>

fun toStr :: "val \<Rightarrow> string option" where
  "toStr (Num n) = numberToString n"
| "toStr (Str s) = Some s"
| "toStr (Bool b) = Some (if b then ''true'' else ''false'')"
| "toStr (Arr i vs) = map_option (join '','') (those (map toStr vs))"
| "toStr (Obj p) = Some ''[object Object]''"

text \<open>The conversion of an operand to a primitive value: an array or an object becomes
  its text.\<close>

definition toPrimitive :: "val \<Rightarrow> val option" where
  "toPrimitive v =
     (case v of
        Arr i vs \<Rightarrow> map_option Str (toStr v)
      | Obj p \<Rightarrow> map_option Str (toStr v)
      | _ \<Rightarrow> Some v)"

definition toNumber :: "val \<Rightarrow> number option" where
  "toNumber v =
     (case v of
        Num n \<Rightarrow> Some n
      | Bool b \<Rightarrow> Some (Fin (if b then 1 else 0))
      | _ \<Rightarrow> (case toStr v of None \<Rightarrow> None | Some t \<Rightarrow> stringToNumber t))"

text \<open>What \<^verbatim>\<open>if (v)\<close>, \<^verbatim>\<open>!v\<close>, \<^verbatim>\<open>&&\<close>, \<^verbatim>\<open>||\<close> and the callbacks of \<^verbatim>\<open>filter\<close>,
  \<^verbatim>\<open>every\<close> and \<^verbatim>\<open>some\<close> take for true.\<close>

definition truthy :: "val \<Rightarrow> bool" where
  "truthy v =
     (case v of
        Num n \<Rightarrow> n \<noteq> NaN \<and> n \<noteq> Fin 0
      | Str s \<Rightarrow> s \<noteq> []
      | Bool b \<Rightarrow> b
      | _ \<Rightarrow> True)"

text \<open>\<^verbatim>\<open>a === b\<close>.\<close>

fun strictEquals :: "val \<Rightarrow> val \<Rightarrow> bool" where
  "strictEquals (Num x) (Num y) = numEq x y"
| "strictEquals (Str x) (Str y) = (x = y)"
| "strictEquals (Bool x) (Bool y) = (x = y)"
| "strictEquals (Arr i xs) (Arr j ys) = (i = j)"
| "strictEquals a b = False"

text \<open>\<^verbatim>\<open>a == n\<close> for a number \<open>n\<close>: an operand of another kind is converted to a number.\<close>

definition looseEqualsNumber :: "val \<Rightarrow> number \<Rightarrow> bool option" where
  "looseEqualsNumber a n = map_option (\<lambda>x. numEq x n) (toNumber a)"

text \<open>The comparison of \<^verbatim>\<open>Array.prototype.includes\<close>: as \<^verbatim>\<open>===\<close>, with \<^verbatim>\<open>NaN\<close> equal
  to itself.\<close>

definition sameValueZero :: "val \<Rightarrow> val \<Rightarrow> bool" where
  "sameValueZero a b = (strictEquals a b \<or> (a = Num NaN \<and> b = Num NaN))"

fun stringLess :: "string \<Rightarrow> string \<Rightarrow> bool" where
  "stringLess x [] = False"
| "stringLess [] (d # y) = True"
| "stringLess (c # x) (d # y) = (c < d \<or> (c = d \<and> stringLess x y))"

text \<open>\<^verbatim>\<open>a < b\<close> before its result is made a boolean: two strings are compared by their
  characters, any other pair as numbers; the result is \<open>Some None\<close>, the \<^verbatim>\<open>undefined\<close> of
  JavaScript, when one of the two is \<^verbatim>\<open>NaN\<close>.\<close>

definition abstractLess :: "val \<Rightarrow> val \<Rightarrow> bool option option" where
  "abstractLess a b =
     (case (toPrimitive a, toPrimitive b) of
        (Some (Str x), Some (Str y)) \<Rightarrow> Some (Some (stringLess x y))
      | (Some pa, Some pb) \<Rightarrow>
          (case (toNumber pa, toNumber pb) of
             (Some x, Some y) \<Rightarrow> Some (numLess x y)
           | _ \<Rightarrow> None)
      | _ \<Rightarrow> None)"

definition jsLt :: "val \<Rightarrow> val \<Rightarrow> bool option" where
  "jsLt a b = map_option (\<lambda>r. r = Some True) (abstractLess a b)"

definition jsGt :: "val \<Rightarrow> val \<Rightarrow> bool option" where
  "jsGt a b = map_option (\<lambda>r. r = Some True) (abstractLess b a)"

definition jsLe :: "val \<Rightarrow> val \<Rightarrow> bool option" where
  "jsLe a b = map_option (\<lambda>r. r = Some False) (abstractLess b a)"

definition jsGe :: "val \<Rightarrow> val \<Rightarrow> bool option" where
  "jsGe a b = map_option (\<lambda>r. r = Some False) (abstractLess a b)"

text \<open>\<^verbatim>\<open>a + b\<close>: when one operand is a string (or an array, whose primitive value is a
  string) the texts are concatenated, otherwise the numbers are added.\<close>

definition jsAdd :: "val \<Rightarrow> val \<Rightarrow> val option" where
  "jsAdd a b =
     (case (toPrimitive a, toPrimitive b) of
        (Some (Str x), Some pb) \<Rightarrow> map_option (\<lambda>y. Str (x @ y)) (toStr pb)
      | (Some pa, Some (Str y)) \<Rightarrow> map_option (\<lambda>x. Str (x @ y)) (toStr pa)
      | (Some pa, Some pb) \<Rightarrow>
          (case (toNumber pa, toNumber pb) of
             (Some x, Some y) \<Rightarrow> map_option Num (numAdd x y)
           | _ \<Rightarrow> None)
      | _ \<Rightarrow> None)"

text \<open>\<^verbatim>\<open>a - b\<close>, \<^verbatim>\<open>a * b\<close> and \<^verbatim>\<open>a / b\<close>: both operands are converted to numbers.\<close>

definition onNumbers :: "(number \<Rightarrow> number \<Rightarrow> number option) \<Rightarrow> val \<Rightarrow> val \<Rightarrow> val option" where
  "onNumbers f a b =
     (case (toNumber a, toNumber b) of
        (Some x, Some y) \<Rightarrow> map_option Num (f x y)
      | _ \<Rightarrow> None)"

definition jsSub :: "val \<Rightarrow> val \<Rightarrow> val option" where
  "jsSub a b = onNumbers numSub a b"

definition jsMul :: "val \<Rightarrow> val \<Rightarrow> val option" where
  "jsMul a b = onNumbers numMul a b"

definition jsDiv :: "val \<Rightarrow> val \<Rightarrow> val option" where
  "jsDiv a b = onNumbers numDiv a b"

text \<open>\<^verbatim>\<open>Array.isArray(v)\<close> and \<^verbatim>\<open>typeof v === 'string'\<close>, \<^verbatim>\<open>typeof v === 'number'\<close>; the
  text of a string and the number of a number.\<close>

definition isArray :: "val \<Rightarrow> bool" where
  "isArray v = (case v of Arr i vs \<Rightarrow> True | _ \<Rightarrow> False)"

definition isString :: "val \<Rightarrow> bool" where
  "isString v = (case v of Str s \<Rightarrow> True | _ \<Rightarrow> False)"

definition isNumber :: "val \<Rightarrow> bool" where
  "isNumber v = (case v of Num n \<Rightarrow> True | _ \<Rightarrow> False)"

definition stringOf :: "val \<Rightarrow> string" where
  "stringOf v = (case v of Str s \<Rightarrow> s | _ \<Rightarrow> [])"

definition numberOf :: "val \<Rightarrow> number" where
  "numberOf v = (case v of Num n \<Rightarrow> n | _ \<Rightarrow> NaN)"

text \<open>An index argument of \<^verbatim>\<open>String.prototype.substring\<close>: the number is truncated to an
  integer and clamped between \<open>0\<close> and the length; \<^verbatim>\<open>NaN\<close> is \<open>0\<close>.\<close>

definition clampIndex :: "number \<Rightarrow> nat \<Rightarrow> nat" where
  "clampIndex n len =
     (case n of
        Fin r \<Rightarrow> (if r \<le> 0 then 0 else min (nat \<lfloor>r\<rfloor>) len)
      | PosInfinity \<Rightarrow> len
      | _ \<Rightarrow> 0)"

subsection \<open>The regular expressions of the source\<close>

text \<open>Each regular expression of the source has a matcher written for it. In all of
  them every repetition is followed by a character that the repetition cannot match (or
  by the end of the text), so that the greedy match is the only one and no backtracking
  is modelled; the one exception is explained at \<open>matchesOperand\<close>.\<close>

definition skipSpaces :: "string \<Rightarrow> string" where
  "skipSpaces s = dropWhile isWhiteSpace s"

text \<open>A fixed text \<open>p\<close> at the start of \<open>s\<close>: what follows it.\<close>

definition expect :: "string \<Rightarrow> string \<Rightarrow> string option" where
  "expect p s = (if startsWith s p then Some (drop (length p) s) else None)"

text \<open>\<^verbatim>\<open>[a-zA-Z_][a-zA-Z0-9_]*\<close> at the start of \<open>s\<close>: the name and what follows it.\<close>

definition readIdentifier :: "string \<Rightarrow> (string \<times> string) option" where
  "readIdentifier s =
     (case s of
        [] \<Rightarrow> None
      | c # cs \<Rightarrow>
          if isIdentStart c then Some (c # takeWhile isIdentChar cs, dropWhile isIdentChar cs)
          else None)"

text \<open>\<^verbatim>\<open>/^[a-zA-Z_][a-zA-Z0-9_]*$/\<close>.\<close>

definition isIdentifier :: "string \<Rightarrow> bool" where
  "isIdentifier s = (case readIdentifier s of Some (name, []) \<Rightarrow> True | _ \<Rightarrow> False)"

text \<open>\<^verbatim>\<open>"[^"]*"\<close> at the start of \<open>s\<close>, for the quote character \<open>q\<close>: what follows the
  closing quote.\<close>

definition readQuoted :: "char \<Rightarrow> string \<Rightarrow> string option" where
  "readQuoted q s =
     (case s of
        [] \<Rightarrow> None
      | c # r \<Rightarrow>
          if c = q then (case dropWhile (\<lambda>x. x \<noteq> q) r of [] \<Rightarrow> None | d # r' \<Rightarrow> Some r')
          else None)"

text \<open>\<^verbatim>\<open>/^"[^"]*"\s*==\s*"[^"]*"$/\<close>, and the same with \<^verbatim>\<open>'\<close> for the quote character.\<close>

definition isStringComparison :: "char \<Rightarrow> string \<Rightarrow> bool" where
  "isStringComparison q expr =
     (case readQuoted q expr of
        None \<Rightarrow> False
      | Some r1 \<Rightarrow>
          (case expect ''=='' (skipSpaces r1) of
             None \<Rightarrow> False
           | Some r2 \<Rightarrow> readQuoted q (skipSpaces r2) = Some []))"

text \<open>\<^verbatim>\<open>(filter|all|any)\<close> at the start of \<open>s\<close>.\<close>

definition readCollectionFunction :: "string \<Rightarrow> (string \<times> string) option" where
  "readCollectionFunction s =
     (if startsWith s ''filter'' then Some (''filter'', drop 6 s)
      else if startsWith s ''all'' then Some (''all'', drop 3 s)
      else if startsWith s ''any'' then Some (''any'', drop 3 s)
      else None)"

text \<open>\<^verbatim>\<open>^(filter|all|any)\s*\(\s*([a-zA-Z_][a-zA-Z0-9_]*)\s*,\s*\{\<close>, the part that the two
  regular expressions of \<^verbatim>\<open>evaluate\<close> for collection calls share: the function name, the
  collection name and what follows the brace.\<close>

definition readCollectionHead :: "string \<Rightarrow> (string \<times> string \<times> string) option" where
  "readCollectionHead expr =
     (case readCollectionFunction expr of
        None \<Rightarrow> None
      | Some (functionName, r1) \<Rightarrow>
          (case expect ''('' (skipSpaces r1) of
             None \<Rightarrow> None
           | Some r2 \<Rightarrow>
               (case readIdentifier (skipSpaces r2) of
                  None \<Rightarrow> None
                | Some (collectionName, r3) \<Rightarrow>
                    (case expect '','' (skipSpaces r3) of
                       None \<Rightarrow> None
                     | Some r4 \<Rightarrow>
                         (case expect ''{'' (skipSpaces r4) of
                            None \<Rightarrow> None
                          | Some r5 \<Rightarrow> Some (functionName, collectionName, r5))))))"

text \<open>\<^verbatim>\<open>/^(filter|all|any)\s*\(\s*[a-zA-Z_][a-zA-Z0-9_]*\s*,\s*\{@it/\<close>.\<close>

definition isCollectionCall :: "string \<Rightarrow> bool" where
  "isCollectionCall expr =
     (case readCollectionHead expr of
        None \<Rightarrow> False
      | Some (functionName, collectionName, r) \<Rightarrow> startsWith r ''@it'')"

text \<open>\<^verbatim>\<open>/^(filter|all|any)\s*\(\s*([a-zA-Z_][a-zA-Z0-9_]*)\s*,\s*\{(.+)\}\)$/\<close> with its three
  groups. The group \<^verbatim>\<open>(.+)\<close> is what stands between the brace and the \<^verbatim>\<open>})\<close> that ends
  the text: one character at least, and no line terminator.\<close>

definition matchCollectionCall :: "string \<Rightarrow> (string \<times> string \<times> string) option" where
  "matchCollectionCall expr =
     (case readCollectionHead expr of
        None \<Rightarrow> None
      | Some (functionName, collectionName, r) \<Rightarrow>
          (let predicate = take (length r - 2) r
           in if endsWith r ''})'' \<and> predicate \<noteq> [] \<and> \<not> list_ex isLineTerminator predicate
              then Some (functionName, collectionName, predicate)
              else None))"

text \<open>\<^verbatim>\<open>/^@it\s*OP\s*(\d+)$/\<close> for the comparison operator \<open>OP\<close>: the digits.\<close>

definition matchItComparison :: "string \<Rightarrow> string \<Rightarrow> string option" where
  "matchItComparison operator expr =
     (case expect ''@it'' expr of
        None \<Rightarrow> None
      | Some r1 \<Rightarrow>
          (case expect operator (skipSpaces r1) of
             None \<Rightarrow> None
           | Some r2 \<Rightarrow>
               (let ds = skipSpaces r2
                in if ds \<noteq> [] \<and> list_all isDigit ds then Some ds else None)))"

text \<open>\<^verbatim>\<open>\([^()]+\)\<close> at the start of \<open>s\<close>: the parenthesised text, parentheses included, and
  what follows it.\<close>

definition readParenthesised :: "string \<Rightarrow> (string \<times> string) option" where
  "readParenthesised s =
     (case s of
        [] \<Rightarrow> None
      | c # r \<Rightarrow>
          if c = CHR ''('' then
            (let inner = takeWhile (\<lambda>x. x \<noteq> CHR ''('' \<and> x \<noteq> CHR '')'') r
             in case drop (length inner) r of
                  [] \<Rightarrow> None
                | d # r' \<Rightarrow>
                    if d = CHR '')'' \<and> inner \<noteq> [] then Some (CHR ''('' # inner @ '')'', r') else None)
          else None)"

definition isArithmeticOperator :: "char \<Rightarrow> bool" where
  "isArithmeticOperator c = (c = CHR ''*'' \<or> c = CHR ''/'' \<or> c = CHR ''+'' \<or> c = CHR ''-'')"

text \<open>\<^verbatim>\<open>\s*.+$\<close>: white space, then one character at least and no line terminator up to
  the end of the text. Here the white space and the \<^verbatim>\<open>.+\<close> overlap, and the regular
  expression matches when some division of the text does: the longest end of the text free
  of line terminators is not empty, and all before it is white space.\<close>

definition matchesOperand :: "string \<Rightarrow> bool" where
  "matchesOperand s =
     (let tail = rev (takeWhile (\<lambda>x. \<not> isLineTerminator x) (rev s))
      in tail \<noteq> [] \<and> list_all isWhiteSpace (take (length s - length tail) s))"

text \<open>\<^verbatim>\<open>/^\([^()]+\)\s*[\*\/\+\-]\s*.+$/\<close>.\<close>

definition isParenArithmetic :: "string \<Rightarrow> bool" where
  "isParenArithmetic expr =
     (case readParenthesised expr of
        None \<Rightarrow> False
      | Some (left, r1) \<Rightarrow>
          (case skipSpaces r1 of
             [] \<Rightarrow> False
           | c # r2 \<Rightarrow> isArithmeticOperator c \<and> matchesOperand r2))"

text \<open>\<^verbatim>\<open>s.search(/[\*\/\+\-]/)\<close>: the position of the first operator character, or \<open>-1\<close>.\<close>

fun searchOperatorAux :: "string \<Rightarrow> int \<Rightarrow> int" where
  "searchOperatorAux [] k = - 1"
| "searchOperatorAux (c # cs) k = (if isArithmeticOperator c then k else searchOperatorAux cs (k + 1))"

definition searchOperator :: "string \<Rightarrow> int" where
  "searchOperator s = searchOperatorAux s 0"

text \<open>\<^verbatim>\<open>/^(\([^()]+\))\s*(\&\&|\|\|)\s*(\([^()]+\))$/\<close> with its three groups.\<close>

definition matchParenLogical :: "string \<Rightarrow> (string \<times> string \<times> string) option" where
  "matchParenLogical expr =
     (case readParenthesised expr of
        None \<Rightarrow> None
      | Some (left, r1) \<Rightarrow>
          (let r2 = skipSpaces r1;
               operator = take 2 r2
           in if operator = ''&&'' \<or> operator = ''||'' then
                (case readParenthesised (skipSpaces (drop 2 r2)) of
                   Some (right, []) \<Rightarrow> Some (left, operator, right)
                 | _ \<Rightarrow> None)
              else None))"

text \<open>\<^verbatim>\<open>/^([a-zA-Z_][a-zA-Z0-9_]*)\[(\d+)\]$/\<close> with its two groups.\<close>

definition matchArrayAccess :: "string \<Rightarrow> (string \<times> string) option" where
  "matchArrayAccess expr =
     (case readIdentifier expr of
        None \<Rightarrow> None
      | Some (varName, r1) \<Rightarrow>
          (case expect ''['' r1 of
             None \<Rightarrow> None
           | Some r2 \<Rightarrow>
               (let ds = takeWhile isDigit r2
                in if ds \<noteq> [] \<and> drop (length ds) r2 = '']'' then Some (varName, ds) else None)))"

subsection \<open>The session: environment, errors, actions\<close>

text \<open>The state of an \<^verbatim>\<open>ExpressionLanguageParser\<close>: the object \<^verbatim>\<open>this.environment\<close>, and
  the identity that the next new array gets.\<close>

record session =
  environment :: "string \<rightharpoonup> val"
  nextId :: nat

text \<open>The constructor: \<^verbatim>\<open>this.environment = { myCollection: [1, 2, 3] }\<close>.\<close>

definition newSession :: session where
  "newSession =
     \<lparr>environment = [''myCollection'' \<mapsto> Arr 0 [Num (Fin 1), Num (Fin 2), Num (Fin 3)]],
      nextId = 1\<rparr>"

text \<open>What can end an evaluation other than a value: an \<^verbatim>\<open>Error\<close> thrown with a message;
  a behaviour of the JavaScript runtime that this model leaves out (named by the text);
  the fuel of the model used up.\<close>

datatype error = Thrown string | Unmodelled string | OutOfFuel

type_synonym 'a result = "(error + 'a) \<times> session"

type_synonym 'a action = "session \<Rightarrow> 'a result"

type_synonym evaluator = "string \<Rightarrow> val action"

definition ret :: "'a \<Rightarrow> 'a action" where
  "ret v s = (Inr v, s)"

definition throw :: "string \<Rightarrow> 'a action" where
  "throw message s = (Inl (Thrown message), s)"

definition unmodelled :: "string \<Rightarrow> 'a action" where
  "unmodelled what s = (Inl (Unmodelled what), s)"

text \<open>The result of an operator of JavaScript, where the model has it.\<close>

definition computed :: "'a option \<Rightarrow> 'a action" where
  "computed r = (case r of Some v \<Rightarrow> ret v | None \<Rightarrow> unmodelled ''number'')"

text \<open>One statement after another: an error of the first ends both.\<close>

definition andThen :: "'a action \<Rightarrow> ('a \<Rightarrow> 'b action) \<Rightarrow> 'b action" where
  "andThen m f s = (case m s of (Inl e, s') \<Rightarrow> (Inl e, s') | (Inr v, s') \<Rightarrow> f v s')"

text \<open>The names that \<^verbatim>\<open>name in this.environment\<close> finds although they were never
  assigned: the environment is a plain object and inherits them from
  \<^verbatim>\<open>Object.prototype\<close>. Their values are functions (for \<^verbatim>\<open>__proto__\<close>, an object),
  never arrays; the model does not compute with them.\<close>

definition objectPrototypeKeys :: "string list" where
  "objectPrototypeKeys =
     [''constructor'', ''__defineGetter__'', ''__defineSetter__'', ''hasOwnProperty'',
      ''__lookupGetter__'', ''__lookupSetter__'', ''isPrototypeOf'', ''propertyIsEnumerable'',
      ''toString'', ''valueOf'', ''__proto__'', ''toLocaleString'']"

text \<open>\<^verbatim>\<open>name in this.environment\<close>.\<close>

definition inEnvironment :: "string \<Rightarrow> session \<Rightarrow> bool" where
  "inEnvironment name s = (environment s name \<noteq> None \<or> name \<in> set objectPrototypeKeys)"

text \<open>\<^verbatim>\<open>this.environment[name] = value\<close>. An assignment to \<^verbatim>\<open>__proto__\<close> replaces the
  prototype of the environment instead of binding a name, which is not modelled.\<close>

definition assign :: "string \<Rightarrow> val \<Rightarrow> unit action" where
  "assign name v s =
     (if name = ''__proto__'' then unmodelled ''assignment to __proto__'' s
      else (Inr (), s\<lparr>environment := (environment s)(name \<mapsto> v)\<rparr>))"

text \<open>\<^verbatim>\<open>this.environment['@it'] = item\<close> and \<^verbatim>\<open>delete this.environment['@it']\<close>.\<close>

definition setIt :: "val \<Rightarrow> unit action" where
  "setIt item s = (Inr (), s\<lparr>environment := (environment s)(''@it'' \<mapsto> item)\<rparr>)"

definition deleteIt :: "unit action" where
  "deleteIt s = (Inr (), s\<lparr>environment := (environment s)(''@it'' := None)\<rparr>)"

text \<open>\<^verbatim>\<open>try { m } finally { delete this.environment['@it'] }\<close>: the binding is deleted
  whether \<open>m\<close> returns or throws.\<close>

definition finallyDeleteIt :: "'a action \<Rightarrow> 'a action" where
  "finallyDeleteIt m s = (case m s of (r, s') \<Rightarrow> (r, snd (deleteIt s')))"

text \<open>A new array: it gets the next identity.\<close>

definition newArray :: "val list \<Rightarrow> val action" where
  "newArray items s = (Inr (Arr (nextId s) items), s\<lparr>nextId := Suc (nextId s)\<rparr>)"

text \<open>\<^verbatim>\<open>items.map(f)\<close> for a callback that reads and writes the session and may throw.\<close>

fun mapItems :: "('a \<Rightarrow> 'b action) \<Rightarrow> 'a list \<Rightarrow> 'b list action" where
  "mapItems f [] = ret []"
| "mapItems f (item # items) =
     andThen (f item) (\<lambda>v. andThen (mapItems f items) (\<lambda>vs. ret (v # vs)))"

text \<open>\<^verbatim>\<open>items.filter(f)\<close>, \<^verbatim>\<open>items.every(f)\<close> and \<^verbatim>\<open>items.some(f)\<close> for such a callback:
  \<^verbatim>\<open>filter\<close> calls it on every item, \<^verbatim>\<open>every\<close> stops at the first result that is not
  truthy, \<^verbatim>\<open>some\<close> at the first that is.\<close>

fun filterItems :: "(val \<Rightarrow> val action) \<Rightarrow> val list \<Rightarrow> val list action" where
  "filterItems f [] = ret []"
| "filterItems f (item # items) =
     andThen (f item) (\<lambda>r. andThen (filterItems f items)
       (\<lambda>kept. ret (if truthy r then item # kept else kept)))"

fun everyItem :: "(val \<Rightarrow> val action) \<Rightarrow> val list \<Rightarrow> bool action" where
  "everyItem f [] = ret True"
| "everyItem f (item # items) =
     andThen (f item) (\<lambda>r. if truthy r then everyItem f items else ret False)"

fun someItem :: "(val \<Rightarrow> val action) \<Rightarrow> val list \<Rightarrow> bool action" where
  "someItem f [] = ret False"
| "someItem f (item # items) =
     andThen (f item) (\<lambda>r. if truthy r then ret True else someItem f items)"

text \<open>The three collection functions on an array, given the callback.\<close>

definition applyCollectionFunction ::
    "string \<Rightarrow> (val \<Rightarrow> val action) \<Rightarrow> val list \<Rightarrow> val action" where
  "applyCollectionFunction functionName f items =
     (if functionName = ''filter'' then andThen (filterItems f items) newArray
      else if functionName = ''all'' then andThen (everyItem f items) (\<lambda>b. ret (Bool b))
      else andThen (someItem f items) (\<lambda>b. ret (Bool b)))"

subsection \<open>\<^verbatim>\<open>_splitExpression\<close>\<close>

text \<open>The bookkeeping of the three scanning loops of the source for one character \<open>c\<close>:
  a quote character that no backslash precedes opens a string, or closes the string that
  the same character opened. \<open>prev\<close> is the character before \<open>c\<close>, \<open>None\<close> at position
  \<open>0\<close>; the pair is \<^verbatim>\<open>inString\<close> and \<^verbatim>\<open>stringChar\<close>.\<close>

definition updateString :: "char \<Rightarrow> char option \<Rightarrow> bool \<times> string \<Rightarrow> bool \<times> string" where
  "updateString c prev q =
     (if (c = CHR 0x22 \<or> c = CHR 0x27) \<and> prev \<noteq> Some (CHR 0x5C) then
        (if \<not> fst q then (True, [c])
         else if [c] = snd q then (False, snd q)
         else q)
      else q)"

text \<open>\<^verbatim>\<open>parenDepth\<close> after the character \<open>c\<close>, outside strings.\<close>

definition updateDepth :: "char \<Rightarrow> bool \<Rightarrow> int \<Rightarrow> int" where
  "updateDepth c inString parenDepth =
     (if \<not> inString then
        (if c = CHR ''('' then parenDepth + 1
         else if c = CHR '')'' then parenDepth - 1
         else parenDepth)
      else parenDepth)"

text \<open>The main loop of \<^verbatim>\<open>_splitExpression\<close>, at position \<open>i\<close> with \<open>rest\<close> the text from
  there on: the two sides of the first occurrence of the operator that is outside strings
  and at parenthesis depth \<open>0\<close>.\<close>

fun splitScan ::
    "string \<Rightarrow> string \<Rightarrow> string \<Rightarrow> int \<Rightarrow> char option \<Rightarrow> bool \<times> string \<Rightarrow> int \<Rightarrow> (string \<times> string) option" where
  "splitScan operator expr [] i prev q parenDepth = None"
| "splitScan operator expr (c # cs) i prev q parenDepth =
     (let q' = updateString c prev q;
          parenDepth' = updateDepth c (fst q') parenDepth
      in if \<not> fst q' \<and> parenDepth' = 0 \<and> startsWith (c # cs) operator
         then Some (trim (substring expr 0 i), trim (substringFrom expr (i + int (length operator))))
         else splitScan operator expr cs (i + 1) (Some c) q' parenDepth')"

definition operatorNotFound :: "string \<Rightarrow> string \<Rightarrow> string" where
  "operatorNotFound operator expr =
     ''Operator '' @ [CHR 0x27] @ operator @ [CHR 0x27] @ '' not found in expression: '' @ expr"

definition splitExpression :: "string \<Rightarrow> string \<Rightarrow> error + (string \<times> string)" where
  "splitExpression expr operator =
     (case (if operator = ''*'' \<and> includesStr expr ''('' \<and> includesStr expr '')'' then
              (let parenCloseIndex = lastIndexOf expr '')'';
                   multIndex = indexOfFrom expr ''*'' parenCloseIndex
               in if multIndex > 0
                  then Some (trim (substring expr 0 multIndex), trim (substringFrom expr (multIndex + 1)))
                  else None)
            else None) of
        Some parts \<Rightarrow> Inr parts
      | None \<Rightarrow>
          (case splitScan operator expr expr 0 None (False, []) 0 of
             Some parts \<Rightarrow> Inr parts
           | None \<Rightarrow>
               (case (if operator = ''&&'' \<or> operator = ''||'' then
                        (case split expr operator of
                           [a, b] \<Rightarrow> Some (trim a, trim b)
                         | _ \<Rightarrow> None)
                      else None) of
                  Some parts \<Rightarrow> Inr parts
                | None \<Rightarrow> Inl (Thrown (operatorNotFound operator expr)))))"

subsection \<open>\<^verbatim>\<open>_parseArguments\<close> and \<^verbatim>\<open>_evaluateFunctionCall\<close>\<close>

text \<open>The functions of this subsection and the next take the evaluator \<open>ev\<close> that they
  call for \<^verbatim>\<open>this._evaluateExpression\<close>.\<close>

text \<open>The loop of \<^verbatim>\<open>_parseArguments\<close> over the characters of the argument text: at a
  comma outside strings and parentheses the argument read so far is evaluated.\<close>

fun scanArguments ::
    "evaluator \<Rightarrow> string \<Rightarrow> char option \<Rightarrow> val list \<Rightarrow> string \<Rightarrow> bool \<times> string \<Rightarrow> int
       \<Rightarrow> (val list \<times> string) action" where
  "scanArguments ev [] prev args currentArg q parenDepth = ret (args, currentArg)"
| "scanArguments ev (c # cs) prev args currentArg q parenDepth =
     (let q' = updateString c prev q;
          parenDepth' = updateDepth c (fst q') parenDepth
      in if c = CHR '','' \<and> \<not> fst q' \<and> parenDepth' = 0 then
           andThen (ev (trim currentArg))
             (\<lambda>v. scanArguments ev cs (Some c) (args @ [v]) [] q' parenDepth')
         else scanArguments ev cs (Some c) args (currentArg @ [c]) q' parenDepth')"

definition parseArguments :: "evaluator \<Rightarrow> string \<Rightarrow> val list action" where
  "parseArguments ev argsString =
     (if includesStr argsString ''{@it'' then
        (let commaIndex = indexOf argsString '','' in
         if commaIndex = - 1 then throw ''Invalid function arguments''
         else
           (let firstArg = trim (substring argsString 0 commaIndex);
                predicateExpr = trim (substringFrom argsString (commaIndex + 1))
            in if \<not> startsWith predicateExpr ''{'' \<or> \<not> endsWith predicateExpr ''}''
               then throw ''Predicate must be enclosed in {}''
               else
                 (let predicate = trim (substring predicateExpr 1 (int (length predicateExpr) - 1))
                  in andThen (ev firstArg) (\<lambda>firstArgValue. ret [firstArgValue, Obj predicate]))))
      else
        andThen (scanArguments ev argsString None [] [] (False, []) 0)
          (\<lambda>(args, currentArg).
             if trim currentArg \<noteq> [] then andThen (ev (trim currentArg)) (\<lambda>v. ret (args @ [v]))
             else ret args))"

text \<open>The loop of \<^verbatim>\<open>_evaluateFunctionCall\<close> that looks for the closing parenthesis: the
  position where it breaks, \<open>None\<close> when it runs to the end of the text.\<close>

fun findCloseParen ::
    "string \<Rightarrow> int \<Rightarrow> char option \<Rightarrow> bool \<times> string \<Rightarrow> nat \<Rightarrow> int option" where
  "findCloseParen [] i prev q parenDepth = None"
| "findCloseParen (c # cs) i prev q parenDepth =
     (let q' = updateString c prev q
      in if \<not> fst q' then
           (if c = CHR ''('' then findCloseParen cs (i + 1) (Some c) q' (parenDepth + 1)
            else if c = CHR '')'' then
              (if parenDepth = 0 then Some i
               else findCloseParen cs (i + 1) (Some c) q' (parenDepth - 1))
            else findCloseParen cs (i + 1) (Some c) q' parenDepth)
         else findCloseParen cs (i + 1) (Some c) q' parenDepth)"

text \<open>The branch of \<^verbatim>\<open>_evaluateFunctionCall\<close> for \<^verbatim>\<open>filter\<close>, \<^verbatim>\<open>all\<close> and \<^verbatim>\<open>any\<close>
  (\<open>functionName\<close> is one of the three). The callback binds \<^verbatim>\<open>@it\<close> in the environment
  and deletes it in a \<^verbatim>\<open>finally\<close> block.\<close>

definition collectionCall :: "evaluator \<Rightarrow> string \<Rightarrow> string \<Rightarrow> val action" where
  "collectionCall ev functionName argsString =
     (let commaIndex = indexOf argsString '','' in
      if commaIndex = - 1 then throw (functionName @ ''() requires two arguments'')
      else
        (let collectionExpr = trim (substring argsString 0 commaIndex);
             predicateExpr = trim (substringFrom argsString (commaIndex + 1))
         in if \<not> startsWith predicateExpr ''{'' \<or> \<not> endsWith predicateExpr ''}''
            then throw (functionName @ ''() predicate must be enclosed in {}'')
            else
              (let predicate = trim (substring predicateExpr 1 (int (length predicateExpr) - 1))
               in andThen (ev collectionExpr)
                    (\<lambda>collection.
                       case collection of
                         Arr i items \<Rightarrow>
                           applyCollectionFunction functionName
                             (\<lambda>item. andThen (setIt item) (\<lambda>u. finallyDeleteIt (ev predicate)))
                             items
                       | _ \<Rightarrow> throw (functionName @ ''() first argument must be an array'')))))"

text \<open>The cases of the \<^verbatim>\<open>switch\<close> of \<^verbatim>\<open>_evaluateFunctionCall\<close> over the function
  name, each on the list of the argument values.\<close>

definition lenFunction :: "val list \<Rightarrow> val action" where
  "lenFunction args =
     (case args of
        [a] \<Rightarrow>
          (case a of
             Str x \<Rightarrow> ret (Num (Fin (of_nat (length x))))
           | Arr i xs \<Rightarrow> ret (Num (Fin (of_nat (length xs))))
           | _ \<Rightarrow> throw ''len() argument must be a string or array'')
      | _ \<Rightarrow> throw ''len() requires exactly one argument'')"

definition containsFunction :: "val list \<Rightarrow> val action" where
  "containsFunction args =
     (case args of
        [a, b] \<Rightarrow>
          if isString a \<and> isString b then ret (Bool (includesStr (stringOf a) (stringOf b)))
          else
            (case a of
               Arr i xs \<Rightarrow> ret (Bool (list_ex (\<lambda>x. sameValueZero x b) xs))
             | _ \<Rightarrow> throw ''contains() first argument must be a string or array'')
      | _ \<Rightarrow> throw ''contains() requires exactly two arguments'')"

definition startsWithFunction :: "val list \<Rightarrow> val action" where
  "startsWithFunction args =
     (case args of
        [a, b] \<Rightarrow>
          if isString a \<and> isString b then ret (Bool (startsWith (stringOf a) (stringOf b)))
          else throw ''startsWith() arguments must be strings''
      | _ \<Rightarrow> throw ''startsWith() requires exactly two arguments'')"

definition endsWithFunction :: "val list \<Rightarrow> val action" where
  "endsWithFunction args =
     (case args of
        [a, b] \<Rightarrow>
          if isString a \<and> isString b then ret (Bool (endsWith (stringOf a) (stringOf b)))
          else throw ''endsWith() arguments must be strings''
      | _ \<Rightarrow> throw ''endsWith() requires exactly two arguments'')"

definition substringFunction :: "val list \<Rightarrow> val action" where
  "substringFunction args =
     (case args of
        [a, b, c] \<Rightarrow>
          if isString a \<and> isNumber b \<and> isNumber c then
            ret (Str (substring (stringOf a)
                   (int (clampIndex (numberOf b) (length (stringOf a))))
                   (int (clampIndex (numberOf c) (length (stringOf a))))))
          else throw ''substring() invalid arguments''
      | _ \<Rightarrow> throw ''substring() requires exactly three arguments'')"

definition isEmptyFunction :: "val list \<Rightarrow> val action" where
  "isEmptyFunction args =
     (case args of
        [a] \<Rightarrow>
          (case a of
             Str x \<Rightarrow> ret (Bool (length x = 0))
           | Arr i xs \<Rightarrow> ret (Bool (length xs = 0))
           | _ \<Rightarrow> throw ''isEmpty() argument must be a string or array'')
      | _ \<Rightarrow> throw ''isEmpty() requires exactly one argument'')"

text \<open>The regular expression that \<^verbatim>\<open>matches\<close> builds from its second argument is not
  modelled.\<close>

definition matchesFunction :: "val list \<Rightarrow> val action" where
  "matchesFunction args =
     (case args of
        [a, b] \<Rightarrow>
          if isString a \<and> isString b then unmodelled ''RegExp''
          else throw ''matches() arguments must be strings''
      | _ \<Rightarrow> throw ''matches() requires exactly two arguments'')"

definition applyFunction :: "string \<Rightarrow> val list \<Rightarrow> val action" where
  "applyFunction functionName args =
     (if functionName = ''len'' then lenFunction args
      else if functionName = ''contains'' then containsFunction args
      else if functionName = ''startsWith'' then startsWithFunction args
      else if functionName = ''endsWith'' then endsWithFunction args
      else if functionName = ''substring'' then substringFunction args
      else if functionName = ''isEmpty'' then isEmptyFunction args
      else if functionName = ''matches'' then matchesFunction args
      else throw (''Unknown function: '' @ functionName))"

definition evaluateFunctionCall :: "evaluator \<Rightarrow> string \<Rightarrow> val action" where
  "evaluateFunctionCall ev expr =
     (let openParenIndex = indexOf expr ''('';
          functionName = trim (substring expr 0 openParenIndex);
          closeParenIndex =
            (case findCloseParen (drop (nat (openParenIndex + 1)) expr) (openParenIndex + 1)
                    (if openParenIndex + 1 = 0 then None else Some (CHR ''('')) (False, []) 0 of
               Some i \<Rightarrow> i
             | None \<Rightarrow> int (length expr) - 1);
          argsString = trim (substring expr (openParenIndex + 1) closeParenIndex)
      in if functionName \<in> set [''filter'', ''all'', ''any''] \<and> includesStr argsString ''{@it''
         then collectionCall ev functionName argsString
         else andThen (if argsString = [] then ret [] else parseArguments ev argsString)
                (applyFunction functionName))"

subsection \<open>\<^verbatim>\<open>_evaluateExpression\<close>\<close>

text \<open>The message of the \<^verbatim>\<open>TypeError\<close> that reading the property \<open>p\<close> of \<^verbatim>\<open>undefined\<close>
  throws (the wording is that of V8).\<close>

definition typeErrorUndefined :: "string \<Rightarrow> string" where
  "typeErrorUndefined p =
     ''Cannot read properties of undefined (reading '' @ [CHR 0x27] @ p @ [CHR 0x27] @ '')''"

definition itUnavailable :: string where
  "itUnavailable = ''Variable @it is only available within collection function predicates''"

definition notDefined :: "string \<Rightarrow> string" where
  "notDefined name = ''Variable '' @ [CHR 0x27] @ name @ [CHR 0x27] @ '' is not defined''"

definition notAnArray :: "string \<Rightarrow> string" where
  "notAnArray name = ''Variable '' @ [CHR 0x27] @ name @ [CHR 0x27] @ '' is not an array''"

text \<open>Two operands evaluated from left to right, and an operator of JavaScript applied
  to their values.\<close>

definition binary ::
    "evaluator \<Rightarrow> string \<Rightarrow> string \<Rightarrow> (val \<Rightarrow> val \<Rightarrow> val option) \<Rightarrow> val action" where
  "binary ev left right f = andThen (ev left) (\<lambda>l. andThen (ev right) (\<lambda>r. computed (f l r)))"

text \<open>\<^verbatim>\<open>_splitExpression\<close> at an operator, then \<open>k\<close> on the two sides.\<close>

definition splitAt :: "string \<Rightarrow> string \<Rightarrow> (string \<Rightarrow> string \<Rightarrow> val action) \<Rightarrow> val action" where
  "splitAt expr operator k s =
     (case splitExpression expr operator of
        Inl e \<Rightarrow> (Inl e, s)
      | Inr (left, right) \<Rightarrow> k left right s)"

text \<open>The six regular expressions for \<^verbatim>\<open>@it OP number\<close>, in the order of the source,
  with the value of \<^verbatim>\<open>@it\<close>: the boolean of the first that matches, computed from the
  number that \<^verbatim>\<open>parseFloat\<close> reads from the digits \<open>ds\<close>.\<close>

definition withNumber :: "string \<Rightarrow> (number \<Rightarrow> bool option) \<Rightarrow> val option" where
  "withNumber ds f = (case parseFloat ds of None \<Rightarrow> None | Some n \<Rightarrow> map_option Bool (f n))"

definition itComparison :: "val \<Rightarrow> string \<Rightarrow> val option option" where
  "itComparison itValue expr =
     (case matchItComparison ''>'' expr of
        Some ds \<Rightarrow> Some (withNumber ds (\<lambda>n. jsGt itValue (Num n)))
      | None \<Rightarrow>
     (case matchItComparison ''<'' expr of
        Some ds \<Rightarrow> Some (withNumber ds (\<lambda>n. jsLt itValue (Num n)))
      | None \<Rightarrow>
     (case matchItComparison ''>='' expr of
        Some ds \<Rightarrow> Some (withNumber ds (\<lambda>n. jsGe itValue (Num n)))
      | None \<Rightarrow>
     (case matchItComparison ''<='' expr of
        Some ds \<Rightarrow> Some (withNumber ds (\<lambda>n. jsLe itValue (Num n)))
      | None \<Rightarrow>
     (case matchItComparison ''=='' expr of
        Some ds \<Rightarrow> Some (withNumber ds (\<lambda>n. looseEqualsNumber itValue n))
      | None \<Rightarrow>
     (case matchItComparison ''!='' expr of
        Some ds \<Rightarrow> Some (withNumber ds (\<lambda>n. map_option Not (looseEqualsNumber itValue n)))
      | None \<Rightarrow> None))))))"

text \<open>Each block of \<^verbatim>\<open>_evaluateExpression\<close> that may return is a function to an optional
  action: \<open>None\<close> when the source goes on to the next block.\<close>

text \<open>Lines 143 to 202: \<^verbatim>\<open>@it\<close> itself, and a text that contains \<^verbatim>\<open>@it\<close>.\<close>

definition itBlock :: "string \<Rightarrow> session \<Rightarrow> val action option" where
  "itBlock expr s =
     (if expr = ''@it'' then
        (case environment s ''@it'' of
           Some itValue \<Rightarrow> Some (ret itValue)
         | None \<Rightarrow> Some (throw itUnavailable))
      else if includesStr expr ''@it'' then
        (case environment s ''@it'' of
           Some itValue \<Rightarrow>
             (case itComparison itValue expr of
                Some b \<Rightarrow> Some (computed b)
              | None \<Rightarrow> None)
         | None \<Rightarrow> Some (throw itUnavailable))
      else None)"

text \<open>Lines 216 to 236: a parenthesised operand, an arithmetic operator and the rest. The
  operator is the first operator character after the first closing parenthesis.\<close>

definition parenArithmetic :: "evaluator \<Rightarrow> string \<Rightarrow> val action option" where
  "parenArithmetic ev expr =
     (if isParenArithmetic expr then
        (let closingParenIndex = indexOf expr '')'';
             operatorIndex = searchOperator (substringFrom expr closingParenIndex)
         in if operatorIndex \<noteq> - 1 then
              (let operator = trim (charAt (substringFrom expr closingParenIndex) operatorIndex);
                   leftExpr = substring expr 0 (closingParenIndex + 1);
                   rightExpr = substringFrom expr (closingParenIndex + operatorIndex + 1)
               in Some (andThen (ev leftExpr) (\<lambda>leftValue. andThen (ev rightExpr) (\<lambda>rightValue.
                    if operator = ''*'' then computed (jsMul leftValue rightValue)
                    else if operator = ''/'' then computed (jsDiv leftValue rightValue)
                    else if operator = ''+'' then computed (jsAdd leftValue rightValue)
                    else if operator = ''-'' then computed (jsSub leftValue rightValue)
                    else throw (''Unknown operator: '' @ operator)))))
            else None)
      else None)"

text \<open>Lines 239 to 256: two parenthesised operands around \<^verbatim>\<open>&&\<close> or \<^verbatim>\<open>||\<close>.\<close>

definition parenLogical :: "evaluator \<Rightarrow> string \<Rightarrow> val action option" where
  "parenLogical ev expr =
     (case matchParenLogical expr of
        None \<Rightarrow> None
      | Some (leftExpr, operator, rightExpr) \<Rightarrow>
          Some (andThen (ev leftExpr) (\<lambda>leftValue.
            if operator = ''&&'' \<and> \<not> truthy leftValue then ret (Bool False)
            else if operator = ''||'' \<and> truthy leftValue then ret (Bool True)
            else andThen (ev rightExpr) (\<lambda>rightValue.
              ret (if operator = ''&&'' then (if truthy leftValue then rightValue else leftValue)
                   else (if truthy leftValue then leftValue else rightValue))))))"

text \<open>Lines 280 to 300: \<^verbatim>\<open>name[index]\<close>. An index above \<open>2 ^ 53\<close> is a rounded double,
  whose text in the message the model does not have.\<close>

definition arrayAccess :: "string \<Rightarrow> val action option" where
  "arrayAccess expr =
     (case matchArrayAccess expr of
        None \<Rightarrow> None
      | Some (varName, ds) \<Rightarrow>
          Some (\<lambda>s.
            if \<not> inEnvironment varName s then throw (notDefined varName) s
            else
              (case environment s varName of
                 Some (Arr i items) \<Rightarrow>
                   if parseInt ds \<ge> length items
                   then (if int (parseInt ds) \<le> 9007199254740992
                         then throw (''Index out of bounds: '' @ digitsOfNat (parseInt ds)) s
                         else unmodelled ''number'' s)
                   else ret (items ! parseInt ds) s
               | _ \<Rightarrow> throw (notAnArray varName) s)))"

text \<open>Lines 307 to 348: the comparisons, looked for as substrings in this order.\<close>

definition comparisons :: "evaluator \<Rightarrow> string \<Rightarrow> val action option" where
  "comparisons ev expr =
     (if includesStr expr ''=='' then
        Some (splitAt expr ''=='' (\<lambda>l r. binary ev l r (\<lambda>a b. Some (Bool (strictEquals a b)))))
      else if includesStr expr ''!='' then
        Some (splitAt expr ''!='' (\<lambda>l r. binary ev l r (\<lambda>a b. Some (Bool (\<not> strictEquals a b)))))
      else if includesStr expr ''>='' then
        Some (splitAt expr ''>='' (\<lambda>l r. binary ev l r (\<lambda>a b. map_option Bool (jsGe a b))))
      else if includesStr expr ''<='' then
        Some (splitAt expr ''<='' (\<lambda>l r. binary ev l r (\<lambda>a b. map_option Bool (jsLe a b))))
      else if includesStr expr ''>'' then
        Some (splitAt expr ''>'' (\<lambda>l r. binary ev l r (\<lambda>a b. map_option Bool (jsGt a b))))
      else if includesStr expr ''<'' then
        Some (splitAt expr ''<'' (\<lambda>l r. binary ev l r (\<lambda>a b. map_option Bool (jsLt a b))))
      else None)"

text \<open>Lines 350 to 375: the arithmetic operators, looked for as substrings in this order.
  For \<^verbatim>\<open>/\<close> the right operand is evaluated first and compared with \<open>0\<close>.\<close>

definition arithmetic :: "evaluator \<Rightarrow> string \<Rightarrow> val action option" where
  "arithmetic ev expr =
     (if includesStr expr ''+'' then
        Some (splitAt expr ''+'' (\<lambda>l r. binary ev l r jsAdd))
      else if includesStr expr ''-'' \<and> \<not> startsWith expr ''-'' then
        Some (splitAt expr ''-'' (\<lambda>l r. binary ev l r jsSub))
      else if includesStr expr ''*'' then
        Some (splitAt expr ''*'' (\<lambda>l r. binary ev l r jsMul))
      else if includesStr expr ''/'' then
        Some (splitAt expr ''/'' (\<lambda>l r.
          andThen (ev r) (\<lambda>rightValue.
            if strictEquals rightValue (Num (Fin 0)) then throw ''Division by zero''
            else andThen (ev l) (\<lambda>leftValue. computed (jsDiv leftValue rightValue)))))
      else None)"

text \<open>Lines 377 to 391: \<^verbatim>\<open>&&\<close>, \<^verbatim>\<open>||\<close> and the negations. The operators of JavaScript
  give back one of the operands, and do not evaluate the right one when the left one
  decides.\<close>

definition logical :: "evaluator \<Rightarrow> string \<Rightarrow> val action option" where
  "logical ev expr =
     (if includesStr expr ''&&'' then
        Some (splitAt expr ''&&'' (\<lambda>l r.
          andThen (ev l) (\<lambda>leftValue. if truthy leftValue then ev r else ret leftValue)))
      else if includesStr expr ''||'' then
        Some (splitAt expr ''||'' (\<lambda>l r.
          andThen (ev l) (\<lambda>leftValue. if truthy leftValue then ret leftValue else ev r)))
      else if startsWith expr ''!'' \<or> startsWith expr ''not '' then
        (let operand = (if startsWith expr ''!'' then substringFrom expr 1 else substringFrom expr 4)
         in Some (andThen (ev operand) (\<lambda>v. ret (Bool (\<not> truthy v)))))
      else None)"

text \<open>Lines 393 to 407: a number, read by \<^verbatim>\<open>parseFloat\<close>; a variable; or the error. A name
  that only \<^verbatim>\<open>Object.prototype\<close> defines has a value that is not modelled.\<close>

definition atom :: "string \<Rightarrow> val action" where
  "atom expr s =
     (case parseFloat expr of
        None \<Rightarrow> unmodelled ''number'' s
      | Some n \<Rightarrow>
          if n \<noteq> NaN then ret (Num n) s
          else if isIdentifier expr then
            (if inEnvironment expr s then
               (case environment s expr of
                  Some v \<Rightarrow> ret v s
                | None \<Rightarrow> unmodelled ''property of Object.prototype'' s)
             else throw (notDefined expr) s)
          else throw (''Unknown expression: '' @ expr) s)"

text \<open>Lines 259 to 305: a text in parentheses, a string literal, an array literal, an
  array access, a function call.\<close>

definition primary :: "evaluator \<Rightarrow> string \<Rightarrow> val action option" where
  "primary ev expr =
     (if startsWith expr ''('' \<and> endsWith expr '')'' then
        Some (ev (substring expr 1 (int (length expr) - 1)))
      else if (startsWith expr [CHR 0x22] \<and> endsWith expr [CHR 0x22]) \<or>
              (startsWith expr [CHR 0x27] \<and> endsWith expr [CHR 0x27]) then
        Some (ret (Str (substring expr 1 (int (length expr) - 1))))
      else if startsWith expr ''['' \<and> endsWith expr '']'' then
        (let content = trim (substring expr 1 (int (length expr) - 1))
         in if content = [] then Some (newArray [])
            else Some (andThen (mapItems (\<lambda>item. ev (trim item)) (split content '','')) newArray))
      else
        (case arrayAccess expr of
           Some act \<Rightarrow> Some act
         | None \<Rightarrow>
             if includesStr expr ''('' \<and> endsWith expr '')'' then Some (evaluateFunctionCall ev expr)
             else None))"

text \<open>One call of \<^verbatim>\<open>_evaluateExpression\<close>, with \<open>ev\<close> for its recursive calls.\<close>

definition evaluateExpressionStep :: "evaluator \<Rightarrow> evaluator" where
  "evaluateExpressionStep ev expr0 s =
     (let expr = trim expr0 in
      if expr = [] then throw ''Empty expression'' s
      else
        (case itBlock expr s of
           Some act \<Rightarrow> act s
         | None \<Rightarrow>
             if expr = ''true'' \<or> expr = ''True'' then ret (Bool True) s
             else if expr = ''false'' \<or> expr = ''False'' then ret (Bool False) s
             else
               (case (if includesStr expr ''('' \<and> includesStr expr '')''
                      then (case parenArithmetic ev expr of
                              Some act \<Rightarrow> Some act
                            | None \<Rightarrow> parenLogical ev expr)
                      else None) of
                  Some act \<Rightarrow> act s
                | None \<Rightarrow>
                    (case primary ev expr of
                       Some act \<Rightarrow> act s
                     | None \<Rightarrow>
                         (case comparisons ev expr of
                            Some act \<Rightarrow> act s
                          | None \<Rightarrow>
                              (case arithmetic ev expr of
                                 Some act \<Rightarrow> act s
                               | None \<Rightarrow>
                                   (case logical ev expr of
                                      Some act \<Rightarrow> act s
                                    | None \<Rightarrow> atom expr s)))))))"

text \<open>The recursion of \<^verbatim>\<open>_evaluateExpression\<close>, counted down by a fuel. Every recursive
  call of the source is on a text shorter than the one at hand, so the fuel that
  \<open>evaluateExpression\<close> starts with, one more than the length of the text, is never used up
  (theorem \<open>evaluateExpression_fuel\<close> below).\<close>

fun evaluateExpressionFuel :: "nat \<Rightarrow> evaluator" where
  "evaluateExpressionFuel 0 expr s = (Inl OutOfFuel, s)"
| "evaluateExpressionFuel (Suc n) expr s = evaluateExpressionStep (evaluateExpressionFuel n) expr s"

definition evaluateExpression :: evaluator where
  "evaluateExpression expr s = evaluateExpressionFuel (Suc (length expr)) expr s"

subsection \<open>\<^verbatim>\<open>_evaluateStatement\<close>, \<^verbatim>\<open>_formatValue\<close> and \<^verbatim>\<open>evaluate\<close>\<close>

text \<open>A statement is an assignment when its text contains \<^verbatim>\<open>=\<close> and none of \<^verbatim>\<open>==\<close>,
  \<^verbatim>\<open>>=\<close>, \<^verbatim>\<open><=\<close>, \<^verbatim>\<open>!=\<close>; the name and the expression are the first two pieces of the
  text split at \<^verbatim>\<open>=\<close>.\<close>

definition isAssignment :: "string \<Rightarrow> bool" where
  "isAssignment statement =
     (includesStr statement ''='' \<and> \<not> includesStr statement ''=='' \<and>
      \<not> includesStr statement ''>='' \<and> \<not> includesStr statement ''<='' \<and>
      \<not> includesStr statement ''!='')"

definition evaluateStatement :: "string \<Rightarrow> val action" where
  "evaluateStatement statement0 =
     (let statement = trim statement0 in
      if isAssignment statement then
        (case map trim (split statement ''='') of
           varName # valueExpr # rest \<Rightarrow>
             andThen (evaluateExpression valueExpr)
               (\<lambda>v. andThen (assign varName v) (\<lambda>u. ret v))
         | _ \<Rightarrow> throw (typeErrorUndefined ''trim''))
      else evaluateExpression statement)"

fun formatValue :: "val \<Rightarrow> string option" where
  "formatValue (Bool b) = Some (if b then ''True'' else ''False'')"
| "formatValue (Str x) = Some ([CHR 0x22] @ x @ [CHR 0x22])"
| "formatValue (Arr i items) =
     map_option (\<lambda>texts. ''['' @ join '', '' texts @ '']'') (those (map formatValue items))"
| "formatValue v = toStr v"

text \<open>What \<^verbatim>\<open>evaluate\<close> returns: \<^verbatim>\<open>{ success: true, result }\<close> or
  \<^verbatim>\<open>{ success: false, error }\<close>; and, in the model, that the input led outside what is
  modelled.\<close>

datatype evalResult = Success string | Failure string | NotModelled string

text \<open>A \<^verbatim>\<open>catch\<close> block of \<^verbatim>\<open>evaluate\<close> with its prefix for the message.\<close>

definition report :: "string \<Rightarrow> val result \<Rightarrow> evalResult \<times> session" where
  "report prefix r =
     (case r of
        (Inr v, s) \<Rightarrow>
          ((case formatValue v of Some shown \<Rightarrow> Success shown | None \<Rightarrow> NotModelled ''number''), s)
      | (Inl (Thrown message), s) \<Rightarrow> (Failure (prefix @ message), s)
      | (Inl (Unmodelled what), s) \<Rightarrow> (NotModelled what, s)
      | (Inl OutOfFuel, s) \<Rightarrow> (NotModelled ''fuel'', s))"

text \<open>The loop over the statements of a sequence; \<open>previous\<close> is the variable \<^verbatim>\<open>result\<close>,
  \<open>None\<close> before the first statement. After the loop the source reads \<^verbatim>\<open>result.value\<close>,
  which throws a \<^verbatim>\<open>TypeError\<close> when there was no statement.\<close>

fun runStatements :: "string list \<Rightarrow> val option \<Rightarrow> val action" where
  "runStatements [] previous =
     (case previous of
        Some v \<Rightarrow> ret v
      | None \<Rightarrow> throw (typeErrorUndefined ''value''))"
| "runStatements (statement # statements) previous =
     andThen (evaluateStatement statement) (\<lambda>v. runStatements statements (Some v))"

text \<open>Lines 49 to 95 of \<^verbatim>\<open>evaluate\<close>: a collection call on a variable, handled before the
  general evaluation. The callback binds \<^verbatim>\<open>@it\<close>, evaluates the predicate and deletes the
  binding, without a \<^verbatim>\<open>finally\<close> block: when the predicate throws, the binding stays.\<close>

definition collectionShortcut :: "string \<Rightarrow> session \<Rightarrow> (evalResult \<times> session) option" where
  "collectionShortcut expr s =
     (if isCollectionCall expr then
        (case matchCollectionCall expr of
           None \<Rightarrow> None
         | Some (functionName, collectionName, predicate) \<Rightarrow>
             Some
               (if \<not> inEnvironment collectionName s then (Failure (notDefined collectionName), s)
                else
                  (case environment s collectionName of
                     Some (Arr i items) \<Rightarrow>
                       report (''Error evaluating '' @ functionName @ ''(): '')
                         (applyCollectionFunction functionName
                            (\<lambda>item. andThen (setIt item) (\<lambda>u.
                               andThen (evaluateExpression predicate) (\<lambda>evalResult.
                                 andThen deleteIt (\<lambda>u. ret evalResult))))
                            items s)
                   | _ \<Rightarrow> (Failure (notAnArray collectionName), s))))
      else None)"

definition evaluate :: "session \<Rightarrow> string \<Rightarrow> evalResult \<times> session" where
  "evaluate s expr =
     (if trim expr = [] then (Failure ''Expression cannot be empty'', s)
      else if isStringComparison (CHR 0x22) expr \<or> isStringComparison (CHR 0x27) expr then
        (case map trim (split expr ''=='') of
           p0 # p1 # rest \<Rightarrow>
             (Success (if substring p0 1 (int (length p0) - 1) = substring p1 1 (int (length p1) - 1)
                       then ''True'' else ''False''), s)
         | _ \<Rightarrow>
             (Failure (''Error evaluating expression: '' @ typeErrorUndefined ''substring''), s))
      else if includesStr expr '';'' then
        report ''Error evaluating expression: ''
          (runStatements (filter (\<lambda>stmt. length stmt > 0) (map trim (split expr '';''))) None s)
      else
        (case collectionShortcut expr s of
           Some r \<Rightarrow> r
         | None \<Rightarrow> report ''Error evaluating expression: '' (evaluateStatement expr s)))"

subsection \<open>What an evaluation may change\<close>

text \<open>\<open>keepsNames s s'\<close>: from the session \<open>s\<close> to \<open>s'\<close> no name but \<^verbatim>\<open>@it\<close> has changed its
  binding, and \<^verbatim>\<open>@it\<close> is bound as before or not bound at all. An action is \<open>framed\<close>
  when every run of it keeps the names, whether it returns or throws.\<close>

definition keepsNames :: "session \<Rightarrow> session \<Rightarrow> bool" where
  "keepsNames s s' =
     ((\<forall>name. name \<noteq> ''@it'' \<longrightarrow> environment s' name = environment s name) \<and>
      (environment s' ''@it'' = None \<or> environment s' ''@it'' = environment s ''@it''))"

definition framed :: "'a action \<Rightarrow> bool" where
  "framed m = (\<forall>s. keepsNames s (snd (m s)))"

definition allFramed :: "'a action option \<Rightarrow> bool" where
  "allFramed b = (case b of None \<Rightarrow> True | Some act \<Rightarrow> framed act)"

subsection \<open>The fuel\<close>

text \<open>Two evaluators agree below \<open>k\<close> when they are the same on every text shorter than
  \<open>k\<close>. An action is \<open>fuelSafe\<close> when no run of it ends because the fuel is used up.\<close>

definition agreeBelow :: "nat \<Rightarrow> evaluator \<Rightarrow> evaluator \<Rightarrow> bool" where
  "agreeBelow k ev ev' = (\<forall>e. length e < k \<longrightarrow> ev e = ev' e)"

definition fuelSafe :: "'a action \<Rightarrow> bool" where
  "fuelSafe m = (\<forall>s. fst (m s) \<noteq> Inl OutOfFuel)"

definition allFuelSafe :: "'a action option \<Rightarrow> bool" where
  "allFuelSafe b = (case b of None \<Rightarrow> True | Some act \<Rightarrow> fuelSafe act)"

subsection \<open>The kinds of values\<close>



subsection \<open>Variables and operators in a text\<close>

text \<open>A name that \<^verbatim>\<open>_evaluateExpression\<close> reads as a variable: an identifier that is not a
  boolean literal and that \<^verbatim>\<open>parseFloat\<close> does not read as a number (it reads a name that
  begins with \<^verbatim>\<open>Infinity\<close> as one); \<^verbatim>\<open>__proto__\<close> is left out because it is never bound.
  An operator that \<^verbatim>\<open>_splitExpression\<close> finds between two names separated from it by
  spaces: it begins with a character that is neither of an identifier nor white space, and
  has no quote and no parenthesis.\<close>

definition plainName :: "string \<Rightarrow> bool" where
  "plainName x =
     (isIdentifier x \<and> parseFloat x = Some NaN \<and>
      x \<notin> set [''true'', ''True'', ''false'', ''False'', ''__proto__''])"

definition plainOperator :: "string \<Rightarrow> bool" where
  "plainOperator operator =
     (operator \<noteq> [] \<and> \<not> isIdentChar (hd operator) \<and> \<not> isWhiteSpace (hd operator) \<and>
      (\<forall>c \<in> set operator. c \<notin> set [CHR 0x22, CHR 0x27, CHR ''('', CHR '')'']))"

section \<open>Properties of the model\<close>

subsection \<open>Evaluating an expression keeps the names\<close>

lemma keepsNames_refl: "keepsNames s s"
  by (simp add: keepsNames_def)

lemma keepsNames_trans: "keepsNames s s' \<Longrightarrow> keepsNames s' s'' \<Longrightarrow> keepsNames s s''"
  by (auto simp: keepsNames_def)

lemma framed_ret: "framed (ret v)"
  by (simp add: framed_def ret_def keepsNames_refl)

lemma framed_throw: "framed (throw m)"
  by (simp add: framed_def throw_def keepsNames_refl)

lemma framed_unmodelled: "framed (unmodelled m)"
  by (simp add: framed_def unmodelled_def keepsNames_refl)

lemma framed_newArray: "framed (newArray vs)"
  by (simp add: framed_def newArray_def keepsNames_def)

lemma framed_computed: "framed (computed r)"
  by (cases r) (simp_all add: computed_def framed_ret framed_unmodelled)

lemma framed_andThen:
  assumes "framed m" and "\<And>v. framed (f v)"
  shows "framed (andThen m f)"
proof -
  have "keepsNames s (snd (andThen m f s))" for s
  proof (cases "m s")
    case (Pair r s')
    have ms: "keepsNames s s'" using assms(1) Pair by (auto simp: framed_def dest: spec[of _ s])
    show ?thesis
    proof (cases r)
      case (Inl e)
      with Pair ms show ?thesis by (simp add: andThen_def)
    next
      case (Inr v)
      have "keepsNames s' (snd (f v s'))" using assms(2)[of v] by (simp add: framed_def)
      with ms have "keepsNames s (snd (f v s'))" by (rule keepsNames_trans)
      with Pair Inr show ?thesis by (simp add: andThen_def)
    qed
  qed
  then show ?thesis by (simp add: framed_def)
qed

lemma framed_callback:
  assumes "framed m"
  shows "framed (andThen (setIt item) (\<lambda>u. finallyDeleteIt m))"
proof -
  have "keepsNames s (snd (andThen (setIt item) (\<lambda>u. finallyDeleteIt m) s))" for s
  proof -
    let ?s1 = "s\<lparr>environment := (environment s)(''@it'' \<mapsto> item)\<rparr>"
    obtain r s2 where m: "m ?s1 = (r, s2)" by (cases "m ?s1")
    have k: "keepsNames ?s1 s2" using assms m by (auto simp: framed_def dest: spec[of _ ?s1])
    have "snd (andThen (setIt item) (\<lambda>u. finallyDeleteIt m) s) =
            s2\<lparr>environment := (environment s2)(''@it'' := None)\<rparr>"
      by (simp add: andThen_def setIt_def finallyDeleteIt_def deleteIt_def m)
    moreover have "keepsNames s (s2\<lparr>environment := (environment s2)(''@it'' := None)\<rparr>)"
      using k by (auto simp: keepsNames_def)
    ultimately show ?thesis by simp
  qed
  then show ?thesis by (simp add: framed_def)
qed

lemma framed_mapItems: "(\<And>x. framed (f x)) \<Longrightarrow> framed (mapItems f xs)"
  by (induction xs) (auto intro!: framed_andThen framed_ret)

lemma framed_filterItems: "(\<And>x. framed (f x)) \<Longrightarrow> framed (filterItems f xs)"
  by (induction xs) (auto intro!: framed_andThen framed_ret)

lemma framed_everyItem: "(\<And>x. framed (f x)) \<Longrightarrow> framed (everyItem f xs)"
  by (induction xs) (auto intro!: framed_andThen framed_ret)

lemma framed_someItem: "(\<And>x. framed (f x)) \<Longrightarrow> framed (someItem f xs)"
  by (induction xs) (auto intro!: framed_andThen framed_ret)

lemma framed_applyCollectionFunction:
  "(\<And>x. framed (f x)) \<Longrightarrow> framed (applyCollectionFunction functionName f items)"
  by (auto simp: applyCollectionFunction_def
      intro!: framed_andThen framed_ret framed_newArray framed_filterItems framed_everyItem framed_someItem)

lemma framed_scanArguments:
  "(\<And>e. framed (ev e)) \<Longrightarrow> framed (scanArguments ev cs prev args cur q d)"
proof (induction cs arbitrary: prev args cur q d)
  case Nil
  then show ?case by (simp add: framed_ret)
next
  case (Cons c cs)
  show ?case
    by (simp add: Let_def) (intro conjI impI framed_andThen Cons)
qed

lemma framed_parseArguments:
  "(\<And>e. framed (ev e)) \<Longrightarrow> framed (parseArguments ev argsString)"
  by (auto simp: parseArguments_def Let_def split: prod.splits
      intro!: framed_andThen framed_ret framed_throw framed_scanArguments)

lemma framed_collectionCall:
  "(\<And>e. framed (ev e)) \<Longrightarrow> framed (collectionCall ev functionName argsString)"
  by (auto simp: collectionCall_def Let_def split: val.splits
      intro!: framed_andThen framed_ret framed_throw framed_applyCollectionFunction framed_callback)

lemma framed_lenFunction: "framed (lenFunction args)"
  by (simp add: lenFunction_def framed_ret framed_throw split: list.split val.split)

lemma framed_containsFunction: "framed (containsFunction args)"
  by (simp add: containsFunction_def framed_ret framed_throw split: list.split val.split)

lemma framed_startsWithFunction: "framed (startsWithFunction args)"
  by (simp add: startsWithFunction_def framed_ret framed_throw split: list.split)

lemma framed_endsWithFunction: "framed (endsWithFunction args)"
  by (simp add: endsWithFunction_def framed_ret framed_throw split: list.split)

lemma framed_substringFunction: "framed (substringFunction args)"
  by (simp add: substringFunction_def framed_ret framed_throw split: list.split)

lemma framed_isEmptyFunction: "framed (isEmptyFunction args)"
  by (simp add: isEmptyFunction_def framed_ret framed_throw split: list.split val.split)

lemma framed_matchesFunction: "framed (matchesFunction args)"
  by (simp add: matchesFunction_def framed_unmodelled framed_throw split: list.split)

lemma framed_applyFunction: "framed (applyFunction functionName args)"
  by (simp add: applyFunction_def framed_lenFunction framed_containsFunction
      framed_startsWithFunction framed_endsWithFunction framed_substringFunction
      framed_isEmptyFunction framed_matchesFunction framed_throw)

lemma framed_evaluateFunctionCall:
  "(\<And>e. framed (ev e)) \<Longrightarrow> framed (evaluateFunctionCall ev expr)"
  by (auto simp: evaluateFunctionCall_def Let_def
      intro!: framed_andThen framed_ret framed_collectionCall framed_parseArguments framed_applyFunction)


lemma framed_binary: "(\<And>e. framed (ev e)) \<Longrightarrow> framed (binary ev l r f)"
  by (simp add: binary_def framed_andThen framed_computed)

lemma framed_splitAt:
  assumes "\<And>l r. framed (k l r)"
  shows "framed (splitAt expr operator k)"
proof -
  have "keepsNames s (snd (splitAt expr operator k s))" for s
  proof (cases "splitExpression expr operator")
    case (Inl e)
    then show ?thesis by (simp add: splitAt_def keepsNames_refl)
  next
    case (Inr parts)
    obtain l r where "parts = (l, r)" by (cases parts)
    with Inr assms[of l r] show ?thesis by (simp add: splitAt_def framed_def)
  qed
  then show ?thesis by (simp add: framed_def)
qed

lemma allFramed_simps:
  "allFramed None"
  "allFramed (Some act) = framed act"
  by (simp_all add: allFramed_def)

lemma allFramed_if:
  "(c \<Longrightarrow> allFramed a) \<Longrightarrow> (\<not> c \<Longrightarrow> allFramed b) \<Longrightarrow> allFramed (if c then a else b)"
  by simp

lemma allFramed_first:
  "allFramed a \<Longrightarrow> allFramed b \<Longrightarrow> allFramed (case a of None \<Rightarrow> b | Some act \<Rightarrow> Some act)"
  by (cases a) (simp_all add: allFramed_def)

lemma framed_itBlock: "allFramed (itBlock expr s)"
  by (simp add: itBlock_def allFramed_simps framed_ret framed_throw framed_computed
      split: option.split)

lemma framed_parenArithmetic:
  "(\<And>e. framed (ev e)) \<Longrightarrow> allFramed (parenArithmetic ev expr)"
  by (simp add: parenArithmetic_def Let_def allFramed_simps framed_andThen framed_computed
      framed_throw)

lemma framed_parenLogical:
  "(\<And>e. framed (ev e)) \<Longrightarrow> allFramed (parenLogical ev expr)"
  by (simp add: parenLogical_def Let_def allFramed_simps framed_andThen framed_ret
      split: option.split)

lemma framed_arrayAccess: "allFramed (arrayAccess expr)"
proof (cases "matchArrayAccess expr")
  case None
  then show ?thesis by (simp add: arrayAccess_def allFramed_simps)
next
  case (Some m)
  obtain varName ds where m: "m = (varName, ds)" by (cases m)
  have "keepsNames s (snd (act s))"
    if "act = (\<lambda>s. if \<not> inEnvironment varName s then throw (notDefined varName) s
            else (case environment s varName of
                 Some (Arr i items) \<Rightarrow>
                   if parseInt ds \<ge> length items
                   then (if int (parseInt ds) \<le> 9007199254740992
                         then throw (''Index out of bounds: '' @ digitsOfNat (parseInt ds)) s
                         else unmodelled ''number'' s)
                   else ret (items ! parseInt ds) s
               | _ \<Rightarrow> throw (notAnArray varName) s))" for act :: "val action" and s
    unfolding that
    by (simp add: throw_def ret_def unmodelled_def keepsNames_refl split: option.split val.split)
  then show ?thesis
    by (simp add: arrayAccess_def Some m allFramed_simps framed_def)
qed

lemma framed_primary:
  "(\<And>e. framed (ev e)) \<Longrightarrow> allFramed (primary ev expr)"
  using framed_arrayAccess[of expr]
  by (cases "arrayAccess expr")
    (simp_all add: primary_def Let_def allFramed_simps framed_andThen framed_ret framed_newArray
      framed_mapItems framed_evaluateFunctionCall)

lemma framed_comparisons:
  "(\<And>e. framed (ev e)) \<Longrightarrow> allFramed (comparisons ev expr)"
  by (simp add: comparisons_def allFramed_simps framed_splitAt framed_binary)

lemma framed_arithmetic:
  "(\<And>e. framed (ev e)) \<Longrightarrow> allFramed (arithmetic ev expr)"
  by (simp add: arithmetic_def allFramed_simps framed_splitAt framed_binary framed_andThen
      framed_computed framed_throw)

lemma framed_logical:
  "(\<And>e. framed (ev e)) \<Longrightarrow> allFramed (logical ev expr)"
  by (simp add: logical_def Let_def allFramed_simps framed_splitAt framed_andThen framed_ret)

lemma framed_atom: "framed (atom expr)"
  by (simp add: framed_def atom_def ret_def throw_def unmodelled_def keepsNames_refl
      split: option.split)

lemma keeps_case:
  "allFramed b \<Longrightarrow> keepsNames s (snd d)
    \<Longrightarrow> keepsNames s (snd (case b of None \<Rightarrow> d | Some act \<Rightarrow> act s))"
  by (cases b) (simp_all add: allFramed_def framed_def)

lemma keeps_if:
  "(c \<Longrightarrow> keepsNames s (snd a)) \<Longrightarrow> (\<not> c \<Longrightarrow> keepsNames s (snd b))
    \<Longrightarrow> keepsNames s (snd (if c then a else b))"
  by simp

lemma keeps_framed: "framed act \<Longrightarrow> keepsNames s (snd (act s))"
  by (simp add: framed_def)

lemma framed_evaluateExpressionStep:
  assumes ev: "\<And>e. framed (ev e)"
  shows "framed (evaluateExpressionStep ev expr0)"
proof -
  have "keepsNames s (snd (evaluateExpressionStep ev expr0 s))" for s
    unfolding evaluateExpressionStep_def Let_def
    by (intro keeps_if keeps_case allFramed_if allFramed_first allFramed_simps(1)
        framed_itBlock framed_parenArithmetic framed_parenLogical framed_primary
        framed_comparisons framed_arithmetic framed_logical ev
        keeps_framed framed_throw framed_ret framed_atom)
  then show ?thesis by (simp add: framed_def)
qed

lemma framed_evaluateExpressionFuel: "framed (evaluateExpressionFuel n expr)"
proof (induction n arbitrary: expr)
  case 0
  show ?case by (simp add: framed_def keepsNames_refl)
next
  case (Suc n)
  have "framed (evaluateExpressionStep (evaluateExpressionFuel n) expr)"
    by (rule framed_evaluateExpressionStep) (rule Suc)
  then show ?case by (simp add: framed_def)
qed

lemma framed_evaluateExpression: "framed (evaluateExpression expr)"
  using framed_evaluateExpressionFuel[of "Suc (length expr)" expr]
  by (simp add: framed_def evaluateExpression_def)

subsection \<open>Substrings and \<^verbatim>\<open>trim\<close>\<close>

lemma startsWith_iff: "startsWith s p \<longleftrightarrow> (\<exists>v. s = p @ v)"
  by (induction s p rule: startsWith.induct) auto

lemma indexOfAux_found:
  "indexOfAux p s k \<noteq> - 1 \<longleftrightarrow> (\<exists>u v. s = u @ p @ v)" if "0 \<le> k"
  using that
proof (induction s arbitrary: k)
  case Nil
  then show ?case by auto
next
  case (Cons c cs)
  show ?case
  proof (cases "startsWith (c # cs) p")
    case True
    then obtain v where "c # cs = p @ v" by (auto simp: startsWith_iff)
    then have "c # cs = [] @ p @ v" by simp
    then have "\<exists>u v. c # cs = u @ p @ v" by blast
    with True Cons.prems show ?thesis by simp
  next
    case False
    have "(\<exists>u v. c # cs = u @ p @ v) \<longleftrightarrow> (\<exists>u v. cs = u @ p @ v)"
    proof
      assume "\<exists>u v. c # cs = u @ p @ v"
      then obtain u v where uv: "c # cs = u @ p @ v" by blast
      show "\<exists>u v. cs = u @ p @ v"
      proof (cases u)
        case Nil
        with uv False show ?thesis by (auto simp: startsWith_iff)
      next
        case (Cons d u')
        with uv have "cs = u' @ p @ v" by simp
        then show ?thesis by blast
      qed
    next
      assume "\<exists>u v. cs = u @ p @ v"
      then obtain u v where "cs = u @ p @ v" by blast
      then have "c # cs = (c # u) @ p @ v" by simp
      then show "\<exists>u v. c # cs = u @ p @ v" by blast
    qed
    moreover have "indexOfAux p cs (k + 1) \<noteq> - 1 \<longleftrightarrow> (\<exists>u v. cs = u @ p @ v)"
      using Cons.prems by (intro Cons.IH) simp
    ultimately show ?thesis using False by simp
  qed
qed

lemma includesStr_iff: "includesStr s p \<longleftrightarrow> (\<exists>u v. s = u @ p @ v)"
  by (simp add: includesStr_def indexOf_def indexOfAux_found)

lemma dropWhile_keeps_infix:
  assumes "\<not> P c"
  shows "\<exists>u'. dropWhile P (u @ (c # p) @ v) = u' @ (c # p) @ v"
proof (cases "\<forall>x\<in>set u. P x")
  case True
  then have "dropWhile P (u @ (c # p) @ v) = [] @ (c # p) @ v"
    using assms by (simp add: dropWhile_append)
  then show ?thesis by blast
next
  case False
  then have "dropWhile P (u @ (c # p) @ v) = dropWhile P u @ (c # p) @ v"
    by (auto simp: dropWhile_append)
  then show ?thesis by blast
qed

lemma includesStr_trim:
  assumes "p \<noteq> []" "\<not> isWhiteSpace (hd p)" "\<not> isWhiteSpace (last p)"
  shows "includesStr (trim s) p \<longleftrightarrow> includesStr s p"
proof
  assume "includesStr (trim s) p"
  then obtain u v where uv: "trim s = u @ p @ v" by (auto simp: includesStr_iff)
  have "s = takeWhile isWhiteSpace s @ dropWhile isWhiteSpace s" by simp
  moreover have "dropWhile isWhiteSpace s =
      rev (dropWhile isWhiteSpace (rev (dropWhile isWhiteSpace s))) @
      rev (takeWhile isWhiteSpace (rev (dropWhile isWhiteSpace s)))"
    by (metis rev_append rev_rev_ident takeWhile_dropWhile_id)
  ultimately have "s = takeWhile isWhiteSpace s @ trim s @
      rev (takeWhile isWhiteSpace (rev (dropWhile isWhiteSpace s)))"
    by (simp add: trim_def)
  then have "s = (takeWhile isWhiteSpace s @ u) @ p @
      (v @ rev (takeWhile isWhiteSpace (rev (dropWhile isWhiteSpace s))))"
    using uv by simp
  then show "includesStr s p" unfolding includesStr_iff by blast
next
  assume "includesStr s p"
  then obtain u v where uv: "s = u @ p @ v" by (auto simp: includesStr_iff)
  obtain c q where p: "p = c # q" using assms(1) by (cases p) auto
  have c: "\<not> isWhiteSpace c" using assms(2) p by simp
  obtain u' where 1: "dropWhile isWhiteSpace s = u' @ p @ v"
    using dropWhile_keeps_infix[of isWhiteSpace c u q v] c uv p by auto
  obtain d r where rp: "rev p = d # r" using assms(1) by (cases "rev p") auto
  have d: "\<not> isWhiteSpace d" using assms(3) rp by (metis assms(1) hd_rev list.sel(1))
  have "rev (dropWhile isWhiteSpace s) = rev v @ (d # r) @ rev u'"
    using 1 rp by simp
  then obtain v' where "dropWhile isWhiteSpace (rev (dropWhile isWhiteSpace s)) = v' @ (d # r) @ rev u'"
    using dropWhile_keeps_infix[of isWhiteSpace d "rev v" r "rev u'"] d by auto
  then have "trim s = u' @ p @ rev v'"
    using rp by (simp add: trim_def rev_swap)
  then show "includesStr (trim s) p" unfolding includesStr_iff by blast
qed

lemma includesStr_Nil: "includesStr [] (c # p) = False"
  by (simp add: includesStr_def indexOf_def)

lemma it_unbound_throws:
  assumes "environment s ''@it'' = None" and "includesStr (trim e) ''@it''"
  shows "evaluateExpressionFuel (Suc n) e s = (Inl (Thrown itUnavailable), s)"
proof -
  have ne: "trim e \<noteq> []" using assms(2) by (auto simp: includesStr_Nil)
  have "itBlock (trim e) s = Some (throw itUnavailable)"
    using assms by (simp add: itBlock_def)
  then show ?thesis
    using ne by (simp add: evaluateExpressionStep_def Let_def throw_def)
qed

subsection \<open>Statements and sequences\<close>

lemma keeps_assign: "name \<noteq> ''@it'' \<Longrightarrow> snd (assign name v s) = s' \<Longrightarrow>
  environment s' ''@it'' = environment s ''@it''"
  by (auto simp: assign_def unmodelled_def split: if_splits)

lemma evaluateStatement_expression:
  "\<not> isAssignment (trim st) \<Longrightarrow> evaluateStatement st s = evaluateExpression (trim st) s"
  by (simp add: evaluateStatement_def Let_def)

lemma evaluateStatement_keeps:
  assumes "\<not> isAssignment (trim st)"
  shows "keepsNames s (snd (evaluateStatement st s))"
  using framed_evaluateExpression[of "trim st"] assms
  by (simp add: evaluateStatement_expression framed_def)

lemma evaluateStatement_failure_keeps:
  assumes "evaluateStatement st s = (Inl e, s')"
  shows "keepsNames s s'"
proof (cases "isAssignment (trim st)")
  case False
  with evaluateStatement_keeps[OF False, of s] assms show ?thesis by simp
next
  case True
  show ?thesis
  proof (cases "map trim (split (trim st) ''='')")
    case Nil
    with True assms show ?thesis
      by (simp add: evaluateStatement_def Let_def throw_def keepsNames_refl)
  next
    case (Cons varName rest)
    show ?thesis
    proof (cases rest)
      case Nil
      with Cons True assms show ?thesis
        by (simp add: evaluateStatement_def Let_def throw_def keepsNames_refl)
    next
      case (Cons valueExpr rest')
      obtain r s1 where ev: "evaluateExpression valueExpr s = (r, s1)"
        by (cases "evaluateExpression valueExpr s")
      have k: "keepsNames s s1"
        using framed_evaluateExpression[of valueExpr] ev by (auto simp: framed_def dest: spec[of _ s])
      show ?thesis
      proof (cases r)
        case (Inl e')
        with assms True \<open>map trim (split (trim st) ''='') = varName # rest\<close> Cons ev k
        show ?thesis by (simp add: evaluateStatement_def Let_def andThen_def)
      next
        case (Inr v)
        with assms True \<open>map trim (split (trim st) ''='') = varName # rest\<close> Cons ev k
        show ?thesis
          by (auto simp: evaluateStatement_def Let_def andThen_def assign_def unmodelled_def ret_def
              split: if_splits)
      qed
    qed
  qed
qed

lemma runStatements_append:
  "pre \<noteq> [] \<Longrightarrow> runStatements (pre @ post) previous s =
     (case runStatements pre previous s of
        (Inl e, s') \<Rightarrow> (Inl e, s')
      | (Inr v, s') \<Rightarrow> runStatements post (Some v) s')"
proof (induction pre arbitrary: previous s)
  case Nil
  then show ?case by simp
next
  case (Cons st pre)
  show ?case
  proof (cases "evaluateStatement st s")
    case (Pair r s1)
    show ?thesis
    proof (cases r)
      case (Inl e)
      with Pair show ?thesis by (simp add: andThen_def)
    next
      case (Inr v)
      show ?thesis
      proof (cases "pre = []")
        case True
        with Pair Inr show ?thesis by (simp add: andThen_def ret_def)
      next
        case False
        from Cons.IH[OF False, of "Some v" s1] Pair Inr show ?thesis by (simp add: andThen_def)
      qed
    qed
  qed
qed


lemma splitAux_nonempty: "splitAux sep k cur s \<noteq> []"
  by (induction sep k cur s rule: splitAux.induct) auto

lemma includesStr_Cons:
  "includesStr (c # cs) sep \<Longrightarrow> \<not> startsWith (c # cs) sep \<Longrightarrow> includesStr cs sep"
  using indexOfAux_found[of 1 sep cs] indexOfAux_found[of 0 sep cs]
  by (simp add: includesStr_def indexOf_def)

lemma splitAux_two:
  "includesStr s sep \<Longrightarrow> sep \<noteq> [] \<Longrightarrow> \<exists>a b rest. splitAux sep 0 cur s = a # b # rest"
proof (induction s arbitrary: cur)
  case Nil
  then show ?case by (cases sep) (auto simp: includesStr_Nil)
next
  case (Cons c cs)
  show ?case
  proof (cases "startsWith (c # cs) sep")
    case True
    obtain b rest where "splitAux sep (length sep - 1) [] cs = b # rest"
      using splitAux_nonempty[of sep "length sep - 1" "[]" cs]
      by (cases "splitAux sep (length sep - 1) [] cs") auto
    with True show ?thesis by simp
  next
    case False
    from includesStr_Cons[OF Cons.prems(1) False] Cons.IH[of "c # cur"] Cons.prems(2) False
    show ?thesis by simp
  qed
qed

lemma split_two:
  "includesStr s sep \<Longrightarrow> sep \<noteq> [] \<Longrightarrow> \<exists>a b rest. split s sep = a # b # rest"
  using splitAux_two[of s sep "[]"] by (simp add: split_def)

lemma assignment_pieces:
  assumes "isAssignment st"
  shows "\<exists>name valueExpr rest. map trim (split st ''='') = name # valueExpr # rest"
proof -
  from assms have "includesStr st ''=''" by (simp add: isAssignment_def)
  from split_two[OF this] obtain a b rest where "split st ''='' = a # b # rest" by auto
  then show ?thesis by simp
qed

lemma evaluateStatement_assignment:
  assumes "isAssignment (trim st)"
    and "map trim (split (trim st) ''='') = name # valueExpr # rest"
    and "evaluateExpression valueExpr s = (Inr v, s1)"
    and "name \<noteq> ''__proto__''"
  shows "evaluateStatement st s = (Inr v, s1\<lparr>environment := (environment s1)(name \<mapsto> v)\<rparr>)"
  using assms by (simp add: evaluateStatement_def Let_def andThen_def assign_def ret_def)

lemma operators_not_assignment:
  assumes "includesStr st ''=='' \<or> includesStr st ''!='' \<or> includesStr st ''<='' \<or> includesStr st ''>=''"
  shows "\<not> isAssignment (trim st)"
proof -
  have ws: "\<not> isWhiteSpace CHR ''=''" "\<not> isWhiteSpace CHR ''!''" "\<not> isWhiteSpace CHR ''<''"
    "\<not> isWhiteSpace CHR ''>''"
    by (simp_all add: isWhiteSpace_def)
  have "includesStr (trim st) ''=='' \<longleftrightarrow> includesStr st ''==''"
    "includesStr (trim st) ''!='' \<longleftrightarrow> includesStr st ''!=''"
    "includesStr (trim st) ''<='' \<longleftrightarrow> includesStr st ''<=''"
    "includesStr (trim st) ''>='' \<longleftrightarrow> includesStr st ''>=''"
    by (rule includesStr_trim; simp add: ws)+
  with assms show ?thesis by (auto simp: isAssignment_def)
qed

lemma runStatements_continue:
  assumes "runStatements pre previous s = (Inr v, s1)"
  shows "runStatements (pre @ post) previous s = runStatements post (Some v) s1"
proof (cases "pre = []")
  case True
  with assms show ?thesis by (cases previous) (simp_all add: ret_def throw_def)
next
  case False
  from runStatements_append[OF False, of post previous s] assms show ?thesis by simp
qed

lemma evaluateStatement_binds:
  assumes "isAssignment (trim st)"
    and "map trim (split (trim st) ''='') = name # rest"
    and "evaluateStatement st s = (Inr v, s')"
  shows "environment s' name = Some v"
proof -
  from assignment_pieces[OF assms(1)] assms(2)
  obtain valueExpr rest' where pieces: "map trim (split (trim st) ''='') = name # valueExpr # rest'"
    by auto
  obtain r s1 where ev: "evaluateExpression valueExpr s = (r, s1)"
    by (cases "evaluateExpression valueExpr s")
  show ?thesis
  proof (cases r)
    case (Inl e)
    with assms(1,3) pieces ev show ?thesis
      by (simp add: evaluateStatement_def Let_def andThen_def)
  next
    case (Inr w)
    with assms(1,3) pieces ev show ?thesis
      by (auto simp: evaluateStatement_def Let_def andThen_def assign_def unmodelled_def ret_def
          split: if_splits)
  qed
qed


text \<open>A text with a semicolon is split at the semicolons and its pieces are run by the
  loop \<open>runStatements\<close>. When the statements \<open>pre\<close> have run and left the session \<open>s1\<close>, the
  next statement is evaluated in \<open>s1\<close>, and if it is the last one its result is the result
  of the sequence; if it fails, the sequence fails with its error, the statements after it
  are not run, and the session is \<open>s1\<close> but for what the failing statement did to \<^verbatim>\<open>@it\<close>.\<close>

lemma runStatements_last:
  assumes "runStatements pre previous s = (Inr v, s1)"
  shows "runStatements (pre @ [st]) previous s = evaluateStatement st s1"
proof -
  have "runStatements [st] (Some v) s1 = evaluateStatement st s1"
    by (cases "evaluateStatement st s1") (auto simp: andThen_def ret_def split: sum.splits)
  with runStatements_continue[OF assms, of "[st]"] show ?thesis by simp
qed

lemma runStatements_failure:
  assumes "runStatements pre previous s = (Inr v, s1)" "evaluateStatement st s1 = (Inl err, s2)"
  shows "runStatements (pre @ st # post) previous s = (Inl err, s2) \<and> keepsNames s1 s2"
  using runStatements_continue[OF assms(1), of "st # post"] assms(2)
    evaluateStatement_failure_keeps[OF assms(2)]
  by (simp add: andThen_def)

lemma evaluate_sequence:
  assumes "trim e \<noteq> []" "\<not> isStringComparison (CHR 0x22) e" "\<not> isStringComparison (CHR 0x27) e"
    "includesStr e '';''"
  shows "evaluate s e =
     report ''Error evaluating expression: ''
       (runStatements (filter (\<lambda>stmt. length stmt > 0) (map trim (split e '';''))) None s)"
  using assms by (simp add: evaluate_def)

subsection \<open>The iteration variable and the pattern of a collection call\<close>

lemma evaluate_it_unbound:
  assumes "environment s ''@it'' = None"
  shows "evaluate s ''@it'' = (Failure (''Error evaluating expression: '' @ itUnavailable), s)"
proof -
  have 1: "trim ''@it'' = ''@it''" by code_simp
  have 2: "\<not> isStringComparison (CHR 0x22) ''@it''" "\<not> isStringComparison (CHR 0x27) ''@it''"
    by code_simp+
  have 3: "\<not> includesStr ''@it'' '';''" by code_simp
  have 4: "\<not> isCollectionCall ''@it''" by code_simp
  have 5: "\<not> isAssignment ''@it''" by code_simp
  have 6: "includesStr (trim ''@it'') ''@it''" by code_simp
  have "evaluateExpression ''@it'' s = (Inl (Thrown itUnavailable), s)"
    unfolding evaluateExpression_def using assms 6 by (rule it_unbound_throws)
  then show ?thesis
    by (simp add: evaluate_def 1 2 3 collectionShortcut_def 4 evaluateStatement_def 5 report_def)
qed

lemma expect_Some: "expect p s = Some r \<Longrightarrow> s = p @ r"
  by (auto simp: expect_def startsWith_iff split: if_splits)

lemma skipSpaces_split: "\<exists>w. s = w @ skipSpaces s \<and> list_all isWhiteSpace w"
proof -
  have "s = takeWhile isWhiteSpace s @ skipSpaces s" by (simp add: skipSpaces_def)
  moreover have "list_all isWhiteSpace (takeWhile isWhiteSpace s)"
    by (simp add: list_all_iff) (meson set_takeWhileD)
  ultimately show ?thesis by blast
qed

lemma readIdentifier_Some:
  "readIdentifier s = Some (name, r) \<Longrightarrow> s = name @ r \<and> isIdentifier name"
proof -
  assume a: "readIdentifier s = Some (name, r)"
  then obtain c cs where s: "s = c # cs" and c: "isIdentStart c"
    and name: "name = c # takeWhile isIdentChar cs" and r: "r = dropWhile isIdentChar cs"
    by (auto simp: readIdentifier_def split: list.splits if_splits)
  have d: "dropWhile isIdentChar (takeWhile isIdentChar cs) = []"
    by (simp add: dropWhile_eq_Nil_conv) (meson set_takeWhileD)
  have "readIdentifier name = Some (name, [])"
    unfolding name readIdentifier_def using c
    by (simp only: d takeWhile_idem list.case if_True)
  then have "isIdentifier name"
    by (simp add: isIdentifier_def)
  with s name r show ?thesis by simp
qed

lemma readCollectionFunction_Some:
  "readCollectionFunction s = Some (f, r) \<Longrightarrow> s = f @ r \<and> f \<in> {''filter'', ''all'', ''any''}"
  by (auto simp: readCollectionFunction_def startsWith_iff split: if_splits)

lemma readCollectionHead_shape:
  assumes "readCollectionHead e = Some (f, c, r)"
  shows "\<exists>w1 w2 w3 w4. e = f @ w1 @ ''('' @ w2 @ c @ w3 @ '','' @ w4 @ ''{'' @ r \<and>
           f \<in> {''filter'', ''all'', ''any''} \<and> isIdentifier c \<and>
           list_all isWhiteSpace (w1 @ w2 @ w3 @ w4)"
proof -
  from assms obtain r1 r2 r3 r4 where
    1: "readCollectionFunction e = Some (f, r1)" and
    2: "expect ''('' (skipSpaces r1) = Some r2" and
    3: "readIdentifier (skipSpaces r2) = Some (c, r3)" and
    4: "expect '','' (skipSpaces r3) = Some r4" and
    5: "expect ''{'' (skipSpaces r4) = Some r"
    by (auto simp: readCollectionHead_def split: option.splits prod.splits)
  obtain w1 where w1: "r1 = w1 @ skipSpaces r1" "list_all isWhiteSpace w1"
    using skipSpaces_split[of r1] by blast
  obtain w2 where w2: "r2 = w2 @ skipSpaces r2" "list_all isWhiteSpace w2"
    using skipSpaces_split[of r2] by blast
  obtain w3 where w3: "r3 = w3 @ skipSpaces r3" "list_all isWhiteSpace w3"
    using skipSpaces_split[of r3] by blast
  obtain w4 where w4: "r4 = w4 @ skipSpaces r4" "list_all isWhiteSpace w4"
    using skipSpaces_split[of r4] by blast
  have e: "e = f @ r1" and f: "f \<in> {''filter'', ''all'', ''any''}"
    using readCollectionFunction_Some[OF 1] by simp_all
  have "skipSpaces r1 = ''('' @ r2" using expect_Some[OF 2] .
  moreover have "skipSpaces r2 = c @ r3" and c: "isIdentifier c"
    using readIdentifier_Some[OF 3] by simp_all
  moreover have "skipSpaces r3 = '','' @ r4" using expect_Some[OF 4] .
  moreover have "skipSpaces r4 = ''{'' @ r" using expect_Some[OF 5] .
  ultimately have "e = f @ w1 @ ''('' @ w2 @ c @ w3 @ '','' @ w4 @ ''{'' @ r"
    using e w1(1) w2(1) w3(1) w4(1) by (metis append.assoc)
  with f c w1(2) w2(2) w3(2) w4(2) show ?thesis by auto
qed

lemma isCollectionCall_shape:
  assumes "isCollectionCall e"
  shows "\<exists>f c w1 w2 w3 w4 r. e = f @ w1 @ ''('' @ w2 @ c @ w3 @ '','' @ w4 @ ''{@it'' @ r \<and>
           f \<in> {''filter'', ''all'', ''any''} \<and> isIdentifier c \<and>
           list_all isWhiteSpace (w1 @ w2 @ w3 @ w4)"
proof -
  from assms obtain f c r0 where h: "readCollectionHead e = Some (f, c, r0)" and "startsWith r0 ''@it''"
    by (auto simp: isCollectionCall_def split: option.splits)
  then obtain r where r0: "r0 = ''@it'' @ r" by (auto simp: startsWith_iff)
  from readCollectionHead_shape[OF h] r0 show ?thesis
    by (metis append.assoc append_Cons append_Nil)
qed


subsection \<open>Equality\<close>


subsection \<open>The fuel is never used up\<close>

text \<open>Every recursive call of \<^verbatim>\<open>_evaluateExpression\<close> is on a text shorter than the trimmed
  text at hand. So one call depends on the evaluator for its recursive calls only below the
  length of its text, and the fuel \<open>Suc (length expr)\<close> is enough: \<open>evaluateExpression\<close>
  never ends with \<open>OutOfFuel\<close>, and more fuel changes nothing.\<close>

lemma length_trim: "length (trim s) \<le> length s"
proof -
  have "length (dropWhile isWhiteSpace (rev (dropWhile isWhiteSpace s))) \<le> length (rev (dropWhile isWhiteSpace s))"
    by (rule length_dropWhile_le)
  also have "\<dots> \<le> length s" by (simp add: length_dropWhile_le)
  finally show ?thesis by (simp add: trim_def)
qed

lemma length_substring: "length (substring s a b) \<le> length s"
  by (simp add: substring_def Let_def min.coboundedI1)

lemma length_substring_inner:
  assumes "1 \<le> a" "a < int (length s)"
  shows "length (substring s a b) < length s"
  using assms by (auto simp: substring_def Let_def min_def max_def)

lemma length_substring_prefix:
  assumes "b < int (length s)" "s \<noteq> []"
  shows "length (substring s 0 b) < length s"
  using assms by (auto simp: substring_def Let_def min_def max_def)

lemma length_substringFrom:
  assumes "1 \<le> a" "s \<noteq> []"
  shows "length (substringFrom s a) < length s"
  using assms by (cases s) (auto simp: substringFrom_def)

lemma startsWith_length: "startsWith s p \<Longrightarrow> length p \<le> length s"
  by (auto simp: startsWith_iff)

lemma endsWith_iff: "endsWith s p \<longleftrightarrow> (\<exists>u. s = u @ p)"
proof -
  have "(\<exists>v. rev s = rev p @ v) \<longleftrightarrow> (\<exists>u. s = u @ p)"
  proof
    assume "\<exists>v. rev s = rev p @ v"
    then obtain v where "rev s = rev p @ v" by blast
    then have "s = rev v @ p" by (metis rev_append rev_rev_ident)
    then show "\<exists>u. s = u @ p" by blast
  next
    assume "\<exists>u. s = u @ p"
    then obtain u where "s = u @ p" by blast
    then have "rev s = rev p @ rev u" by simp
    then show "\<exists>v. rev s = rev p @ v" by blast
  qed
  then show ?thesis by (simp add: endsWith_def startsWith_iff)
qed

lemma enclosed_length:
  assumes "startsWith s [c]" "endsWith s [d]" "c \<noteq> d"
  shows "2 \<le> length s"
proof -
  from assms(1) obtain v where v: "s = c # v" by (auto simp: startsWith_iff)
  from assms(2) obtain u where u: "s = u @ [d]" by (auto simp: endsWith_iff)
  from v u assms(3) have "v \<noteq> []" by auto
  with v show ?thesis by (cases v) auto
qed

lemma indexOfAux_range:
  "indexOfAux p s k = i \<Longrightarrow> i \<noteq> - 1 \<Longrightarrow> 0 \<le> k \<Longrightarrow> k \<le> i \<and> i + int (length p) \<le> k + int (length s)"
proof (induction s arbitrary: k)
  case Nil
  then show ?case by (auto split: if_splits)
next
  case (Cons c cs)
  show ?case
  proof (cases "startsWith (c # cs) p")
    case True
    with Cons.prems startsWith_length[OF True] show ?thesis by auto
  next
    case False
    with Cons.prems have "indexOfAux p cs (k + 1) = i" by simp
    from Cons.IH[OF this] Cons.prems show ?thesis by auto
  qed
qed

lemma indexOf_range:
  "includesStr s p \<Longrightarrow> 0 \<le> indexOf s p \<and> indexOf s p + int (length p) \<le> int (length s)"
  using indexOfAux_range[of p s 0 "indexOf s p"] by (simp add: includesStr_def indexOf_def)

lemma indexOfAux_first:
  "0 \<le> k \<Longrightarrow> indexOfAux p (u @ p @ v) k \<le> k + int (length u)"
proof (induction u arbitrary: k)
  case Nil
  have "startsWith (p @ v) p" by (auto simp: startsWith_iff)
  then show ?case by (cases "p @ v") (auto split: if_splits)
next
  case (Cons c u)
  from Cons.IH[of "k + 1"] Cons.prems show ?case by auto
qed

lemma indexOf_first: "indexOf (u @ p @ v) p \<le> int (length u)"
  using indexOfAux_first[of 0 p u v] by (simp add: indexOf_def)

lemma indexOfAux_at:
  "indexOfAux p s k = i \<Longrightarrow> i \<noteq> - 1 \<Longrightarrow> 0 \<le> k \<Longrightarrow> startsWith (drop (nat (i - k)) s) p"
proof (induction s arbitrary: k)
  case Nil
  then show ?case by (auto split: if_splits)
next
  case (Cons c cs)
  show ?case
  proof (cases "startsWith (c # cs) p")
    case True
    with Cons.prems show ?thesis by auto
  next
    case False
    with Cons.prems have i: "indexOfAux p cs (k + 1) = i" by simp
    from indexOfAux_range[OF i] Cons.prems have "k + 1 \<le> i" by simp
    then have "nat (i - k) = Suc (nat (i - (k + 1)))" by simp
    with Cons.IH[OF i] Cons.prems show ?thesis by simp
  qed
qed

lemma split_pieces_length: "p \<in> set (splitAux sep k cur s) \<Longrightarrow> length p \<le> length cur + length s"
proof (induction sep k cur s rule: splitAux.induct)
  case (1 sep skip cur)
  then show ?case by simp
next
  case (2 sep k cur c cs)
  then show ?case by simp
next
  case (3 sep cur c cs)
  then show ?case by (auto split: if_splits)
qed

lemma split_piece_length:
  assumes "p \<in> set (split s sep)"
  shows "length p \<le> length s"
  using assms
proof (cases "sep = []")
  case True
  with assms obtain c where "c \<in> set s" "p = [c]" by (auto simp: split_def)
  then show ?thesis by (cases s) auto
next
  case False
  with assms show ?thesis using split_pieces_length[of p sep 0 "[]" s] by (simp add: split_def)
qed

lemma splitAux_piece_shorter:
  "2 \<le> length (splitAux sep k cur s) \<Longrightarrow> p \<in> set (splitAux sep k cur s)
     \<Longrightarrow> length p < length cur + length s"
proof (induction sep k cur s rule: splitAux.induct)
  case (1 sep skip cur)
  then show ?case by simp
next
  case (2 sep k cur c cs)
  then show ?case by simp
next
  case (3 sep cur c cs)
  show ?case
  proof (cases "startsWith (c # cs) sep")
    case True
    with "3.prems"(2) have "p = rev cur \<or> p \<in> set (splitAux sep (length sep - 1) [] cs)"
      by simp
    then show ?thesis
    proof
      assume "p = rev cur"
      then show ?thesis by simp
    next
      assume "p \<in> set (splitAux sep (length sep - 1) [] cs)"
      from split_pieces_length[OF this] show ?thesis by simp
    qed
  next
    case False
    with "3.prems" "3.IH"(2) show ?thesis by simp
  qed
qed

lemma split_two_shorter:
  assumes "split s sep = [a, b]" "sep \<noteq> []"
  shows "length a < length s \<and> length b < length s"
proof -
  have "splitAux sep 0 [] s = [a, b]" using assms by (simp add: split_def)
  then show ?thesis
    using splitAux_piece_shorter[of sep 0 "[]" s a] splitAux_piece_shorter[of sep 0 "[]" s b]
    by simp
qed

lemma splitScan_shorter:
  assumes "splitScan operator expr rest i prev q d = Some (l, r)"
    and "0 \<le> i" and "i + int (length rest) \<le> int (length expr)" and "operator \<noteq> []"
  shows "length l < length expr \<and> length r < length expr"
  using assms
proof (induction rest arbitrary: i prev q d)
  case Nil
  then show ?case by simp
next
  case (Cons c cs)
  let ?q = "updateString c prev q"
  let ?d = "updateDepth c (fst ?q) d"
  have i: "i < int (length expr)" and ne: "expr \<noteq> []" using Cons.prems(2,3) by auto
  have step: "splitScan operator expr (c # cs) i prev q d =
      (if \<not> fst ?q \<and> ?d = 0 \<and> startsWith (c # cs) operator
       then Some (trim (substring expr 0 i), trim (substringFrom expr (i + int (length operator))))
       else splitScan operator expr cs (i + 1) (Some c) ?q ?d)"
    by (simp add: Let_def)
  show ?case
  proof (cases "\<not> fst ?q \<and> ?d = 0 \<and> startsWith (c # cs) operator")
    case True
    have "splitScan operator expr (c # cs) i prev q d =
        Some (trim (substring expr 0 i), trim (substringFrom expr (i + int (length operator))))"
      unfolding step by (rule if_P) (rule True)
    with Cons.prems(1) have l: "l = trim (substring expr 0 i)"
      and r: "r = trim (substringFrom expr (i + int (length operator)))"
      by simp_all
    have "length l \<le> length (substring expr 0 i)" unfolding l by (rule length_trim)
    also have "\<dots> < length expr" using i ne by (rule length_substring_prefix)
    finally have 1: "length l < length expr" .
    have "1 \<le> i + int (length operator)" using Cons.prems(2,4) by (cases operator) auto
    then have "length (substringFrom expr (i + int (length operator))) < length expr"
      using ne by (rule length_substringFrom)
    moreover have "length r \<le> length (substringFrom expr (i + int (length operator)))"
      unfolding r by (rule length_trim)
    ultimately show ?thesis using 1 by simp
  next
    case False
    have "splitScan operator expr (c # cs) i prev q d =
        splitScan operator expr cs (i + 1) (Some c) ?q ?d"
      unfolding step by (rule if_not_P) (rule False)
    with Cons.prems(1) have "splitScan operator expr cs (i + 1) (Some c) ?q ?d = Some (l, r)"
      by simp
    from Cons.IH[OF this] Cons.prems(2,3,4) show ?thesis by simp
  qed
qed

lemma indexOfFrom_range:
  assumes "indexOfFrom s p start = i" "i \<noteq> - 1"
  shows "0 \<le> i \<and> i + int (length p) \<le> int (length s)"
proof -
  let ?k = "min (max start 0) (int (length s))"
  have "indexOfAux p (drop (nat ?k) s) ?k = i" using assms(1) by (simp add: indexOfFrom_def Let_def)
  from indexOfAux_range[OF this assms(2)] show ?thesis by auto
qed

lemma splitExpression_shorter:
  assumes "splitExpression expr operator = Inr (l, r)" "operator \<noteq> []" "expr \<noteq> []"
  shows "length l < length expr \<and> length r < length expr"
proof -
  let ?m = "indexOfFrom expr ''*'' (lastIndexOf expr '')'')"
  consider (star) "0 < ?m" "l = trim (substring expr 0 ?m)" "r = trim (substringFrom expr (?m + 1))"
    | (scan) "splitScan operator expr expr 0 None (False, []) 0 = Some (l, r)"
    | (both) a b where "split expr operator = [a, b]" "l = trim a" "r = trim b"
    using assms(1) unfolding splitExpression_def Let_def
    by (auto split: if_splits option.splits list.splits)
  then show ?thesis
  proof cases
    case star
    from indexOfFrom_range[of expr "''*''" "lastIndexOf expr '')''" ?m] star(1)
    have m: "?m < int (length expr)" by simp
    have "length l \<le> length (substring expr 0 ?m)" unfolding star(2) by (rule length_trim)
    also have "\<dots> < length expr" using m assms(3) by (rule length_substring_prefix)
    finally have 1: "length l < length expr" .
    have "length (substringFrom expr (?m + 1)) < length expr"
      using star(1) assms(3) by (intro length_substringFrom) simp_all
    moreover have "length r \<le> length (substringFrom expr (?m + 1))"
      unfolding star(3) by (rule length_trim)
    ultimately show ?thesis using 1 by simp
  next
    case scan
    from splitScan_shorter[OF scan _ _ assms(2)] show ?thesis by simp
  next
    case both
    from split_two_shorter[OF both(1) assms(2)] length_trim[of a] length_trim[of b] both(2,3)
    show ?thesis by simp
  qed
qed

lemma agreeBelow_apply: "agreeBelow k ev ev' \<Longrightarrow> length e < k \<Longrightarrow> ev e = ev' e"
  by (simp add: agreeBelow_def)

lemma agreeBelow_mono: "agreeBelow k ev ev' \<Longrightarrow> j \<le> k \<Longrightarrow> agreeBelow j ev ev'"
  by (simp add: agreeBelow_def)

lemma andThen_cong_result:
  assumes "\<And>v s s'. m s = (Inr v, s') \<Longrightarrow> f v s' = g v s'"
  shows "andThen m f = andThen m g"
proof
  fix s
  show "andThen m f s = andThen m g s"
  proof (cases "m s")
    case (Pair r s')
    then show ?thesis using assms[of s _ s'] by (cases r) (simp_all add: andThen_def)
  qed
qed

lemma mapItems_cong: "(\<And>x. x \<in> set xs \<Longrightarrow> f x = g x) \<Longrightarrow> mapItems f xs = mapItems g xs"
  by (induction xs) simp_all

lemma splitAt_cong:
  assumes "\<And>l r. splitExpression expr operator = Inr (l, r) \<Longrightarrow> k l r = k' l r"
  shows "splitAt expr operator k = splitAt expr operator k'"
proof
  fix s
  show "splitAt expr operator k s = splitAt expr operator k' s"
  proof (cases "splitExpression expr operator")
    case (Inl e)
    then show ?thesis by (simp add: splitAt_def)
  next
    case (Inr parts)
    obtain l r where "parts = (l, r)" by (cases parts)
    with Inr assms[of l r] show ?thesis by (simp add: splitAt_def)
  qed
qed

lemma split_sides_agree:
  assumes "agreeBelow (length expr) ev ev'" "expr \<noteq> []" "operator \<noteq> []"
    "splitExpression expr operator = Inr (l, r)"
  shows "ev l = ev' l \<and> ev r = ev' r"
  using splitExpression_shorter[OF assms(4,3,2)] assms(1) by (simp add: agreeBelow_def)

lemma comparisons_cong:
  assumes "agreeBelow (length expr) ev ev'" "expr \<noteq> []"
  shows "comparisons ev expr = comparisons ev' expr"
proof -
  have sa: "splitAt expr operator (\<lambda>l r. binary ev l r f) =
      splitAt expr operator (\<lambda>l r. binary ev' l r f)" if "operator \<noteq> []" for operator f
    by (rule splitAt_cong) (simp add: binary_def split_sides_agree[OF assms that])
  show ?thesis by (simp add: comparisons_def sa)
qed

lemma arithmetic_cong:
  assumes "agreeBelow (length expr) ev ev'" "expr \<noteq> []"
  shows "arithmetic ev expr = arithmetic ev' expr"
proof -
  have sa: "splitAt expr operator (\<lambda>l r. binary ev l r f) =
      splitAt expr operator (\<lambda>l r. binary ev' l r f)" if "operator \<noteq> []" for operator f
    by (rule splitAt_cong) (simp add: binary_def split_sides_agree[OF assms that])
  have sd: "splitAt expr ''/'' (\<lambda>l r.
          andThen (ev r) (\<lambda>rightValue.
            if strictEquals rightValue (Num (Fin 0)) then throw ''Division by zero''
            else andThen (ev l) (\<lambda>leftValue. computed (jsDiv leftValue rightValue)))) =
      splitAt expr ''/'' (\<lambda>l r.
          andThen (ev' r) (\<lambda>rightValue.
            if strictEquals rightValue (Num (Fin 0)) then throw ''Division by zero''
            else andThen (ev' l) (\<lambda>leftValue. computed (jsDiv leftValue rightValue))))"
    (is "splitAt _ _ ?k = splitAt _ _ ?k'")
  proof (rule splitAt_cong)
    fix l r
    assume "splitExpression expr ''/'' = Inr (l, r)"
    from split_sides_agree[OF assms _ this] have "ev l = ev' l" "ev r = ev' r" by simp_all
    then show "?k l r = ?k' l r" by (simp cong: if_cong)
  qed
  show ?thesis by (simp add: arithmetic_def sa sd)
qed

lemma logical_cong:
  assumes "agreeBelow (length expr) ev ev'" "expr \<noteq> []"
  shows "logical ev expr = logical ev' expr"
proof -
  have sa: "splitAt expr ''&&'' (\<lambda>l r.
          andThen (ev l) (\<lambda>leftValue. if truthy leftValue then ev r else ret leftValue)) =
      splitAt expr ''&&'' (\<lambda>l r.
          andThen (ev' l) (\<lambda>leftValue. if truthy leftValue then ev' r else ret leftValue))"
    (is "splitAt _ _ ?k = splitAt _ _ ?k'")
  proof (rule splitAt_cong)
    fix l r
    assume "splitExpression expr ''&&'' = Inr (l, r)"
    from split_sides_agree[OF assms _ this] have "ev l = ev' l" "ev r = ev' r" by simp_all
    then show "?k l r = ?k' l r" by (simp cong: if_cong)
  qed
  have so: "splitAt expr ''||'' (\<lambda>l r.
          andThen (ev l) (\<lambda>leftValue. if truthy leftValue then ret leftValue else ev r)) =
      splitAt expr ''||'' (\<lambda>l r.
          andThen (ev' l) (\<lambda>leftValue. if truthy leftValue then ret leftValue else ev' r))"
    (is "splitAt _ _ ?k = splitAt _ _ ?k'")
  proof (rule splitAt_cong)
    fix l r
    assume "splitExpression expr ''||'' = Inr (l, r)"
    from split_sides_agree[OF assms _ this] have "ev l = ev' l" "ev r = ev' r" by simp_all
    then show "?k l r = ?k' l r" by (simp cong: if_cong)
  qed
  have n1: "ev (substringFrom expr 1) = ev' (substringFrom expr 1)"
    using assms by (intro agreeBelow_apply[OF assms(1)] length_substringFrom) simp_all
  have n4: "ev (substringFrom expr 4) = ev' (substringFrom expr 4)"
    using assms by (intro agreeBelow_apply[OF assms(1)] length_substringFrom) simp_all
  show ?thesis by (simp add: logical_def Let_def sa so n1 n4)
qed

lemma length_skipSpaces: "length (skipSpaces s) \<le> length s"
  by (simp add: skipSpaces_def length_dropWhile_le)

lemma take_length_takeWhile: "take (length (takeWhile P xs)) xs = takeWhile P xs"
  by (induction xs) simp_all

lemma readParenthesised_shape:
  assumes "readParenthesised s = Some (p, r)"
  shows "\<exists>inner. s = p @ r \<and> p = ''('' @ inner @ '')''"
proof (cases s)
  case Nil
  with assms show ?thesis by (simp add: readParenthesised_def)
next
  case (Cons c t)
  define inner where "inner = takeWhile (\<lambda>x. x \<noteq> CHR ''('' \<and> x \<noteq> CHR '')'') t"
  have c: "c = CHR ''(''"
  proof (rule ccontr)
    assume "c \<noteq> CHR ''(''"
    with assms Cons show False by (simp add: readParenthesised_def)
  qed
  have eq: "(case drop (length inner) t of [] \<Rightarrow> None
       | d # r' \<Rightarrow> if d = CHR '')'' \<and> inner \<noteq> [] then Some (CHR ''('' # inner @ '')'', r') else None)
     = Some (p, r)"
    unfolding inner_def using assms Cons c by (simp add: readParenthesised_def Let_def)
  show ?thesis
  proof (cases "drop (length inner) t")
    case Nil
    with eq show ?thesis by simp
  next
    case (Cons d r')
    have d: "d = CHR '')'' \<and> inner \<noteq> []"
    proof (rule ccontr)
      assume "\<not> (d = CHR '')'' \<and> inner \<noteq> [])"
      with eq Cons show False by simp
    qed
    with eq Cons have p: "p = CHR ''('' # inner @ '')''" and r: "r = r'" by simp_all
    have "t = take (length inner) t @ drop (length inner) t" by simp
    moreover have "take (length inner) t = inner"
      unfolding inner_def by (rule take_length_takeWhile)
    ultimately have "t = inner @ '')'' @ r" using Cons d r by simp
    with \<open>s = c # t\<close> c p show ?thesis by simp
  qed
qed

lemma searchOperatorAux_range: "searchOperatorAux s k = i \<Longrightarrow> i \<noteq> - 1 \<Longrightarrow> 0 \<le> k \<Longrightarrow> k \<le> i"
proof (induction s arbitrary: k)
  case Nil
  then show ?case by simp
next
  case (Cons c cs)
  show ?case
  proof (cases "isArithmeticOperator c")
    case True
    with Cons.prems show ?thesis by simp
  next
    case False
    with Cons.prems have "searchOperatorAux cs (k + 1) = i" by simp
    from Cons.IH[OF this] Cons.prems show ?thesis by simp
  qed
qed

lemma isParenArithmetic_closing:
  assumes "isParenArithmetic expr"
  shows "0 \<le> indexOf expr '')'' \<and> indexOf expr '')'' + 1 < int (length expr)"
proof -
  from assms obtain left r1 where rp: "readParenthesised expr = Some (left, r1)"
    and r1: "skipSpaces r1 \<noteq> []"
    by (auto simp: isParenArithmetic_def split: option.splits list.splits)
  from readParenthesised_shape[OF rp] obtain inner where
    e: "expr = left @ r1" and l: "left = ''('' @ inner @ '')''" by blast
  have r1ne: "r1 \<noteq> []" using r1 by (auto simp: skipSpaces_def)
  have e': "expr = (''('' @ inner) @ '')'' @ r1" using e l by simp
  have "includesStr expr '')''" unfolding includesStr_iff using e' by blast
  from indexOf_range[OF this] have 0: "0 \<le> indexOf expr '')''" by simp
  have "indexOf expr '')'' \<le> int (length (''('' @ inner))"
    by (subst e') (rule indexOf_first)
  moreover have "length expr = length inner + 2 + length r1" using e l by simp
  ultimately show ?thesis using 0 r1ne by (cases r1) auto
qed

lemma parenArithmetic_cong:
  assumes "agreeBelow (length expr) ev ev'" "expr \<noteq> []"
  shows "parenArithmetic ev expr = parenArithmetic ev' expr"
proof (cases "isParenArithmetic expr \<and> searchOperator (substringFrom expr (indexOf expr '')'')) \<noteq> - 1")
  case False
  then show ?thesis by (auto simp: parenArithmetic_def Let_def)
next
  case True
  let ?c = "indexOf expr '')''"
  let ?o = "searchOperator (substringFrom expr ?c)"
  from isParenArithmetic_closing True have c: "0 \<le> ?c" "?c + 1 < int (length expr)" by simp_all
  from True searchOperatorAux_range[of "substringFrom expr ?c" 0 ?o] have o: "0 \<le> ?o"
    by (simp add: searchOperator_def)
  have "length (substring expr 0 (?c + 1)) < length expr"
    using c(2) assms(2) by (rule length_substring_prefix)
  then have l: "ev (substring expr 0 (?c + 1)) = ev' (substring expr 0 (?c + 1))"
    by (rule agreeBelow_apply[OF assms(1)])
  have "length (substringFrom expr (?c + ?o + 1)) < length expr"
    using c(1) o assms(2) by (intro length_substringFrom) simp_all
  then have r: "ev (substringFrom expr (?c + ?o + 1)) = ev' (substringFrom expr (?c + ?o + 1))"
    by (rule agreeBelow_apply[OF assms(1)])
  show ?thesis using True by (simp add: parenArithmetic_def Let_def l r)
qed

lemma matchParenLogical_shorter:
  assumes "matchParenLogical expr = Some (l, operator, r)"
  shows "length l < length expr \<and> length r < length expr"
proof -
  from assms obtain r1 where rp: "readParenthesised expr = Some (l, r1)"
    and op: "take 2 (skipSpaces r1) = ''&&'' \<or> take 2 (skipSpaces r1) = ''||''"
    and rr: "readParenthesised (skipSpaces (drop 2 (skipSpaces r1))) = Some (r, [])"
    by (auto simp: matchParenLogical_def Let_def split: option.splits if_splits prod.splits list.splits)
  from readParenthesised_shape[OF rp] have e: "expr = l @ r1" by blast
  from readParenthesised_shape[OF rr] have r: "skipSpaces (drop 2 (skipSpaces r1)) = r" by auto
  from op have 2: "2 \<le> length (skipSpaces r1)"
    by (metis length_take min.cobounded1 length_Cons list.size(3) One_nat_def Suc_1 min_def)
  have "length r \<le> length (drop 2 (skipSpaces r1))" using length_skipSpaces[of "drop 2 (skipSpaces r1)"] r by simp
  also have "\<dots> < length (skipSpaces r1)" using 2 by simp
  also have "\<dots> \<le> length r1" by (rule length_skipSpaces)
  finally have lt: "length r < length r1" .
  then have "0 < length r1" by arith
  with lt show ?thesis unfolding e by simp
qed

lemma parenLogical_cong:
  assumes "agreeBelow (length expr) ev ev'"
  shows "parenLogical ev expr = parenLogical ev' expr"
proof (cases "matchParenLogical expr")
  case None
  then show ?thesis by (simp add: parenLogical_def)
next
  case (Some m)
  obtain l operator r where m: "m = (l, operator, r)" by (cases m)
  from matchParenLogical_shorter[of expr l operator r] Some m assms
  have "ev l = ev' l" "ev r = ev' r" by (simp_all add: agreeBelow_def)
  then show ?thesis using Some m by (simp add: parenLogical_def cong: if_cong)
qed

lemma agreeBelow_le: "agreeBelow (Suc k) ev ev' \<Longrightarrow> length e \<le> k \<Longrightarrow> ev e = ev' e"
  by (simp add: agreeBelow_def)

lemma agreeBelow_trim:
  "agreeBelow (Suc k) ev ev' \<Longrightarrow> length e \<le> k \<Longrightarrow> ev (trim e) = ev' (trim e)"
  using length_trim[of e] by (simp add: agreeBelow_def)

lemma scanArguments_step:
  "scanArguments ev (c # cs) prev args cur q d =
      (if c = CHR '','' \<and> \<not> fst (updateString c prev q) \<and>
          updateDepth c (fst (updateString c prev q)) d = 0
       then andThen (ev (trim cur))
              (\<lambda>v. scanArguments ev cs (Some c) (args @ [v]) [] (updateString c prev q)
                     (updateDepth c (fst (updateString c prev q)) d))
       else scanArguments ev cs (Some c) args (cur @ [c]) (updateString c prev q)
              (updateDepth c (fst (updateString c prev q)) d))"
  by (simp add: Let_def)

lemma scanArguments_cong:
  assumes "agreeBelow (Suc k) ev ev'"
  shows "length cur + length cs \<le> k \<Longrightarrow>
    scanArguments ev cs prev args cur q d = scanArguments ev' cs prev args cur q d"
proof (induction cs arbitrary: prev args cur q d)
  case Nil
  show ?case by simp
next
  case (Cons c cs)
  have cur: "ev (trim cur) = ev' (trim cur)"
    by (rule agreeBelow_trim[OF assms]) (use Cons.prems in simp)
  have a: "scanArguments ev cs p a [] q' d' = scanArguments ev' cs p a [] q' d'" for p a q' d'
    using Cons.prems by (intro Cons.IH) simp
  have b: "scanArguments ev cs p a (cur @ [c]) q' d' = scanArguments ev' cs p a (cur @ [c]) q' d'"
    for p a q' d'
    using Cons.prems by (intro Cons.IH) simp
  show ?case unfolding scanArguments_step cur a b ..
qed

lemma scanArguments_rest:
  "scanArguments ev cs prev args cur q d s = (Inr (args', cur'), s') \<Longrightarrow>
     length cur' \<le> length cur + length cs"
proof (induction cs arbitrary: prev args cur q d s)
  case Nil
  then show ?case by (simp add: ret_def)
next
  case (Cons c cs)
  let ?q = "updateString c prev q"
  let ?d = "updateDepth c (fst ?q) d"
  have step: "scanArguments ev (c # cs) prev args cur q d =
      (if c = CHR '','' \<and> \<not> fst ?q \<and> ?d = 0
       then andThen (ev (trim cur)) (\<lambda>v. scanArguments ev cs (Some c) (args @ [v]) [] ?q ?d)
       else scanArguments ev cs (Some c) args (cur @ [c]) ?q ?d)"
    by (simp add: Let_def)
  show ?case
  proof (cases "c = CHR '','' \<and> \<not> fst ?q \<and> ?d = 0")
    case True
    have e: "andThen (ev (trim cur))
        (\<lambda>v. scanArguments ev cs (Some c) (args @ [v]) [] ?q ?d) s = (Inr (args', cur'), s')"
      using Cons.prems unfolding step if_P[OF True] .
    then obtain v s1 where "scanArguments ev cs (Some c) (args @ [v]) [] ?q ?d s1 = (Inr (args', cur'), s')"
      by (auto simp: andThen_def split: prod.splits sum.splits)
    from Cons.IH[OF this] show ?thesis by simp
  next
    case False
    have "scanArguments ev cs (Some c) args (cur @ [c]) ?q ?d s = (Inr (args', cur'), s')"
      using Cons.prems unfolding step if_not_P[OF False] .
    from Cons.IH[OF this] show ?thesis by simp
  qed
qed

lemma parseArguments_cong:
  assumes "agreeBelow (Suc (length argsString)) ev ev'"
  shows "parseArguments ev argsString = parseArguments ev' argsString"
proof -
  have first: "ev (trim (substring argsString 0 i)) = ev' (trim (substring argsString 0 i))" for i
    by (rule agreeBelow_trim[OF assms]) (rule length_substring)
  have scan: "scanArguments ev argsString None [] [] (False, []) 0 =
      scanArguments ev' argsString None [] [] (False, []) 0"
    by (rule scanArguments_cong[OF assms]) simp
  have rest: "andThen (scanArguments ev' argsString None [] [] (False, []) 0)
          (\<lambda>(args, currentArg).
             if trim currentArg \<noteq> [] then andThen (ev (trim currentArg)) (\<lambda>v. ret (args @ [v]))
             else ret args) =
        andThen (scanArguments ev' argsString None [] [] (False, []) 0)
          (\<lambda>(args, currentArg).
             if trim currentArg \<noteq> [] then andThen (ev' (trim currentArg)) (\<lambda>v. ret (args @ [v]))
             else ret args)"
  proof (rule andThen_cong_result)
    fix v :: "val list \<times> string" and s s'
    assume r: "scanArguments ev' argsString None [] [] (False, []) 0 s = (Inr v, s')"
    obtain args cur where v: "v = (args, cur)" by (cases v)
    from scanArguments_rest[OF r[unfolded v]] have "length cur \<le> length argsString" by simp
    then have "ev (trim cur) = ev' (trim cur)" by (rule agreeBelow_trim[OF assms])
    then show "(case v of (args, currentArg) \<Rightarrow>
             if trim currentArg \<noteq> [] then andThen (ev (trim currentArg)) (\<lambda>v. ret (args @ [v]))
             else ret args) s' =
          (case v of (args, currentArg) \<Rightarrow>
             if trim currentArg \<noteq> [] then andThen (ev' (trim currentArg)) (\<lambda>v. ret (args @ [v]))
             else ret args) s'"
      by (simp add: v)
  qed
  show ?thesis unfolding parseArguments_def Let_def first scan rest ..
qed

lemma collectionCall_cong:
  assumes "agreeBelow (Suc (length argsString)) ev ev'"
  shows "collectionCall ev functionName argsString = collectionCall ev' functionName argsString"
proof -
  have first: "ev (trim (substring argsString 0 i)) = ev' (trim (substring argsString 0 i))" for i
    by (rule agreeBelow_trim[OF assms]) (rule length_substring)
  have pred: "ev (trim (substring (trim (substringFrom argsString i)) 1 j)) =
      ev' (trim (substring (trim (substringFrom argsString i)) 1 j))" for i j
  proof (rule agreeBelow_trim[OF assms])
    have "length (substring (trim (substringFrom argsString i)) 1 j) \<le> length (trim (substringFrom argsString i))"
      by (rule length_substring)
    also have "\<dots> \<le> length (substringFrom argsString i)" by (rule length_trim)
    also have "\<dots> \<le> length argsString" by (simp add: substringFrom_def)
    finally show "length (substring (trim (substringFrom argsString i)) 1 j) \<le> length argsString" .
  qed
  show ?thesis unfolding collectionCall_def Let_def first pred ..
qed

lemma evaluateFunctionCall_cong:
  assumes "agreeBelow (length expr) ev ev'" "includesStr expr ''(''" "endsWith expr '')''"
  shows "evaluateFunctionCall ev expr = evaluateFunctionCall ev' expr"
proof -
  let ?o = "indexOf expr ''(''"
  from indexOf_range[OF assms(2)] have o: "0 \<le> ?o" "?o + 1 \<le> int (length expr)" by simp_all
  from assms(3) obtain u where u: "expr = u @ '')''" unfolding endsWith_iff by blast
  have "?o \<noteq> int (length u)"
  proof
    assume eq: "?o = int (length u)"
    from indexOfAux_at[of "''(''" expr 0 ?o] assms(2) o(1)
    have sw: "startsWith (drop (nat ?o) expr) ''(''" by (simp add: indexOf_def includesStr_def)
    have "drop (nat ?o) expr = '')''" using eq u by simp
    with sw show False by (simp add: startsWith_iff)
  qed
  with o u have lt: "?o + 1 < int (length expr)" by simp
  have short: "length (trim (substring expr (?o + 1) c)) < length expr" for c
  proof -
    have "length (trim (substring expr (?o + 1) c)) \<le> length (substring expr (?o + 1) c)"
      by (rule length_trim)
    also have "\<dots> < length expr" using o(1) lt by (intro length_substring_inner) simp_all
    finally show ?thesis .
  qed
  have ab: "agreeBelow (Suc (length (trim (substring expr (?o + 1) c)))) ev ev'" for c
    using short[of c] by (intro agreeBelow_mono[OF assms(1)]) simp
  show ?thesis unfolding evaluateFunctionCall_def Let_def
    by (simp add: collectionCall_cong[OF ab] parseArguments_cong[OF ab])
qed

lemma primary_cong:
  assumes "agreeBelow (length expr) ev ev'"
  shows "primary ev expr = primary ev' expr"
proof -
  have paren: "ev (substring expr 1 (int (length expr) - 1)) = ev' (substring expr 1 (int (length expr) - 1))"
    if "startsWith expr ''(''" "endsWith expr '')''"
  proof (rule agreeBelow_apply[OF assms])
    from enclosed_length[OF that] have "2 \<le> length expr" by simp
    then show "length (substring expr 1 (int (length expr) - 1)) < length expr"
      by (intro length_substring_inner) simp_all
  qed
  have arr: "mapItems (\<lambda>item. ev (trim item)) (split (trim (substring expr 1 (int (length expr) - 1))) '','') =
       mapItems (\<lambda>item. ev' (trim item)) (split (trim (substring expr 1 (int (length expr) - 1))) '','')"
    if "startsWith expr ''[''" "endsWith expr '']''"
  proof (rule mapItems_cong)
    fix x assume "x \<in> set (split (trim (substring expr 1 (int (length expr) - 1))) '','')"
    from split_piece_length[OF this]
    have "length x \<le> length (trim (substring expr 1 (int (length expr) - 1)))" .
    also have "\<dots> \<le> length (substring expr 1 (int (length expr) - 1))" by (rule length_trim)
    also have "\<dots> < length expr"
    proof -
      from enclosed_length[OF that] have "2 \<le> length expr" by simp
      then show ?thesis by (intro length_substring_inner) simp_all
    qed
    finally have "length (trim x) < length expr" using length_trim[of x] by simp
    then show "ev (trim x) = ev' (trim x)" by (rule agreeBelow_apply[OF assms])
  qed
  have call: "evaluateFunctionCall ev expr = evaluateFunctionCall ev' expr"
    if "includesStr expr ''(''" "endsWith expr '')''"
    using assms that by (rule evaluateFunctionCall_cong)
  show ?thesis unfolding primary_def Let_def
    by (simp add: paren arr call cong: if_cong option.case_cong)
qed

lemma evaluateExpressionStep_cong:
  assumes "agreeBelow (length expr0) ev ev'"
  shows "evaluateExpressionStep ev expr0 s = evaluateExpressionStep ev' expr0 s"
proof (cases "trim expr0 = []")
  case True
  then show ?thesis by (simp add: evaluateExpressionStep_def)
next
  case False
  have ab: "agreeBelow (length (trim expr0)) ev ev'"
    using assms length_trim by (rule agreeBelow_mono)
  note blocks = parenArithmetic_cong[OF ab False] parenLogical_cong[OF ab] primary_cong[OF ab]
    comparisons_cong[OF ab False] arithmetic_cong[OF ab False] logical_cong[OF ab False]
  show ?thesis unfolding evaluateExpressionStep_def Let_def blocks ..
qed

lemma fuelSafe_ret: "fuelSafe (ret v)"
  by (simp add: fuelSafe_def ret_def)

lemma fuelSafe_throw: "fuelSafe (throw m)"
  by (simp add: fuelSafe_def throw_def)

lemma fuelSafe_unmodelled: "fuelSafe (unmodelled m)"
  by (simp add: fuelSafe_def unmodelled_def)

lemma fuelSafe_newArray: "fuelSafe (newArray vs)"
  by (simp add: fuelSafe_def newArray_def)

lemma fuelSafe_computed: "fuelSafe (computed r)"
  by (cases r) (simp_all add: computed_def fuelSafe_ret fuelSafe_unmodelled)

lemma fuelSafe_andThen:
  assumes "fuelSafe m" and "\<And>v. fuelSafe (f v)"
  shows "fuelSafe (andThen m f)"
proof -
  have "fst (andThen m f s) \<noteq> Inl OutOfFuel" for s
  proof (cases "m s")
    case (Pair r s')
    show ?thesis
    proof (cases r)
      case (Inl e)
      have "fst (m s) \<noteq> Inl OutOfFuel" using assms(1) by (simp add: fuelSafe_def)
      with Pair Inl show ?thesis by (simp add: andThen_def)
    next
      case (Inr v)
      have "fst (f v s') \<noteq> Inl OutOfFuel" using assms(2)[of v] by (simp add: fuelSafe_def)
      with Pair Inr show ?thesis by (simp add: andThen_def)
    qed
  qed
  then show ?thesis by (simp add: fuelSafe_def)
qed

lemma fuelSafe_callback:
  assumes "fuelSafe m"
  shows "fuelSafe (andThen (setIt item) (\<lambda>u. finallyDeleteIt m))"
proof -
  have "fst (andThen (setIt item) (\<lambda>u. finallyDeleteIt m) s) \<noteq> Inl OutOfFuel" for s
  proof -
    let ?s1 = "s\<lparr>environment := (environment s)(''@it'' \<mapsto> item)\<rparr>"
    obtain r s2 where m: "m ?s1 = (r, s2)" by (cases "m ?s1")
    have "fst (m ?s1) \<noteq> Inl OutOfFuel" using assms by (simp add: fuelSafe_def)
    then show ?thesis
      by (simp add: andThen_def setIt_def finallyDeleteIt_def deleteIt_def m)
  qed
  then show ?thesis by (simp add: fuelSafe_def)
qed

lemma fuelSafe_mapItems: "(\<And>x. fuelSafe (f x)) \<Longrightarrow> fuelSafe (mapItems f xs)"
  by (induction xs) (auto intro!: fuelSafe_andThen fuelSafe_ret)

lemma fuelSafe_filterItems: "(\<And>x. fuelSafe (f x)) \<Longrightarrow> fuelSafe (filterItems f xs)"
  by (induction xs) (auto intro!: fuelSafe_andThen fuelSafe_ret)

lemma fuelSafe_everyItem: "(\<And>x. fuelSafe (f x)) \<Longrightarrow> fuelSafe (everyItem f xs)"
  by (induction xs) (auto intro!: fuelSafe_andThen fuelSafe_ret)

lemma fuelSafe_someItem: "(\<And>x. fuelSafe (f x)) \<Longrightarrow> fuelSafe (someItem f xs)"
  by (induction xs) (auto intro!: fuelSafe_andThen fuelSafe_ret)

lemma fuelSafe_applyCollectionFunction:
  "(\<And>x. fuelSafe (f x)) \<Longrightarrow> fuelSafe (applyCollectionFunction functionName f items)"
  by (auto simp: applyCollectionFunction_def
      intro!: fuelSafe_andThen fuelSafe_ret fuelSafe_newArray fuelSafe_filterItems
        fuelSafe_everyItem fuelSafe_someItem)

lemma fuelSafe_scanArguments:
  "(\<And>e. fuelSafe (ev e)) \<Longrightarrow> fuelSafe (scanArguments ev cs prev args cur q d)"
proof (induction cs arbitrary: prev args cur q d)
  case Nil
  then show ?case by (simp add: fuelSafe_ret)
next
  case (Cons c cs)
  show ?case
    by (simp add: Let_def) (intro conjI impI fuelSafe_andThen Cons)
qed

lemma fuelSafe_parseArguments:
  "(\<And>e. fuelSafe (ev e)) \<Longrightarrow> fuelSafe (parseArguments ev argsString)"
  by (auto simp: parseArguments_def Let_def split: prod.splits
      intro!: fuelSafe_andThen fuelSafe_ret fuelSafe_throw fuelSafe_scanArguments)

lemma fuelSafe_collectionCall:
  "(\<And>e. fuelSafe (ev e)) \<Longrightarrow> fuelSafe (collectionCall ev functionName argsString)"
  by (auto simp: collectionCall_def Let_def split: val.splits
      intro!: fuelSafe_andThen fuelSafe_ret fuelSafe_throw fuelSafe_applyCollectionFunction
        fuelSafe_callback)

lemma fuelSafe_lenFunction: "fuelSafe (lenFunction args)"
  by (simp add: lenFunction_def fuelSafe_ret fuelSafe_throw split: list.split val.split)

lemma fuelSafe_containsFunction: "fuelSafe (containsFunction args)"
  by (simp add: containsFunction_def fuelSafe_ret fuelSafe_throw split: list.split val.split)

lemma fuelSafe_startsWithFunction: "fuelSafe (startsWithFunction args)"
  by (simp add: startsWithFunction_def fuelSafe_ret fuelSafe_throw split: list.split)

lemma fuelSafe_endsWithFunction: "fuelSafe (endsWithFunction args)"
  by (simp add: endsWithFunction_def fuelSafe_ret fuelSafe_throw split: list.split)

lemma fuelSafe_substringFunction: "fuelSafe (substringFunction args)"
  by (simp add: substringFunction_def fuelSafe_ret fuelSafe_throw split: list.split)

lemma fuelSafe_isEmptyFunction: "fuelSafe (isEmptyFunction args)"
  by (simp add: isEmptyFunction_def fuelSafe_ret fuelSafe_throw split: list.split val.split)

lemma fuelSafe_matchesFunction: "fuelSafe (matchesFunction args)"
  by (simp add: matchesFunction_def fuelSafe_unmodelled fuelSafe_throw split: list.split)

lemma fuelSafe_applyFunction: "fuelSafe (applyFunction functionName args)"
  by (simp add: applyFunction_def fuelSafe_lenFunction fuelSafe_containsFunction
      fuelSafe_startsWithFunction fuelSafe_endsWithFunction fuelSafe_substringFunction
      fuelSafe_isEmptyFunction fuelSafe_matchesFunction fuelSafe_throw)

lemma fuelSafe_evaluateFunctionCall:
  "(\<And>e. fuelSafe (ev e)) \<Longrightarrow> fuelSafe (evaluateFunctionCall ev expr)"
  by (auto simp: evaluateFunctionCall_def Let_def
      intro!: fuelSafe_andThen fuelSafe_ret fuelSafe_collectionCall fuelSafe_parseArguments
        fuelSafe_applyFunction)

lemma fuelSafe_binary: "(\<And>e. fuelSafe (ev e)) \<Longrightarrow> fuelSafe (binary ev l r f)"
  by (simp add: binary_def fuelSafe_andThen fuelSafe_computed)

lemma splitExpression_error: "splitExpression expr operator \<noteq> Inl OutOfFuel"
  by (simp add: splitExpression_def split: option.split)

lemma fuelSafe_splitAt:
  assumes "\<And>l r. fuelSafe (k l r)"
  shows "fuelSafe (splitAt expr operator k)"
proof -
  have "fst (splitAt expr operator k s) \<noteq> Inl OutOfFuel" for s
  proof (cases "splitExpression expr operator")
    case (Inl e)
    with splitExpression_error[of expr operator] show ?thesis by (simp add: splitAt_def)
  next
    case (Inr parts)
    obtain l r where "parts = (l, r)" by (cases parts)
    with Inr assms[of l r] show ?thesis by (simp add: splitAt_def fuelSafe_def)
  qed
  then show ?thesis by (simp add: fuelSafe_def)
qed

lemma allFuelSafe_simps:
  "allFuelSafe None"
  "allFuelSafe (Some act) = fuelSafe act"
  by (simp_all add: allFuelSafe_def)

lemma allFuelSafe_if:
  "(c \<Longrightarrow> allFuelSafe a) \<Longrightarrow> (\<not> c \<Longrightarrow> allFuelSafe b) \<Longrightarrow> allFuelSafe (if c then a else b)"
  by simp

lemma allFuelSafe_first:
  "allFuelSafe a \<Longrightarrow> allFuelSafe b \<Longrightarrow> allFuelSafe (case a of None \<Rightarrow> b | Some act \<Rightarrow> Some act)"
  by (cases a) (simp_all add: allFuelSafe_def)

lemma fuelSafe_itBlock: "allFuelSafe (itBlock expr s)"
  by (simp add: itBlock_def allFuelSafe_simps fuelSafe_ret fuelSafe_throw fuelSafe_computed
      split: option.split)

lemma fuelSafe_parenArithmetic:
  "(\<And>e. fuelSafe (ev e)) \<Longrightarrow> allFuelSafe (parenArithmetic ev expr)"
  by (simp add: parenArithmetic_def Let_def allFuelSafe_simps fuelSafe_andThen
      fuelSafe_computed fuelSafe_throw)

lemma fuelSafe_parenLogical:
  "(\<And>e. fuelSafe (ev e)) \<Longrightarrow> allFuelSafe (parenLogical ev expr)"
  by (simp add: parenLogical_def Let_def allFuelSafe_simps fuelSafe_andThen fuelSafe_ret
      split: option.split)

lemma fuelSafe_arrayAccess: "allFuelSafe (arrayAccess expr)"
proof (cases "matchArrayAccess expr")
  case None
  then show ?thesis by (simp add: arrayAccess_def allFuelSafe_simps)
next
  case (Some m)
  obtain varName ds where m: "m = (varName, ds)" by (cases m)
  have "fst (act s) \<noteq> Inl OutOfFuel"
    if "act = (\<lambda>s. if \<not> inEnvironment varName s then throw (notDefined varName) s
            else (case environment s varName of
                 Some (Arr i items) \<Rightarrow>
                   if parseInt ds \<ge> length items
                   then (if int (parseInt ds) \<le> 9007199254740992
                         then throw (''Index out of bounds: '' @ digitsOfNat (parseInt ds)) s
                         else unmodelled ''number'' s)
                   else ret (items ! parseInt ds) s
               | _ \<Rightarrow> throw (notAnArray varName) s))" for act :: "val action" and s
    unfolding that
    by (simp add: throw_def ret_def unmodelled_def split: option.split val.split)
  then show ?thesis
    by (simp add: arrayAccess_def Some m allFuelSafe_simps fuelSafe_def)
qed

lemma fuelSafe_primary:
  "(\<And>e. fuelSafe (ev e)) \<Longrightarrow> allFuelSafe (primary ev expr)"
  using fuelSafe_arrayAccess[of expr]
  by (cases "arrayAccess expr")
    (simp_all add: primary_def Let_def allFuelSafe_simps fuelSafe_andThen fuelSafe_ret
      fuelSafe_newArray fuelSafe_mapItems fuelSafe_evaluateFunctionCall)

lemma fuelSafe_comparisons:
  "(\<And>e. fuelSafe (ev e)) \<Longrightarrow> allFuelSafe (comparisons ev expr)"
  by (simp add: comparisons_def allFuelSafe_simps fuelSafe_splitAt fuelSafe_binary)

lemma fuelSafe_arithmetic:
  "(\<And>e. fuelSafe (ev e)) \<Longrightarrow> allFuelSafe (arithmetic ev expr)"
  by (simp add: arithmetic_def allFuelSafe_simps fuelSafe_splitAt fuelSafe_binary
      fuelSafe_andThen fuelSafe_computed fuelSafe_throw)

lemma fuelSafe_logical:
  "(\<And>e. fuelSafe (ev e)) \<Longrightarrow> allFuelSafe (logical ev expr)"
  by (simp add: logical_def Let_def allFuelSafe_simps fuelSafe_splitAt fuelSafe_andThen
      fuelSafe_ret)

lemma fuelSafe_atom: "fuelSafe (atom expr)"
  by (simp add: fuelSafe_def atom_def ret_def throw_def unmodelled_def split: option.split)

lemma safe_case:
  "allFuelSafe b \<Longrightarrow> fst d \<noteq> Inl OutOfFuel
    \<Longrightarrow> fst (case b of None \<Rightarrow> d | Some act \<Rightarrow> act s) \<noteq> Inl OutOfFuel"
  by (cases b) (simp_all add: allFuelSafe_def fuelSafe_def)

lemma safe_if:
  "(c \<Longrightarrow> fst a \<noteq> Inl OutOfFuel) \<Longrightarrow> (\<not> c \<Longrightarrow> fst b \<noteq> Inl OutOfFuel)
    \<Longrightarrow> fst (if c then a else b) \<noteq> Inl OutOfFuel"
  by simp

lemma safe_fuelSafe: "fuelSafe act \<Longrightarrow> fst (act s) \<noteq> Inl OutOfFuel"
  by (simp add: fuelSafe_def)

lemma fuelSafe_evaluateExpressionStep:
  assumes ev: "\<And>e. fuelSafe (ev e)"
  shows "fuelSafe (evaluateExpressionStep ev expr0)"
proof -
  have "fst (evaluateExpressionStep ev expr0 s) \<noteq> Inl OutOfFuel" for s
    unfolding evaluateExpressionStep_def Let_def
    by (intro safe_if safe_case allFuelSafe_if allFuelSafe_first allFuelSafe_simps(1)
        fuelSafe_itBlock fuelSafe_parenArithmetic fuelSafe_parenLogical fuelSafe_primary
        fuelSafe_comparisons fuelSafe_arithmetic fuelSafe_logical ev
        safe_fuelSafe fuelSafe_throw fuelSafe_ret fuelSafe_atom)
  then show ?thesis by (simp add: fuelSafe_def)
qed

lemma evaluateExpressionFuel_stable:
  "length expr < n \<Longrightarrow> length expr < m \<Longrightarrow>
     evaluateExpressionFuel n expr = evaluateExpressionFuel m expr"
proof (induction "length expr" arbitrary: expr n m rule: less_induct)
  case less
  from less.prems obtain n' m' where n: "n = Suc n'" and m: "m = Suc m'"
    by (cases n; cases m) simp_all
  have "agreeBelow (length expr) (evaluateExpressionFuel n') (evaluateExpressionFuel m')"
    unfolding agreeBelow_def
  proof (intro allI impI)
    fix e :: string assume e: "length e < length expr"
    with less.prems n m have "length e < n'" "length e < m'" by simp_all
    with e show "evaluateExpressionFuel n' e = evaluateExpressionFuel m' e"
      by (intro less.hyps)
  qed
  then have "evaluateExpressionStep (evaluateExpressionFuel n') expr s =
      evaluateExpressionStep (evaluateExpressionFuel m') expr s" for s
    by (rule evaluateExpressionStep_cong)
  then show ?case unfolding n m by (intro ext) simp
qed

lemma evaluateExpressionFuel_safe:
  "length expr < n \<Longrightarrow> fuelSafe (evaluateExpressionFuel n expr)"
proof (induction "length expr" arbitrary: expr n rule: less_induct)
  case less
  from less.prems obtain n' where n: "n = Suc n'" by (cases n) simp_all
  define ev :: evaluator where
    "ev = (\<lambda>e. if length e < length expr then evaluateExpressionFuel n' e else throw [])"
  have "agreeBelow (length expr) (evaluateExpressionFuel n') ev"
    by (simp add: agreeBelow_def ev_def)
  then have eq: "evaluateExpressionStep (evaluateExpressionFuel n') expr s =
      evaluateExpressionStep ev expr s" for s
    by (rule evaluateExpressionStep_cong)
  have safe: "fuelSafe (ev e)" for e
  proof (cases "length e < length expr")
    case True
    with less.prems n have "length e < n'" by simp
    with True have "fuelSafe (evaluateExpressionFuel n' e)" by (intro less.hyps)
    with True show ?thesis by (simp add: ev_def)
  next
    case False
    then show ?thesis by (simp add: ev_def fuelSafe_throw)
  qed
  have "fuelSafe (evaluateExpressionStep ev expr)"
    by (rule fuelSafe_evaluateExpressionStep) (rule safe)
  then show ?case unfolding n by (simp add: fuelSafe_def eq)
qed

theorem evaluateExpression_fuel:
  "fst (evaluateExpression expr s) \<noteq> Inl OutOfFuel"
  "length expr < n \<Longrightarrow> evaluateExpressionFuel n expr s = evaluateExpression expr s"
proof -
  have "fuelSafe (evaluateExpressionFuel (Suc (length expr)) expr)"
    by (rule evaluateExpressionFuel_safe) simp
  then show "fst (evaluateExpression expr s) \<noteq> Inl OutOfFuel"
    by (simp add: fuelSafe_def evaluateExpression_def)
  show "evaluateExpressionFuel n expr s = evaluateExpression expr s" if "length expr < n"
    using evaluateExpressionFuel_stable[OF that, of "Suc (length expr)"]
    by (simp add: evaluateExpression_def)
qed

subsection \<open>An operator between two variables\<close>

text \<open>The text \<^verbatim>\<open>a OP b\<close> for two names and one of the operators \<^verbatim>\<open>==\<close>, \<^verbatim>\<open>!=\<close>, \<^verbatim>\<open>+\<close>,
  \<^verbatim>\<open>-\<close>, \<^verbatim>\<open>*\<close>, \<^verbatim>\<open>/\<close>: no block of \<^verbatim>\<open>_evaluateExpression\<close> before the comparisons
  takes it, \<^verbatim>\<open>_splitExpression\<close> gives back the two names, and each name evaluates to the
  value that it is bound to.\<close>

lemma isIdentifier_chars:
  assumes "isIdentifier x"
  shows "\<exists>c cs. x = c # cs \<and> isIdentStart c \<and> list_all isIdentChar cs"
proof (cases x)
  case Nil
  with assms show ?thesis by (simp add: isIdentifier_def readIdentifier_def)
next
  case (Cons c cs)
  have c: "isIdentStart c"
  proof (rule ccontr)
    assume "\<not> isIdentStart c"
    with assms Cons show False by (simp add: isIdentifier_def readIdentifier_def)
  qed
  have "dropWhile isIdentChar cs = []"
  proof (rule ccontr)
    assume "dropWhile isIdentChar cs \<noteq> []"
    with assms Cons c show False
      by (simp add: isIdentifier_def readIdentifier_def split: list.splits)
  qed
  then have "list_all isIdentChar cs"
    by (simp add: dropWhile_eq_Nil_conv list_all_iff)
  with Cons c show ?thesis by simp
qed

lemma name_chars: "isIdentifier x \<Longrightarrow> c \<in> set x \<Longrightarrow> isIdentChar c"
  using isIdentifier_chars[of x] by (auto simp: list_all_iff isIdentChar_def)

lemma name_first: "isIdentifier x \<Longrightarrow> x \<noteq> [] \<and> isIdentStart (hd x)"
  using isIdentifier_chars[of x] by auto

lemma name_last: "isIdentifier x \<Longrightarrow> isIdentChar (last x)"
  using isIdentifier_chars[of x] name_chars[of x "last x"] by auto

lemma identChar_not_space: "isIdentChar c \<Longrightarrow> \<not> isWhiteSpace c"
  by (auto simp: isWhiteSpace_def isIdentChar_def isIdentStart_def isDigit_def)

lemma notIdentChar:
  "\<not> isIdentChar CHR ''=''" "\<not> isIdentChar CHR ''!''" "\<not> isIdentChar CHR ''<''"
  "\<not> isIdentChar CHR ''>''" "\<not> isIdentChar CHR ''+''" "\<not> isIdentChar CHR ''-''"
  "\<not> isIdentChar CHR ''*''" "\<not> isIdentChar CHR ''/''" "\<not> isIdentChar CHR ''&''"
  "\<not> isIdentChar CHR ''|''" "\<not> isIdentChar CHR ''(''" "\<not> isIdentChar CHR '')''"
  "\<not> isIdentChar CHR ''[''" "\<not> isIdentChar CHR ''@''" "\<not> isIdentChar CHR '' ''"
  "\<not> isIdentChar CHR '';''" "\<not> isIdentChar (CHR 0x22)" "\<not> isIdentChar (CHR 0x27)"
  by (simp_all add: isIdentChar_def isIdentStart_def isDigit_def)

lemma includesStr_char: "includesStr s (c # p) \<Longrightarrow> c \<in> set s"
  by (auto simp: includesStr_iff)

lemma includesStr_Cons_eq:
  "includesStr (x # xs) (c # p) = (startsWith (x # xs) (c # p) \<or> includesStr xs (c # p))"
proof (cases "startsWith (x # xs) (c # p)")
  case True
  then show ?thesis by (simp add: includesStr_def indexOf_def)
next
  case False
  have "indexOfAux (c # p) xs 1 \<noteq> - 1 \<longleftrightarrow> indexOfAux (c # p) xs 0 \<noteq> - 1"
    by (simp add: indexOfAux_found)
  with False show ?thesis by (auto simp: includesStr_def indexOf_def)
qed

lemma includesStr_skip:
  "c \<notin> set a \<Longrightarrow> includesStr (a @ r) (c # p) = includesStr r (c # p)"
  by (induction a) (auto simp: includesStr_Cons_eq)

lemma includesStr_none: "c \<notin> set x \<Longrightarrow> includesStr x (c # p) = False"
  using includesStr_char[of x c p] by blast

lemma trim_pad:
  assumes "list_all isWhiteSpace w1" "list_all isWhiteSpace w2" "x \<noteq> []"
    "\<not> isWhiteSpace (hd x)" "\<not> isWhiteSpace (last x)"
  shows "trim (w1 @ x @ w2) = x"
proof -
  have 1: "dropWhile isWhiteSpace (w1 @ x @ w2) = x @ w2"
  proof -
    have "dropWhile isWhiteSpace (w1 @ x @ w2) = dropWhile isWhiteSpace (x @ w2)"
      using assms(1) by (intro dropWhile_append2) (simp add: list_all_iff)
    also have "\<dots> = x @ w2" using assms(3,4) by (cases x) simp_all
    finally show ?thesis .
  qed
  have 2: "dropWhile isWhiteSpace (rev w2 @ rev x) = rev x"
  proof -
    have "dropWhile isWhiteSpace (rev w2 @ rev x) = dropWhile isWhiteSpace (rev x)"
      using assms(2) by (intro dropWhile_append2) (simp add: list_all_iff)
    also have "\<dots> = rev x" using assms(3,5) by (cases x rule: rev_cases) simp_all
    finally show ?thesis .
  qed
  show ?thesis by (simp add: trim_def 1 2)
qed

lemma trim_name: "isIdentifier x \<Longrightarrow> trim x = x"
  using trim_pad[of "[]" "[]" x] name_first[of x] name_last[of x]
  by (simp add: identChar_not_space isIdentChar_def)

lemma substring_prefix: "substring (u @ v) 0 (int (length u)) = u"
  by (simp add: substring_def Let_def)

lemma substringFrom_suffix: "substringFrom (u @ v) (int (length u)) = v"
  by (simp add: substringFrom_def)

lemma arrayAccess_none: "CHR ''['' \<notin> set e \<Longrightarrow> arrayAccess e = None"
proof (rule ccontr)
  assume no: "CHR ''['' \<notin> set e" and "arrayAccess e \<noteq> None"
  then have "matchArrayAccess e \<noteq> None"
    by (cases "matchArrayAccess e") (simp_all add: arrayAccess_def)
  then obtain name r1 r2 where "readIdentifier e = Some (name, r1)" "expect ''['' r1 = Some r2"
    by (auto simp: matchArrayAccess_def split: option.splits)
  then have "e = name @ ''['' @ r2"
    using readIdentifier_Some[of e name r1] expect_Some[of "''[''" r1 r2] by simp
  with no show False by simp
qed

lemma collectionShortcut_none: "CHR ''('' \<notin> set e \<Longrightarrow> collectionShortcut e s = None"
proof (rule ccontr)
  assume no: "CHR ''('' \<notin> set e" and "collectionShortcut e s \<noteq> None"
  then have "isCollectionCall e" by (auto simp: collectionShortcut_def split: if_splits)
  from isCollectionCall_shape[OF this] no show False by auto
qed

lemma isStringComparison_first: "e \<noteq> [] \<Longrightarrow> hd e \<noteq> q \<Longrightarrow> \<not> isStringComparison q e"
  by (cases e) (simp_all add: isStringComparison_def readQuoted_def)

lemma startsWith_char: "startsWith e (c # p) \<Longrightarrow> e \<noteq> [] \<and> hd e = c"
  by (cases e) simp_all

lemma evaluateExpressionStep_plain:
  assumes "trim e = e" "e \<noteq> []" "CHR ''@'' \<notin> set e" "CHR ''('' \<notin> set e" "CHR ''['' \<notin> set e"
    "hd e \<noteq> CHR 0x22" "hd e \<noteq> CHR 0x27" "e \<notin> set [''true'', ''True'', ''false'', ''False'']"
  shows "evaluateExpressionStep ev e s =
     (case comparisons ev e of
        Some act \<Rightarrow> act s
      | None \<Rightarrow>
          (case arithmetic ev e of
             Some act \<Rightarrow> act s
           | None \<Rightarrow> (case logical ev e of Some act \<Rightarrow> act s | None \<Rightarrow> atom e s)))"
proof -
  have "e \<noteq> ''@it''" using assms(3) by auto
  then have it: "itBlock e s = None"
    using assms(3) by (simp add: itBlock_def includesStr_none)
  have lit: "e \<noteq> ''true''" "e \<noteq> ''True''" "e \<noteq> ''false''" "e \<noteq> ''False''"
    using assms(8) by simp_all
  have par: "includesStr e ''('' = False" using assms(4) by (rule includesStr_none)
  have sw: "startsWith e ''('' = False" "startsWith e ''['' = False"
    "startsWith e [CHR 0x22] = False" "startsWith e [CHR 0x27] = False"
    using assms(2,4,5,6,7) startsWith_char[of e] by (auto dest: hd_in_set)
  have prim: "primary ev e = None"
    by (simp add: primary_def sw par arrayAccess_none[OF assms(5)])
  show ?thesis
    by (simp add: evaluateExpressionStep_def Let_def assms(1,2) it lit par prim)
qed

lemma name_plain:
  assumes "isIdentifier x"
  shows "trim x = x" "x \<noteq> []" "\<not> isIdentChar c \<Longrightarrow> c \<notin> set x"
    "hd x \<noteq> CHR 0x22" "hd x \<noteq> CHR 0x27" "\<not> isWhiteSpace (hd x)" "\<not> isWhiteSpace (last x)"
    "isIdentChar (hd x)"
proof -
  show "trim x = x" using assms by (rule trim_name)
  show ne: "x \<noteq> []" using name_first[OF assms] by simp
  show "c \<notin> set x" if "\<not> isIdentChar c" using that name_chars[OF assms] by blast
  show hd: "isIdentChar (hd x)" using name_first[OF assms] by (simp add: isIdentChar_def)
  then show "hd x \<noteq> CHR 0x22" "hd x \<noteq> CHR 0x27" using notIdentChar by auto
  show "\<not> isWhiteSpace (hd x)" using hd by (rule identChar_not_space)
  show "\<not> isWhiteSpace (last x)" using name_last[OF assms] by (rule identChar_not_space)
qed

lemma evaluateExpressionStep_name:
  "isIdentifier x \<Longrightarrow> x \<notin> set [''true'', ''True'', ''false'', ''False''] \<Longrightarrow>
     evaluateExpressionStep ev x s = atom x s"
proof -
  assume x: "isIdentifier x" and lit: "x \<notin> set [''true'', ''True'', ''false'', ''False'']"
  note p = name_plain[OF x]
  have no: "\<And>c p. \<not> isIdentChar c \<Longrightarrow> includesStr x (c # p) = False"
    using p(3) by (simp add: includesStr_none)
  have sw: "startsWith x ''-'' = False" "startsWith x ''!'' = False" "startsWith x ''not '' = False"
  proof -
    show "startsWith x ''-'' = False" "startsWith x ''!'' = False"
      using startsWith_char[of x] p(8) notIdentChar by auto
    have "CHR '' '' \<notin> set x" using p(3) notIdentChar by simp
    then show "startsWith x ''not '' = False" by (auto simp: startsWith_iff)
  qed
  have c: "comparisons ev x = None" by (simp add: comparisons_def no notIdentChar)
  have a: "arithmetic ev x = None" by (simp add: arithmetic_def no notIdentChar)
  have l: "logical ev x = None" by (simp add: logical_def no notIdentChar sw)
  have "evaluateExpressionStep ev x s =
     (case comparisons ev x of
        Some act \<Rightarrow> act s
      | None \<Rightarrow>
          (case arithmetic ev x of
             Some act \<Rightarrow> act s
           | None \<Rightarrow> (case logical ev x of Some act \<Rightarrow> act s | None \<Rightarrow> atom x s)))"
    using p(1,2) p(3)[of "CHR ''@''"] p(3)[of "CHR ''(''"] p(3)[of "CHR ''[''"] p(4,5) lit
    by (intro evaluateExpressionStep_plain) (simp_all add: notIdentChar)
  then show ?thesis by (simp add: c a l)
qed

lemma atom_name:
  assumes "plainName x" "environment s x = Some v"
  shows "atom x s = (Inr v, s)"
  using assms by (simp add: atom_def plainName_def inEnvironment_def ret_def)

lemma evaluateExpressionFuel_name:
  assumes "plainName x" "environment s x = Some v"
  shows "evaluateExpressionFuel (Suc n) x s = (Inr v, s)"
  using assms evaluateExpressionStep_name[of x "evaluateExpressionFuel n" s] atom_name[OF assms]
  by (simp add: plainName_def)

lemma splitScan_Cons:
  "splitScan operator expr (c # cs) i prev q parenDepth =
     (if \<not> fst (updateString c prev q) \<and>
         updateDepth c (fst (updateString c prev q)) parenDepth = 0 \<and> startsWith (c # cs) operator
      then Some (trim (substring expr 0 i), trim (substringFrom expr (i + int (length operator))))
      else splitScan operator expr cs (i + 1) (Some c) (updateString c prev q)
             (updateDepth c (fst (updateString c prev q)) parenDepth))"
  by (simp add: Let_def)

lemma updateString_plain: "c \<noteq> CHR 0x22 \<Longrightarrow> c \<noteq> CHR 0x27 \<Longrightarrow> updateString c prev q = q"
  by (simp add: updateString_def)

lemma updateDepth_plain: "c \<noteq> CHR ''('' \<Longrightarrow> c \<noteq> CHR '')'' \<Longrightarrow> updateDepth c inString d = d"
  by (simp add: updateDepth_def)

lemma splitScan_plain:
  assumes "c \<noteq> CHR 0x22" "c \<noteq> CHR 0x27" "c \<noteq> CHR ''(''" "c \<noteq> CHR '')''"
  shows "splitScan operator expr (c # cs) i prev (False, []) 0 =
     (if startsWith (c # cs) operator
      then Some (trim (substring expr 0 i), trim (substringFrom expr (i + int (length operator))))
      else splitScan operator expr cs (i + 1) (Some c) (False, []) 0)"
  unfolding splitScan_Cons updateString_plain[OF assms(1,2)] updateDepth_plain[OF assms(3,4)]
  by simp

lemma identChar_plain:
  assumes "isIdentChar c"
  shows "c \<noteq> CHR 0x22" "c \<noteq> CHR 0x27" "c \<noteq> CHR ''(''" "c \<noteq> CHR '')''"
  using assms notIdentChar by auto

lemma splitScan_skip:
  assumes "\<not> isIdentChar h"
  shows "list_all isIdentChar a \<Longrightarrow>
     \<exists>prev'. splitScan (h # hs) expr (a @ r) i prev (False, []) 0 =
       splitScan (h # hs) expr r (i + int (length a)) prev' (False, []) 0"
proof (induction a arbitrary: i prev)
  case Nil
  show ?case by (intro exI[of _ prev]) simp
next
  case (Cons c cs)
  then have c: "isIdentChar c" and cs: "list_all isIdentChar cs" by simp_all
  from c assms have ne: "c \<noteq> h" by auto
  have s1: "splitScan (h # hs) expr (c # cs @ r) i prev (False, []) 0 =
      (if startsWith (c # cs @ r) (h # hs)
       then Some (trim (substring expr 0 i), trim (substringFrom expr (i + int (length (h # hs)))))
       else splitScan (h # hs) expr (cs @ r) (i + 1) (Some c) (False, []) 0)"
    by (rule splitScan_plain[OF identChar_plain[OF c]])
  have s2: "startsWith (c # cs @ r) (h # hs) = False" using ne by simp
  have s3: "splitScan (h # hs) expr ((c # cs) @ r) i prev (False, []) 0 =
      splitScan (h # hs) expr (cs @ r) (i + 1) (Some c) (False, []) 0"
    unfolding append_Cons s1 s2 by (rule if_False)
  have len: "i + int (length (c # cs)) = i + 1 + int (length cs)" by simp
  show ?case unfolding s3 len by (rule Cons.IH[OF cs])
qed

lemma splitExpression_names:
  assumes a: "isIdentifier a" and b: "isIdentifier b" and op: "plainOperator operator"
  shows "splitExpression (a @ '' '' @ operator @ '' '' @ b) operator = Inr (a, b)"
proof -
  let ?e = "a @ '' '' @ operator @ '' '' @ b"
  from op obtain h hs where h: "operator = h # hs" and hi: "\<not> isIdentChar h"
    and hw: "h \<noteq> CHR '' ''"
    and hq: "h \<noteq> CHR 0x22" "h \<noteq> CHR 0x27" "h \<noteq> CHR ''(''" "h \<noteq> CHR '')''"
    and nop: "CHR ''('' \<notin> set operator"
    by (cases operator) (auto simp: plainOperator_def isWhiteSpace_def)
  note pa = name_plain[OF a] and pb = name_plain[OF b]
  have par: "includesStr ?e ''('' = False"
    using pa(3)[of "CHR ''(''"] pb(3)[of "CHR ''(''"] nop
    by (intro includesStr_none) (simp add: notIdentChar)
  have la: "list_all isIdentChar a" using name_chars[OF a] by (simp add: list_all_iff)
  from splitScan_skip[OF hi la, of hs ?e "'' '' @ operator @ '' '' @ b" 0 None]
  obtain prev' where
    1: "splitScan operator ?e ?e 0 None (False, []) 0 =
        splitScan operator ?e ('' '' @ operator @ '' '' @ b) (int (length a)) prev' (False, []) 0"
    by (auto simp: h)
  have 2: "splitScan operator ?e ('' '' @ operator @ '' '' @ b) (int (length a)) prev' (False, []) 0 =
      splitScan operator ?e (operator @ '' '' @ b) (int (length a) + 1) (Some CHR '' '') (False, []) 0"
  proof -
    have "splitScan operator ?e (CHR '' '' # operator @ '' '' @ b) (int (length a)) prev' (False, []) 0 =
      (if startsWith (CHR '' '' # operator @ '' '' @ b) operator
       then Some (trim (substring ?e 0 (int (length a))),
                  trim (substringFrom ?e (int (length a) + int (length operator))))
       else splitScan operator ?e (operator @ '' '' @ b) (int (length a) + 1) (Some CHR '' '')
              (False, []) 0)"
      by (rule splitScan_plain) simp_all
    moreover have "\<not> startsWith (CHR '' '' # operator @ '' '' @ b) operator"
      using hw by (simp add: h)
    ultimately show ?thesis by simp
  qed
  have 3: "splitScan operator ?e (operator @ '' '' @ b) (int (length a) + 1) (Some CHR '' '') (False, []) 0 =
      Some (trim (substring ?e 0 (int (length a) + 1)),
            trim (substringFrom ?e (int (length a) + 1 + int (length operator))))"
  proof -
    have sw: "startsWith (h # hs @ '' '' @ b) (h # hs)" by (simp add: startsWith_iff)
    show ?thesis
      unfolding h append_Cons splitScan_plain[OF hq] using sw by simp
  qed
  have 4: "substring ?e 0 (int (length a) + 1) = a @ '' ''"
    using substring_prefix[of "a @ '' ''" "operator @ '' '' @ b"] by (simp add: add.commute)
  have 5: "substringFrom ?e (int (length a) + 1 + int (length operator)) = '' '' @ b"
  proof -
    have "int (length a) + 1 + int (length operator) = int (length (a @ '' '' @ operator))"
      by simp
    then show ?thesis
      using substringFrom_suffix[of "a @ '' '' @ operator" "'' '' @ b"] by (simp only: append_assoc)
  qed
  have 6: "trim (a @ '' '') = a"
    using trim_pad[of "[]" "'' ''" a] pa by (simp add: isWhiteSpace_def)
  have 7: "trim ('' '' @ b) = b"
    using trim_pad[of "'' ''" "[]" b] pb by (simp add: isWhiteSpace_def)
  have scan: "splitScan operator ?e ?e 0 None (False, []) 0 = Some (a, b)"
    by (simp only: 1 2 3 4 5 6 7)
  have cond: "(operator = ''*'' \<and> includesStr ?e ''('' \<and> includesStr ?e '')'') = False"
    by (simp only: par simp_thms)
  show ?thesis by (simp only: splitExpression_def cond if_False option.case scan)
qed

lemma names_text:
  assumes a: "isIdentifier a" and b: "isIdentifier b" and op: "plainOperator operator"
  shows "trim (a @ '' '' @ operator @ '' '' @ b) = a @ '' '' @ operator @ '' '' @ b"
    "a @ '' '' @ operator @ '' '' @ b \<noteq> []"
    "hd (a @ '' '' @ operator @ '' '' @ b) \<noteq> CHR 0x22"
    "hd (a @ '' '' @ operator @ '' '' @ b) \<noteq> CHR 0x27"
    "a @ '' '' @ operator @ '' '' @ b \<notin> set [''true'', ''True'', ''false'', ''False'']"
    "\<not> isIdentChar c \<Longrightarrow> c \<noteq> CHR '' '' \<Longrightarrow> c \<notin> set operator \<Longrightarrow>
       c \<notin> set (a @ '' '' @ operator @ '' '' @ b)"
proof -
  let ?e = "a @ '' '' @ operator @ '' '' @ b"
  note pa = name_plain[OF a] and pb = name_plain[OF b]
  have hd: "hd ?e = hd a" using pa(2) by simp
  have last: "last ?e = last b" using pb(2) by simp
  show "trim ?e = ?e"
    using trim_pad[of "[]" "[]" ?e] pa(6) pb(7) by (simp only: hd last) simp
  show "?e \<noteq> []" using pa(2) by simp
  show "hd ?e \<noteq> CHR 0x22" unfolding hd by (rule pa(4))
  show "hd ?e \<noteq> CHR 0x27" unfolding hd by (rule pa(5))
  have sp: "CHR '' '' \<in> set ?e" by simp
  have ne: "?e \<noteq> l" if "CHR '' '' \<notin> set l" for l
  proof
    assume "?e = l"
    then have "set ?e = set l" by (rule arg_cong)
    with sp that show False by blast
  qed
  have "?e \<noteq> ''true''" "?e \<noteq> ''True''" "?e \<noteq> ''false''" "?e \<noteq> ''False''"
    by (rule ne, simp)+
  then show "?e \<notin> set [''true'', ''True'', ''false'', ''False'']" by (simp only: set_simps insert_iff empty_iff simp_thms not_False_eq_True)
  show "c \<notin> set ?e" if "\<not> isIdentChar c" "c \<noteq> CHR '' ''" "c \<notin> set operator"
    using that pa(3)[of c] pb(3)[of c] by simp
qed

lemma evaluateExpressionStep_names:
  assumes a: "isIdentifier a" and b: "isIdentifier b" and op: "plainOperator operator"
    and "CHR ''@'' \<notin> set operator" "CHR ''['' \<notin> set operator"
  shows "evaluateExpressionStep ev (a @ '' '' @ operator @ '' '' @ b) s =
     (case comparisons ev (a @ '' '' @ operator @ '' '' @ b) of
        Some act \<Rightarrow> act s
      | None \<Rightarrow>
          (case arithmetic ev (a @ '' '' @ operator @ '' '' @ b) of
             Some act \<Rightarrow> act s
           | None \<Rightarrow>
               (case logical ev (a @ '' '' @ operator @ '' '' @ b) of
                  Some act \<Rightarrow> act s
                | None \<Rightarrow> atom (a @ '' '' @ operator @ '' '' @ b) s)))"
proof -
  note t = names_text[OF a b op]
  have "CHR ''('' \<notin> set operator" using op by (auto simp: plainOperator_def)
  then show ?thesis
    using assms(4,5) t(1-5)
    by (intro evaluateExpressionStep_plain t(6)) (simp_all add: notIdentChar)
qed

lemma names_includes:
  assumes a: "isIdentifier a" and b: "isIdentifier b"
  shows "\<not> isIdentChar c \<Longrightarrow> includesStr (a @ r) (c # p) = includesStr r (c # p)"
    "\<not> isIdentChar c \<Longrightarrow> includesStr b (c # p) = False"
  using name_plain(3)[OF a] name_plain(3)[OF b] by (simp_all add: includesStr_skip includesStr_none)

lemma names_first: "isIdentifier a \<Longrightarrow> \<not> isIdentChar c \<Longrightarrow> startsWith (a @ r) (c # p) = False"
  using name_plain(2,8)[of a] by (cases a) auto

lemmas names_simps = includesStr_Cons_eq notIdentChar

lemma binary_names:
  assumes "ev a s = (Inr va, s)" "ev b s = (Inr vb, s)"
  shows "binary ev a b f s = computed (f va vb) s"
  using assms by (simp add: binary_def andThen_def)

lemma step_equal:
  assumes a: "isIdentifier a" and b: "isIdentifier b"
    and "ev a s = (Inr va, s)" "ev b s = (Inr vb, s)"
  shows "evaluateExpressionStep ev (a @ '' == '' @ b) s = (Inr (Bool (strictEquals va vb)), s)"
proof -
  let ?e = "a @ '' '' @ ''=='' @ '' '' @ b"
  have op: "plainOperator ''==''" by (simp add: plainOperator_def names_simps isWhiteSpace_def)
  note i = names_includes[OF a b]
  note bn = binary_names[of ev a s va b vb, OF assms(3,4)]
  have c: "comparisons ev ?e = Some (splitAt ?e ''=='' (\<lambda>l r. binary ev l r (\<lambda>x y. Some (Bool (strictEquals x y)))))"
    by (simp add: comparisons_def i names_simps)
  have sp: "splitExpression ?e ''=='' = Inr (a, b)"
    using a b op by (rule splitExpression_names)
  have st: "evaluateExpressionStep ev ?e s =
     (case comparisons ev ?e of
        Some act \<Rightarrow> act s
      | None \<Rightarrow>
          (case arithmetic ev ?e of
             Some act \<Rightarrow> act s
           | None \<Rightarrow> (case logical ev ?e of Some act \<Rightarrow> act s | None \<Rightarrow> atom ?e s)))"
    using a b op by (rule evaluateExpressionStep_names) simp_all
  have "evaluateExpressionStep ev ?e s = (Inr (Bool (strictEquals va vb)), s)"
    by (simp only: st c option.case splitAt_def sp sum.case prod.case bn computed_def ret_def)
  then show ?thesis by simp
qed

lemma step_unequal:
  assumes a: "isIdentifier a" and b: "isIdentifier b"
    and "ev a s = (Inr va, s)" "ev b s = (Inr vb, s)"
  shows "evaluateExpressionStep ev (a @ '' != '' @ b) s = (Inr (Bool (\<not> strictEquals va vb)), s)"
proof -
  let ?e = "a @ '' '' @ ''!='' @ '' '' @ b"
  have op: "plainOperator ''!=''" by (simp add: plainOperator_def names_simps isWhiteSpace_def)
  note i = names_includes[OF a b]
  note bn = binary_names[of ev a s va b vb, OF assms(3,4)]
  have c: "comparisons ev ?e = Some (splitAt ?e ''!='' (\<lambda>l r. binary ev l r (\<lambda>x y. Some (Bool (\<not> strictEquals x y)))))"
    by (simp add: comparisons_def i names_simps)
  have sp: "splitExpression ?e ''!='' = Inr (a, b)"
    using a b op by (rule splitExpression_names)
  have st: "evaluateExpressionStep ev ?e s =
     (case comparisons ev ?e of
        Some act \<Rightarrow> act s
      | None \<Rightarrow>
          (case arithmetic ev ?e of
             Some act \<Rightarrow> act s
           | None \<Rightarrow> (case logical ev ?e of Some act \<Rightarrow> act s | None \<Rightarrow> atom ?e s)))"
    using a b op by (rule evaluateExpressionStep_names) simp_all
  have "evaluateExpressionStep ev ?e s = (Inr (Bool (\<not> strictEquals va vb)), s)"
    by (simp only: st c option.case splitAt_def sp sum.case prod.case bn computed_def ret_def)
  then show ?thesis by simp
qed

lemma step_plus:
  assumes a: "isIdentifier a" and b: "isIdentifier b"
    and "ev a s = (Inr va, s)" "ev b s = (Inr vb, s)"
  shows "evaluateExpressionStep ev (a @ '' + '' @ b) s = computed (jsAdd va vb) s"
proof -
  let ?e = "a @ '' '' @ ''+'' @ '' '' @ b"
  have op: "plainOperator ''+''" by (simp add: plainOperator_def names_simps isWhiteSpace_def)
  note i = names_includes[OF a b]
  note bn = binary_names[of ev a s va b vb, OF assms(3,4)]
  have c: "comparisons ev ?e = None"
    by (simp add: comparisons_def i names_simps)
  have ar: "arithmetic ev ?e = Some (splitAt ?e ''+'' (\<lambda>l r. binary ev l r jsAdd))"
    by (simp add: arithmetic_def i names_simps names_first[OF a])
  have sp: "splitExpression ?e ''+'' = Inr (a, b)"
    using a b op by (rule splitExpression_names)
  have st: "evaluateExpressionStep ev ?e s =
     (case comparisons ev ?e of
        Some act \<Rightarrow> act s
      | None \<Rightarrow>
          (case arithmetic ev ?e of
             Some act \<Rightarrow> act s
           | None \<Rightarrow> (case logical ev ?e of Some act \<Rightarrow> act s | None \<Rightarrow> atom ?e s)))"
    using a b op by (rule evaluateExpressionStep_names) simp_all
  have "evaluateExpressionStep ev ?e s = computed (jsAdd va vb) s"
    by (simp only: st c ar option.case splitAt_def sp sum.case prod.case bn)
  then show ?thesis by simp
qed

lemma step_minus:
  assumes a: "isIdentifier a" and b: "isIdentifier b"
    and "ev a s = (Inr va, s)" "ev b s = (Inr vb, s)"
  shows "evaluateExpressionStep ev (a @ '' - '' @ b) s = computed (jsSub va vb) s"
proof -
  let ?e = "a @ '' '' @ ''-'' @ '' '' @ b"
  have op: "plainOperator ''-''" by (simp add: plainOperator_def names_simps isWhiteSpace_def)
  note i = names_includes[OF a b]
  note bn = binary_names[of ev a s va b vb, OF assms(3,4)]
  have c: "comparisons ev ?e = None"
    by (simp add: comparisons_def i names_simps)
  have ar: "arithmetic ev ?e = Some (splitAt ?e ''-'' (\<lambda>l r. binary ev l r jsSub))"
    by (simp add: arithmetic_def i names_simps names_first[OF a])
  have sp: "splitExpression ?e ''-'' = Inr (a, b)"
    using a b op by (rule splitExpression_names)
  have st: "evaluateExpressionStep ev ?e s =
     (case comparisons ev ?e of
        Some act \<Rightarrow> act s
      | None \<Rightarrow>
          (case arithmetic ev ?e of
             Some act \<Rightarrow> act s
           | None \<Rightarrow> (case logical ev ?e of Some act \<Rightarrow> act s | None \<Rightarrow> atom ?e s)))"
    using a b op by (rule evaluateExpressionStep_names) simp_all
  have "evaluateExpressionStep ev ?e s = computed (jsSub va vb) s"
    by (simp only: st c ar option.case splitAt_def sp sum.case prod.case bn)
  then show ?thesis by simp
qed

lemma step_times:
  assumes a: "isIdentifier a" and b: "isIdentifier b"
    and "ev a s = (Inr va, s)" "ev b s = (Inr vb, s)"
  shows "evaluateExpressionStep ev (a @ '' * '' @ b) s = computed (jsMul va vb) s"
proof -
  let ?e = "a @ '' '' @ ''*'' @ '' '' @ b"
  have op: "plainOperator ''*''" by (simp add: plainOperator_def names_simps isWhiteSpace_def)
  note i = names_includes[OF a b]
  note bn = binary_names[of ev a s va b vb, OF assms(3,4)]
  have c: "comparisons ev ?e = None"
    by (simp add: comparisons_def i names_simps)
  have ar: "arithmetic ev ?e = Some (splitAt ?e ''*'' (\<lambda>l r. binary ev l r jsMul))"
    by (simp add: arithmetic_def i names_simps names_first[OF a])
  have sp: "splitExpression ?e ''*'' = Inr (a, b)"
    using a b op by (rule splitExpression_names)
  have st: "evaluateExpressionStep ev ?e s =
     (case comparisons ev ?e of
        Some act \<Rightarrow> act s
      | None \<Rightarrow>
          (case arithmetic ev ?e of
             Some act \<Rightarrow> act s
           | None \<Rightarrow> (case logical ev ?e of Some act \<Rightarrow> act s | None \<Rightarrow> atom ?e s)))"
    using a b op by (rule evaluateExpressionStep_names) simp_all
  have "evaluateExpressionStep ev ?e s = computed (jsMul va vb) s"
    by (simp only: st c ar option.case splitAt_def sp sum.case prod.case bn)
  then show ?thesis by simp
qed

lemma step_divide:
  assumes a: "isIdentifier a" and b: "isIdentifier b"
    and "ev a s = (Inr va, s)" "ev b s = (Inr vb, s)"
  shows "evaluateExpressionStep ev (a @ '' / '' @ b) s = (if strictEquals vb (Num (Fin 0)) then throw ''Division by zero'' s
      else computed (jsDiv va vb) s)"
proof -
  let ?e = "a @ '' '' @ ''/'' @ '' '' @ b"
  have op: "plainOperator ''/''" by (simp add: plainOperator_def names_simps isWhiteSpace_def)
  note i = names_includes[OF a b]
  note bn = binary_names[of ev a s va b vb, OF assms(3,4)]
  have c: "comparisons ev ?e = None"
    by (simp add: comparisons_def i names_simps)
  have ar: "arithmetic ev ?e = Some (splitAt ?e ''/'' (\<lambda>l r.
          andThen (ev r) (\<lambda>rightValue.
            if strictEquals rightValue (Num (Fin 0)) then throw ''Division by zero''
            else andThen (ev l) (\<lambda>leftValue. computed (jsDiv leftValue rightValue)))))"
    by (simp add: arithmetic_def i names_simps names_first[OF a])
  have sp: "splitExpression ?e ''/'' = Inr (a, b)"
    using a b op by (rule splitExpression_names)
  have st: "evaluateExpressionStep ev ?e s =
     (case comparisons ev ?e of
        Some act \<Rightarrow> act s
      | None \<Rightarrow>
          (case arithmetic ev ?e of
             Some act \<Rightarrow> act s
           | None \<Rightarrow> (case logical ev ?e of Some act \<Rightarrow> act s | None \<Rightarrow> atom ?e s)))"
    using a b op by (rule evaluateExpressionStep_names) simp_all
  have "evaluateExpressionStep ev ?e s = (if strictEquals vb (Num (Fin 0)) then throw ''Division by zero'' s
      else computed (jsDiv va vb) s)"
    by (simp only: st c ar option.case splitAt_def sp sum.case prod.case) (simp add: andThen_def assms(3,4))
  then show ?thesis by simp
qed

lemma evaluate_names:
  assumes a: "isIdentifier a" and b: "isIdentifier b" and op: "plainOperator operator"
    and "CHR '';'' \<notin> set operator"
    and "\<not> isAssignment (a @ '' '' @ operator @ '' '' @ b)"
  shows "evaluate s (a @ '' '' @ operator @ '' '' @ b) =
     report ''Error evaluating expression: '' (evaluateExpression (a @ '' '' @ operator @ '' '' @ b) s)"
proof -
  let ?e = "a @ '' '' @ operator @ '' '' @ b"
  note t = names_text[OF a b op]
  have 1: "trim ?e \<noteq> []" using t(1,2) by (simp only:) simp
  have 2: "\<not> isStringComparison (CHR 0x22) ?e" "\<not> isStringComparison (CHR 0x27) ?e"
    using t(2,3,4) by (simp_all only: isStringComparison_first not_False_eq_True)
  have "CHR '';'' \<notin> set ?e" using assms(4) by (intro t(6)) (simp_all add: notIdentChar)
  then have 3: "includesStr ?e '';'' = False" by (rule includesStr_none)
  have "CHR ''('' \<notin> set operator" using op by (auto simp: plainOperator_def)
  then have "CHR ''('' \<notin> set ?e" by (intro t(6)) (simp_all add: notIdentChar)
  then have 4: "collectionShortcut ?e s = None" by (rule collectionShortcut_none)
  have 5: "evaluateStatement ?e s = evaluateExpression ?e s"
    using evaluateStatement_expression[of ?e s] assms(5) by (simp only: t(1)) simp
  show ?thesis
    by (simp only: evaluate_def 1 2 3 4 5 if_False simp_thms option.case)
qed

lemma names_not_assignment:
  assumes a: "isIdentifier a" and b: "isIdentifier b"
  shows "\<not> isAssignment (a @ '' == '' @ b)" "\<not> isAssignment (a @ '' != '' @ b)"
    "\<not> isAssignment (a @ '' + '' @ b)" "\<not> isAssignment (a @ '' - '' @ b)"
    "\<not> isAssignment (a @ '' * '' @ b)" "\<not> isAssignment (a @ '' / '' @ b)"
  using names_includes[OF a b] by (simp_all add: isAssignment_def names_simps)

lemma plainOperators:
  "plainOperator ''==''" "plainOperator ''!=''" "plainOperator ''+''" "plainOperator ''-''"
  "plainOperator ''*''" "plainOperator ''/''"
  by (simp_all add: plainOperator_def names_simps isWhiteSpace_def)

lemma evaluate_names_operators:
  assumes a: "isIdentifier a" and b: "isIdentifier b"
  shows
    "evaluate s (a @ '' == '' @ b) =
       report ''Error evaluating expression: '' (evaluateExpression (a @ '' == '' @ b) s)"
    "evaluate s (a @ '' != '' @ b) =
       report ''Error evaluating expression: '' (evaluateExpression (a @ '' != '' @ b) s)"
    "evaluate s (a @ '' + '' @ b) =
       report ''Error evaluating expression: '' (evaluateExpression (a @ '' + '' @ b) s)"
    "evaluate s (a @ '' - '' @ b) =
       report ''Error evaluating expression: '' (evaluateExpression (a @ '' - '' @ b) s)"
    "evaluate s (a @ '' * '' @ b) =
       report ''Error evaluating expression: '' (evaluateExpression (a @ '' * '' @ b) s)"
    "evaluate s (a @ '' / '' @ b) =
       report ''Error evaluating expression: '' (evaluateExpression (a @ '' / '' @ b) s)"
  using evaluate_names[OF a b plainOperators(1), of s] evaluate_names[OF a b plainOperators(2), of s]
    evaluate_names[OF a b plainOperators(3), of s] evaluate_names[OF a b plainOperators(4), of s]
    evaluate_names[OF a b plainOperators(5), of s] evaluate_names[OF a b plainOperators(6), of s]
    names_not_assignment[OF a b]
  by simp_all

lemma fuel_names:
  assumes "plainName a" "plainName b" "environment s a = Some va" "environment s b = Some vb"
  shows "evaluateExpressionFuel (length (a @ w @ b)) a s = (Inr va, s)"
    "evaluateExpressionFuel (length (a @ w @ b)) b s = (Inr vb, s)"
proof -
  have "a \<noteq> []" using assms(1) name_first[of a] by (simp add: plainName_def)
  then obtain k where k: "length (a @ w @ b) = Suc k" by (cases a) simp_all
  show "evaluateExpressionFuel (length (a @ w @ b)) a s = (Inr va, s)"
    unfolding k using assms(1,3) by (rule evaluateExpressionFuel_name)
  show "evaluateExpressionFuel (length (a @ w @ b)) b s = (Inr vb, s)"
    unfolding k using assms(2,4) by (rule evaluateExpressionFuel_name)
qed

lemma evaluateExpression_names:
  assumes "plainName a" "plainName b" "environment s a = Some va" "environment s b = Some vb"
  shows
    "evaluateExpression (a @ '' == '' @ b) s = (Inr (Bool (strictEquals va vb)), s)"
    "evaluateExpression (a @ '' != '' @ b) s = (Inr (Bool (\<not> strictEquals va vb)), s)"
    "evaluateExpression (a @ '' + '' @ b) s = computed (jsAdd va vb) s"
    "evaluateExpression (a @ '' - '' @ b) s = computed (jsSub va vb) s"
    "evaluateExpression (a @ '' * '' @ b) s = computed (jsMul va vb) s"
    "evaluateExpression (a @ '' / '' @ b) s =
       (if strictEquals vb (Num (Fin 0)) then throw ''Division by zero'' s
        else computed (jsDiv va vb) s)"
proof -
  have a: "isIdentifier a" and b: "isIdentifier b" using assms(1,2) by (simp_all add: plainName_def)
  note f = fuel_names[OF assms]
  show "evaluateExpression (a @ '' == '' @ b) s = (Inr (Bool (strictEquals va vb)), s)"
    unfolding evaluateExpression_def evaluateExpressionFuel.simps
    using a b f[of "'' == ''"] by (rule step_equal)
  show "evaluateExpression (a @ '' != '' @ b) s = (Inr (Bool (\<not> strictEquals va vb)), s)"
    unfolding evaluateExpression_def evaluateExpressionFuel.simps
    using a b f[of "'' != ''"] by (rule step_unequal)
  show "evaluateExpression (a @ '' + '' @ b) s = computed (jsAdd va vb) s"
    unfolding evaluateExpression_def evaluateExpressionFuel.simps
    using a b f[of "'' + ''"] by (rule step_plus)
  show "evaluateExpression (a @ '' - '' @ b) s = computed (jsSub va vb) s"
    unfolding evaluateExpression_def evaluateExpressionFuel.simps
    using a b f[of "'' - ''"] by (rule step_minus)
  show "evaluateExpression (a @ '' * '' @ b) s = computed (jsMul va vb) s"
    unfolding evaluateExpression_def evaluateExpressionFuel.simps
    using a b f[of "'' * ''"] by (rule step_times)
  show "evaluateExpression (a @ '' / '' @ b) s =
       (if strictEquals vb (Num (Fin 0)) then throw ''Division by zero'' s
        else computed (jsDiv va vb) s)"
    unfolding evaluateExpression_def evaluateExpressionFuel.simps
    using a b f[of "'' / ''"] by (rule step_divide)
qed


lemma report_computed:
  "fst (report prefix (computed r s)) \<noteq> Failure m"
  by (cases r) (simp_all add: report_def computed_def ret_def unmodelled_def split: option.split)

section \<open>The claims\<close>

subsection \<open>C1: the iteration variable\<close>

text \<open>Claim C1, as stated, fails. The iteration variable is a key of the session
  environment like any other: the statement \<^verbatim>\<open>@it = 5\<close> binds it, after which \<^verbatim>\<open>@it\<close>
  evaluates to \<^verbatim>\<open>"5"\<close> with no predicate being evaluated; and the collection call inside
  the predicate of \<^verbatim>\<open>filter(myCollection, {@it && any(myCollection, {@it}) && @it})\<close>
  deletes the one binding on its exit, so that the reference to \<^verbatim>\<open>@it\<close> after it fails.\<close>

theorem it_counterexample:
  "environment (snd (evaluate newSession ''@it = 5'')) ''@it'' = Some (Num (Fin 5)) \<and>
   fst (evaluate (snd (evaluate newSession ''@it = 5'')) ''@it'') = Success ''5'' \<and>
   fst (evaluate newSession ''filter(myCollection, {@it && any(myCollection, {@it}) && @it})'') =
     Failure (''Error evaluating filter(): '' @ itUnavailable)"
proof -
  have "environment (snd (evaluate newSession ''@it = 5'')) ''@it'' = Some (Num (Fin 5))"
    by code_simp
  moreover have "fst (evaluate (snd (evaluate newSession ''@it = 5'')) ''@it'') = Success ''5''"
    by code_simp
  moreover have
    "fst (evaluate newSession ''filter(myCollection, {@it && any(myCollection, {@it}) && @it})'') =
       Failure (''Error evaluating filter(): '' @ itUnavailable)"
    by code_simp
  ultimately show ?thesis by simp
qed

text \<open>Claim C1, amended. The iteration variable is kept in the session environment under
  the key \<^verbatim>\<open>@it\<close>. Evaluating an expression with \<^verbatim>\<open>_evaluateExpression\<close>, the collection
  calls of \<^verbatim>\<open>_evaluateFunctionCall\<close> included, changes the binding of no other name and
  leaves \<^verbatim>\<open>@it\<close> bound as before or unbound, whether the evaluation succeeds or fails.
  While \<^verbatim>\<open>@it\<close> is unbound, every expression whose text contains \<^verbatim>\<open>@it\<close> fails with the
  error that the variable is only available within predicates, in the same session; so does
  \<^verbatim>\<open>evaluate("@it")\<close>.\<close>

theorem it_in_environment:
  "keepsNames s (snd (evaluateExpression e s)) \<and>
   (environment s ''@it'' = None \<and> includesStr e ''@it'' \<longrightarrow>
      evaluateExpression e s = (Inl (Thrown itUnavailable), s)) \<and>
   (environment s ''@it'' = None \<longrightarrow>
      evaluate s ''@it'' = (Failure (''Error evaluating expression: '' @ itUnavailable), s))"
proof -
  have "keepsNames s (snd (evaluateExpression e s))"
    using framed_evaluateExpression[of e] by (simp add: framed_def)
  moreover have "evaluateExpression e s = (Inl (Thrown itUnavailable), s)"
    if "environment s ''@it'' = None" "includesStr e ''@it''"
  proof -
    have "\<not> isWhiteSpace CHR ''@''" "\<not> isWhiteSpace CHR ''t''"
      by (simp_all add: isWhiteSpace_def)
    then have "includesStr (trim e) ''@it''"
      using that(2) by (subst includesStr_trim) simp_all
    with that(1) show ?thesis
      unfolding evaluateExpression_def by (rule it_unbound_throws)
  qed
  moreover have "evaluate s ''@it'' = (Failure (''Error evaluating expression: '' @ itUnavailable), s)"
    if "environment s ''@it'' = None"
    using that by (rule evaluate_it_unbound)
  ultimately show ?thesis by (intro conjI impI) auto
qed

theorem it_in_environment_witness:
  "keepsNames newSession (snd (evaluateExpression ''len(myCollection) > @it'' newSession)) \<and>
   evaluateExpression ''len(myCollection) > @it'' newSession = (Inl (Thrown itUnavailable), newSession) \<and>
   evaluate newSession ''@it'' = (Failure (''Error evaluating expression: '' @ itUnavailable), newSession)"
proof -
  have 1: "environment newSession ''@it'' = None" by (simp add: newSession_def)
  have 2: "includesStr ''len(myCollection) > @it'' ''@it''" by code_simp
  from it_in_environment[of newSession "''len(myCollection) > @it''"] 1 2
  show ?thesis by blast
qed

subsection \<open>C2: short-circuit evaluation\<close>

text \<open>Claim C2, at the input of the claim. The text \<^verbatim>\<open>false && (1/0 == 0)\<close> contains a
  parenthesis and ends with one, so \<^verbatim>\<open>_evaluateExpression\<close> takes it for a call of a
  function named \<^verbatim>\<open>false &&\<close> and evaluates the argument \<^verbatim>\<open>1/0 == 0\<close> before it looks at
  the name: the division by zero is raised, where the claim has the result \<^verbatim>\<open>"False"\<close>.\<close>

theorem evaluate_false_and_division:
  "fst (evaluate newSession ''false && (1/0 == 0)'') =
     Failure ''Error evaluating expression: Division by zero''"
  by code_simp

subsection \<open>C3: the form of a collection call\<close>




subsection \<open>C4: equality\<close>




subsection \<open>C5: arithmetic\<close>

text \<open>Claim C5, as stated, fails: \<^verbatim>\<open>+\<close> on two strings concatenates them.\<close>

theorem arithmetic_counterexample:
  \<open>fst (evaluate newSession ''x = "a"; x + x'') = Success ''"aa"''\<close>
  by code_simp

text \<open>Claim C5, amended. The arithmetic operators are those of JavaScript, applied to the
  values of the operands with no check of their kinds. For two variables \<open>a\<close> and \<open>b\<close>
  (identifiers, bound in the session, that are neither boolean literals nor read as
  numbers), \<^verbatim>\<open>a + b\<close>, \<^verbatim>\<open>a - b\<close> and \<^verbatim>\<open>a * b\<close> give the result of the operator of
  JavaScript on the two values and never fail, whatever the kinds: \<^verbatim>\<open>+\<close> on two strings is
  their concatenation. For \<^verbatim>\<open>a / b\<close> the value of \<open>b\<close> is compared with the number \<open>0\<close>
  first: when it is equal the evaluation fails with \<^verbatim>\<open>Division by zero\<close>, otherwise the
  result is that of \<^verbatim>\<open>/\<close>. \<^verbatim>\<open>evaluate("6 / 0")\<close> fails so, \<^verbatim>\<open>evaluate("6 / 3")\<close> gives
  \<^verbatim>\<open>"2"\<close>. (Where JavaScript rounds the result, the model gives no result.)\<close>

theorem arithmetic_unchecked:
  "(plainName a \<and> plainName b \<and> environment s a = Some va \<and> environment s b = Some vb \<longrightarrow>
      evaluate s (a @ '' + '' @ b) =
        report ''Error evaluating expression: '' (computed (jsAdd va vb) s) \<and>
      evaluate s (a @ '' - '' @ b) =
        report ''Error evaluating expression: '' (computed (jsSub va vb) s) \<and>
      evaluate s (a @ '' * '' @ b) =
        report ''Error evaluating expression: '' (computed (jsMul va vb) s) \<and>
      (\<forall>m. fst (evaluate s (a @ '' + '' @ b)) \<noteq> Failure m \<and>
           fst (evaluate s (a @ '' - '' @ b)) \<noteq> Failure m \<and>
           fst (evaluate s (a @ '' * '' @ b)) \<noteq> Failure m) \<and>
      evaluate s (a @ '' / '' @ b) =
        (if strictEquals vb (Num (Fin 0))
         then (Failure ''Error evaluating expression: Division by zero'', s)
         else report ''Error evaluating expression: '' (computed (jsDiv va vb) s))) \<and>
   (plainName c \<and> plainName d \<and> environment s2 c = Some (Str t) \<and>
    environment s2 d = Some (Str u) \<longrightarrow>
      evaluate s2 (c @ '' + '' @ d) = (Success ([CHR 0x22] @ t @ u @ [CHR 0x22]), s2)) \<and>
   fst (evaluate newSession ''6 / 0'') = Failure ''Error evaluating expression: Division by zero'' \<and>
   fst (evaluate newSession ''6 / 3'') = Success ''2''"
proof -
  have c1: "plainName a \<and> plainName b \<and> environment s a = Some va \<and> environment s b = Some vb \<longrightarrow>
      evaluate s (a @ '' + '' @ b) =
        report ''Error evaluating expression: '' (computed (jsAdd va vb) s) \<and>
      evaluate s (a @ '' - '' @ b) =
        report ''Error evaluating expression: '' (computed (jsSub va vb) s) \<and>
      evaluate s (a @ '' * '' @ b) =
        report ''Error evaluating expression: '' (computed (jsMul va vb) s) \<and>
      (\<forall>m. fst (evaluate s (a @ '' + '' @ b)) \<noteq> Failure m \<and>
           fst (evaluate s (a @ '' - '' @ b)) \<noteq> Failure m \<and>
           fst (evaluate s (a @ '' * '' @ b)) \<noteq> Failure m) \<and>
      evaluate s (a @ '' / '' @ b) =
        (if strictEquals vb (Num (Fin 0))
         then (Failure ''Error evaluating expression: Division by zero'', s)
         else report ''Error evaluating expression: '' (computed (jsDiv va vb) s))"
  proof (intro impI, elim conjE)
    assume h: "plainName a" "plainName b" "environment s a = Some va" "environment s b = Some vb"
    then have a: "isIdentifier a" and b: "isIdentifier b" by (simp_all add: plainName_def)
    have plus: "evaluate s (a @ '' + '' @ b) =
        report ''Error evaluating expression: '' (computed (jsAdd va vb) s)"
      using evaluate_names_operators(3)[OF a b, of s] evaluateExpression_names(3)[OF h]
      by simp
    have minus: "evaluate s (a @ '' - '' @ b) =
        report ''Error evaluating expression: '' (computed (jsSub va vb) s)"
      using evaluate_names_operators(4)[OF a b, of s] evaluateExpression_names(4)[OF h]
      by simp
    have times: "evaluate s (a @ '' * '' @ b) =
        report ''Error evaluating expression: '' (computed (jsMul va vb) s)"
      using evaluate_names_operators(5)[OF a b, of s] evaluateExpression_names(5)[OF h]
      by simp
    have divide: "evaluate s (a @ '' / '' @ b) =
        (if strictEquals vb (Num (Fin 0))
         then (Failure ''Error evaluating expression: Division by zero'', s)
         else report ''Error evaluating expression: '' (computed (jsDiv va vb) s))"
      using evaluate_names_operators(6)[OF a b, of s] evaluateExpression_names(6)[OF h]
      by (simp add: report_def throw_def)
    have never: "\<forall>m. fst (evaluate s (a @ '' + '' @ b)) \<noteq> Failure m \<and>
           fst (evaluate s (a @ '' - '' @ b)) \<noteq> Failure m \<and>
           fst (evaluate s (a @ '' * '' @ b)) \<noteq> Failure m"
      unfolding plus minus times by (intro allI conjI report_computed)
    from plus minus times never divide
    show "evaluate s (a @ '' + '' @ b) =
        report ''Error evaluating expression: '' (computed (jsAdd va vb) s) \<and>
      evaluate s (a @ '' - '' @ b) =
        report ''Error evaluating expression: '' (computed (jsSub va vb) s) \<and>
      evaluate s (a @ '' * '' @ b) =
        report ''Error evaluating expression: '' (computed (jsMul va vb) s) \<and>
      (\<forall>m. fst (evaluate s (a @ '' + '' @ b)) \<noteq> Failure m \<and>
           fst (evaluate s (a @ '' - '' @ b)) \<noteq> Failure m \<and>
           fst (evaluate s (a @ '' * '' @ b)) \<noteq> Failure m) \<and>
      evaluate s (a @ '' / '' @ b) =
        (if strictEquals vb (Num (Fin 0))
         then (Failure ''Error evaluating expression: Division by zero'', s)
         else report ''Error evaluating expression: '' (computed (jsDiv va vb) s))"
      by (intro conjI)
  qed
  have c2: "plainName c \<and> plainName d \<and> environment s2 c = Some (Str t) \<and>
    environment s2 d = Some (Str u) \<longrightarrow>
      evaluate s2 (c @ '' + '' @ d) = (Success ([CHR 0x22] @ t @ u @ [CHR 0x22]), s2)"
  proof (intro impI, elim conjE)
    assume h: "plainName c" "plainName d" "environment s2 c = Some (Str t)"
      "environment s2 d = Some (Str u)"
    then have a: "isIdentifier c" and b: "isIdentifier d" by (simp_all add: plainName_def)
    show "evaluate s2 (c @ '' + '' @ d) = (Success ([CHR 0x22] @ t @ u @ [CHR 0x22]), s2)"
      using evaluate_names_operators(3)[OF a b, of s2] evaluateExpression_names(3)[OF h]
      by (simp add: report_def jsAdd_def toPrimitive_def computed_def ret_def)
  qed
  have c3: "fst (evaluate newSession ''6 / 0'') = Failure ''Error evaluating expression: Division by zero''"
    by code_simp
  have c4: "fst (evaluate newSession ''6 / 3'') = Success ''2''"
    by code_simp
  show ?thesis
    by (intro conjI) (rule c1, rule c2, rule c3, rule c4)
qed

theorem arithmetic_unchecked_witness:
  \<open>evaluate (snd (evaluate newSession ''x = "a"; y = "b"'')) ''x + y'' =
     (Success ''"ab"'', snd (evaluate newSession ''x = "a"; y = "b"'')) \<and>
   evaluate (snd (evaluate newSession ''x = "a"; y = "b"'')) ''x - y'' =
     (Success ''NaN'', snd (evaluate newSession ''x = "a"; y = "b"'')) \<and>
   evaluate (snd (evaluate newSession ''x = 6; y = 0'')) ''x / y'' =
     (Failure ''Error evaluating expression: Division by zero'',
      snd (evaluate newSession ''x = 6; y = 0'')) \<and>
   evaluate (snd (evaluate newSession ''x = 6; y = 0'')) ''x * y'' =
     (Success ''0'', snd (evaluate newSession ''x = 6; y = 0''))\<close>
proof -
  let ?s = \<open>snd (evaluate newSession ''x = "a"; y = "b"'')\<close>
  let ?t = "snd (evaluate newSession ''x = 6; y = 0'')"
  have 1: "plainName ''x''" "plainName ''y''" by code_simp+
  have 2: "environment ?s ''x'' = Some (Str ''a'')" "environment ?s ''y'' = Some (Str ''b'')"
    by code_simp+
  have 3: "environment ?t ''x'' = Some (Num (Fin 6))" "environment ?t ''y'' = Some (Num (Fin 0))"
    by code_simp+
  have 4: "jsSub (Str ''a'') (Str ''b'') = Some (Num NaN)" by code_simp
  have 5: "jsMul (Num (Fin 6)) (Num (Fin 0)) = Some (Num (Fin 0))" by code_simp
  have 6: "numberToString (Fin 0) = Some ''0''" by code_simp
  have 7: "strictEquals (Num (Fin 0)) (Num (Fin 0))" by (simp add: numEq_def)
  note S = arithmetic_unchecked[where a = "''x''" and b = "''y''" and s = ?s
      and va = "Str ''a''" and vb = "Str ''b''"
      and c = "''x''" and d = "''y''" and ?s2.0 = ?s and t = "''a''" and u = "''b''"]
  note T = arithmetic_unchecked[where a = "''x''" and b = "''y''" and s = ?t
      and va = "Num (Fin 6)" and vb = "Num (Fin 0)"]
  note S1 = S[THEN conjunct1, rule_format, OF conjI[OF 1(1) conjI[OF 1(2) conjI[OF 2(1) 2(2)]]]]
  note S2 = S[THEN conjunct2, THEN conjunct1, rule_format,
      OF conjI[OF 1(1) conjI[OF 1(2) conjI[OF 2(1) 2(2)]]]]
  note T1 = T[THEN conjunct1, rule_format, OF conjI[OF 1(1) conjI[OF 1(2) conjI[OF 3(1) 3(2)]]]]
  have a: \<open>evaluate ?s ''x + y'' = (Success ''"ab"'', ?s)\<close>
    using S2 by simp
  have b: "evaluate ?s ''x - y'' = (Success ''NaN'', ?s)"
    using S1[THEN conjunct2, THEN conjunct1]
    by (simp add: 4 report_def computed_def ret_def numberToString_def)
  have c: "evaluate ?t ''x / y'' = (Failure ''Error evaluating expression: Division by zero'', ?t)"
    using T1[THEN conjunct2, THEN conjunct2, THEN conjunct2, THEN conjunct2] 7 by simp
  have d: "evaluate ?t ''x * y'' = (Success ''0'', ?t)"
    using T1[THEN conjunct2, THEN conjunct2, THEN conjunct1]
    by (simp add: 5 6 report_def computed_def ret_def)
  from a b c d show ?thesis by (intro conjI)
qed

subsection \<open>C6: precedence and associativity\<close>

text \<open>Claim C6, at the inputs of the claim. \<^verbatim>\<open>_splitExpression\<close> splits at the first
  occurrence of the operator, so \<^verbatim>\<open>10 - 2 - 3\<close> is evaluated as \<open>10 - (2 - 3)\<close>: the
  result is \<^verbatim>\<open>"11"\<close>, where the claim has \<^verbatim>\<open>"5"\<close>. The two examples of precedence give the
  results of the claim.\<close>

theorem evaluate_subtraction_chain:
  "fst (evaluate newSession ''10 - 2 - 3'') = Success ''11'' \<and>
   fst (evaluate newSession ''2 + 3 * 4'') = Success ''14'' \<and>
   fst (evaluate newSession ''(2 + 3) * 4'') = Success ''20''"
proof -
  have "fst (evaluate newSession ''10 - 2 - 3'') = Success ''11''"
    by code_simp
  moreover have "fst (evaluate newSession ''2 + 3 * 4'') = Success ''14''"
    by code_simp
  moreover have "fst (evaluate newSession ''(2 + 3) * 4'') = Success ''20''"
    by code_simp
  ultimately show ?thesis by simp
qed

subsection \<open>C7: assignments\<close>

text \<open>Claim C7, as stated, fails: the statement \<^verbatim>\<open>x = 5 == 3\<close> contains \<^verbatim>\<open>==\<close>, is not
  taken for an assignment, fails as an expression and binds nothing.\<close>

theorem assignment_counterexample:
  "fst (evaluate newSession ''x = 5 == 3'') =
     Failure ''Error evaluating expression: Unknown expression: x = 5'' \<and>
   environment (snd (evaluate newSession ''x = 5 == 3'')) ''x'' = None"
proof -
  have "fst (evaluate newSession ''x = 5 == 3'') =
     Failure ''Error evaluating expression: Unknown expression: x = 5''"
    by code_simp
  moreover have "environment (snd (evaluate newSession ''x = 5 == 3'')) ''x'' = None"
    by code_simp
  ultimately show ?thesis by simp
qed

text \<open>Claim C7, amended. A statement is an assignment exactly when its text contains
  \<^verbatim>\<open>=\<close> and contains none of \<^verbatim>\<open>==\<close>, \<^verbatim>\<open>!=\<close>, \<^verbatim>\<open><=\<close>, \<^verbatim>\<open>>=\<close> anywhere (a test on
  substrings). So a statement with one of these operators is never an assignment: it is
  evaluated as an expression and changes the binding of no name but, at most, \<^verbatim>\<open>@it\<close>. The
  text of an assignment, split at \<^verbatim>\<open>=\<close>, has two pieces at least; the first is the name
  (it is not checked to be an identifier), the second the expression, and when that
  evaluates to a value the name is bound to it and the value is the statement's.\<close>

theorem assignment_by_substring:
  "(includesStr st ''=='' \<or> includesStr st ''!='' \<or> includesStr st ''<='' \<or> includesStr st ''>='' \<longrightarrow>
      evaluateStatement st s = evaluateExpression (trim st) s \<and>
      keepsNames s (snd (evaluateStatement st s))) \<and>
   (isAssignment (trim asg) \<longrightarrow>
      (\<exists>name valueExpr rest. map trim (split (trim asg) ''='') = name # valueExpr # rest)) \<and>
   (isAssignment (trim asg) \<and> map trim (split (trim asg) ''='') = name # valueExpr # rest \<and>
    evaluateExpression valueExpr s0 = (Inr v, s1) \<and> name \<noteq> ''__proto__'' \<longrightarrow>
      evaluateStatement asg s0 = (Inr v, s1\<lparr>environment := (environment s1)(name \<mapsto> v)\<rparr>))"
proof -
  have "evaluateStatement st s = evaluateExpression (trim st) s \<and>
      keepsNames s (snd (evaluateStatement st s))"
    if "includesStr st ''=='' \<or> includesStr st ''!='' \<or> includesStr st ''<='' \<or> includesStr st ''>=''"
    using operators_not_assignment[OF that] evaluateStatement_expression[of st s]
      evaluateStatement_keeps[of st s]
    by simp
  moreover have "\<exists>name valueExpr rest. map trim (split (trim asg) ''='') = name # valueExpr # rest"
    if "isAssignment (trim asg)"
    using that by (rule assignment_pieces)
  moreover have "evaluateStatement asg s0 = (Inr v, s1\<lparr>environment := (environment s1)(name \<mapsto> v)\<rparr>)"
    if "isAssignment (trim asg)" "map trim (split (trim asg) ''='') = name # valueExpr # rest"
      "evaluateExpression valueExpr s0 = (Inr v, s1)" "name \<noteq> ''__proto__''"
    using that by (rule evaluateStatement_assignment)
  ultimately show ?thesis by (intro conjI impI) auto
qed

theorem assignment_by_substring_witness:
  "evaluateStatement ''x = 5 == 3'' newSession = evaluateExpression (trim ''x = 5 == 3'') newSession \<and>
   keepsNames newSession (snd (evaluateStatement ''x = 5 == 3'' newSession)) \<and>
   evaluateStatement ''y = 7'' newSession =
     (Inr (Num (Fin 7)),
      (snd (evaluateExpression ''7'' newSession))
        \<lparr>environment := (environment (snd (evaluateExpression ''7'' newSession)))(''y'' \<mapsto> Num (Fin 7))\<rparr>)"
proof -
  let ?s1 = "snd (evaluateExpression ''7'' newSession)"
  have 1: "includesStr ''x = 5 == 3'' ''==''" by code_simp
  have 2: "isAssignment (trim ''y = 7'')" by code_simp
  have 3: "map trim (split (trim ''y = 7'') ''='') = ''y'' # ''7'' # []" by code_simp
  have 4: "evaluateExpression ''7'' newSession = (Inr (Num (Fin 7)), ?s1)"
  proof (rule prod_eqI)
    show "fst (evaluateExpression ''7'' newSession) = fst (Inr (Num (Fin 7)), ?s1)"
      by code_simp
  qed simp
  have 5: "''y'' \<noteq> ''__proto__''" by simp
  note T = assignment_by_substring[where st = "''x = 5 == 3''" and s = newSession
      and asg = "''y = 7''" and name = "''y''" and valueExpr = "''7''" and rest = "[]"
      and ?s0.0 = newSession and v = "Num (Fin 7)" and ?s1.0 = ?s1]
  from T 1 2 3 4 5 show ?thesis by blast
qed

subsection \<open>C8: sequences of statements\<close>

text \<open>Claim C8, at inputs with a sequence. \<^verbatim>\<open>evaluate\<close> splits the text at every
  semicolon, also at one inside a string literal, and gives each piece to
  \<^verbatim>\<open>_evaluateStatement\<close>, which has neither of the two special cases that \<^verbatim>\<open>evaluate\<close> has
  for a text without semicolon. So \<^verbatim>\<open>x = "a;b"; x\<close> fails, where the claim has the value of
  \<^verbatim>\<open>x\<close>; \<^verbatim>\<open>x = 1; filter(myCollection, {@it > 1})\<close> fails, where the last statement alone
  gives \<^verbatim>\<open>"[2, 3]"\<close>; and \<^verbatim>\<open>x = 1; "abc" == "abc"\<close> gives the text of its last statement as
  a string, where that statement alone gives \<^verbatim>\<open>"True"\<close>. The two examples of the claim give
  the results of the claim.\<close>

theorem evaluate_sequence_pieces:
  \<open>fst (evaluate newSession ''x = "a;b"; x'') =
     Failure ''Error evaluating expression: Unknown expression: "a'' \<and>
   fst (evaluate newSession ''x = 1; filter(myCollection, {@it > 1})'') =
     Failure (''Error evaluating expression: '' @ itUnavailable) \<and>
   fst (evaluate newSession ''filter(myCollection, {@it > 1})'') = Success ''[2, 3]'' \<and>
   fst (evaluate newSession ''x = 1; "abc" == "abc"'') = Success ''"abc" == "abc"'' \<and>
   fst (evaluate newSession ''"abc" == "abc"'') = Success ''True'' \<and>
   fst (evaluate newSession ''x = 5; y = 10; x + y'') = Success ''15'' \<and>
   fst (evaluate newSession ''x = 5; undefinedVar'') =
     Failure (''Error evaluating expression: '' @ notDefined ''undefinedVar'') \<and>
   environment (snd (evaluate newSession ''x = 5; undefinedVar'')) ''x'' = Some (Num (Fin 5))\<close>
proof -
  have c1: \<open>fst (evaluate newSession ''x = "a;b"; x'') =
     Failure ''Error evaluating expression: Unknown expression: "a''\<close>
    by code_simp
  have c2: "fst (evaluate newSession ''x = 1; filter(myCollection, {@it > 1})'') =
     Failure (''Error evaluating expression: '' @ itUnavailable)"
    by code_simp
  have c3: "fst (evaluate newSession ''filter(myCollection, {@it > 1})'') = Success ''[2, 3]''"
    by code_simp
  have c4: \<open>fst (evaluate newSession ''x = 1; "abc" == "abc"'') = Success ''"abc" == "abc"''\<close>
    by code_simp
  have c5: \<open>fst (evaluate newSession ''"abc" == "abc"'') = Success ''True''\<close>
    by code_simp
  have c6: "fst (evaluate newSession ''x = 5; y = 10; x + y'') = Success ''15''"
    by code_simp
  have c7: "fst (evaluate newSession ''x = 5; undefinedVar'') =
     Failure (''Error evaluating expression: '' @ notDefined ''undefinedVar'')"
    by code_simp
  have c8: "environment (snd (evaluate newSession ''x = 5; undefinedVar'')) ''x'' = Some (Num (Fin 5))"
    by code_simp
  show ?thesis
    by (intro conjI) (rule c1, rule c2, rule c3, rule c4, rule c5, rule c6, rule c7, rule c8)
qed

subsection \<open>C9: unrecognised characters\<close>

text \<open>Claim C9, at the input of the claim. No branch before the numeric literals takes the
  text \<^verbatim>\<open>5 @@ 3\<close>, and \<^verbatim>\<open>parseFloat\<close> reads the number at its start and ignores the rest:
  the evaluation succeeds with \<^verbatim>\<open>"5"\<close>, where the claim has a failure.\<close>

theorem evaluate_unrecognised_characters:
  "fst (evaluate newSession ''5 @@ 3'') = Success ''5''"
  by code_simp

subsection \<open>C10: the fresh session\<close>

text \<open>Claim C10. A session as the constructor leaves it binds one name, \<^verbatim>\<open>myCollection\<close>, to
  the array \<^verbatim>\<open>[1, 2, 3]\<close>, and \<^verbatim>\<open>evaluate("myCollection")\<close> in it succeeds with the result
  \<^verbatim>\<open>"[1, 2, 3]"\<close>.\<close>

theorem newSession_myCollection:
  "dom (environment newSession) = {''myCollection''} \<and>
   environment newSession ''myCollection'' = Some (Arr 0 [Num (Fin 1), Num (Fin 2), Num (Fin 3)]) \<and>
   fst (evaluate newSession ''myCollection'') = Success ''[1, 2, 3]''"
proof -
  have "dom (environment newSession) = {''myCollection''}"
    by (simp add: newSession_def)
  moreover have "environment newSession ''myCollection'' = Some (Arr 0 [Num (Fin 1), Num (Fin 2), Num (Fin 3)])"
    by (simp add: newSession_def)
  moreover have "fst (evaluate newSession ''myCollection'') = Success ''[1, 2, 3]''"
    by code_simp
  ultimately show ?thesis by simp
qed

end
